(* ===== verification/Clib.thy ===== *)
theory Clib
  imports Prelude
begin

text \<open>
  The part of the C library on strings that the sources use: character classes of the C
  locale, \<^verbatim>\<open>strcasecmp\<close>, \<^verbatim>\<open>strnlen\<close>, \<^verbatim>\<open>strtok_r\<close>, \<^verbatim>\<open>strsep\<close>, \<^verbatim>\<open>strstr\<close>, \<^verbatim>\<open>atoi\<close> and decimal
  output. A string is the list of its bytes without the terminating NUL; a \<^verbatim>\<open>char *\<close> into it
  is a suffix of that list, and a pointer that may be NULL is an option.
\<close>

section \<open>Characters\<close>

definition isspace :: "char \<Rightarrow> bool" where
  "isspace c \<longleftrightarrow> c = CHR '' '' \<or> (9 \<le> (of_char c :: nat) \<and> (of_char c :: nat) \<le> 13)"

definition isdigit :: "char \<Rightarrow> bool" where
  "isdigit c \<longleftrightarrow> 48 \<le> (of_char c :: nat) \<and> (of_char c :: nat) \<le> 57"

definition isupper :: "char \<Rightarrow> bool" where
  "isupper c \<longleftrightarrow> 65 \<le> (of_char c :: nat) \<and> (of_char c :: nat) \<le> 90"

definition islower :: "char \<Rightarrow> bool" where
  "islower c \<longleftrightarrow> 97 \<le> (of_char c :: nat) \<and> (of_char c :: nat) \<le> 122"

definition isalnum :: "char \<Rightarrow> bool" where
  "isalnum c \<longleftrightarrow> isdigit c \<or> isupper c \<or> islower c"

definition tolower :: "char \<Rightarrow> char" where
  "tolower c = (if isupper c then char_of ((of_char c :: nat) + 32) else c)"

definition NUL :: char where
  "NUL = CHR 0x00"

section \<open>Strings\<close>

text \<open>The C string held in a buffer: its bytes up to the first NUL.\<close>

definition c_str :: "char list \<Rightarrow> string" where
  "c_str buf = takeWhile (\<lambda>c. c \<noteq> NUL) buf"

text \<open>\<^verbatim>\<open>strcasecmp (a, b) == 0\<close>\<close>

definition strcaseeq :: "string \<Rightarrow> string \<Rightarrow> bool" where
  "strcaseeq a b \<longleftrightarrow> map tolower a = map tolower b"

text \<open>\<^verbatim>\<open>strncmp (a, b, n) == 0\<close>: both are cut at \<open>n\<close>, the NUL of a shorter one included.\<close>

definition strneq :: "string \<Rightarrow> string \<Rightarrow> nat \<Rightarrow> bool" where
  "strneq a b n \<longleftrightarrow> take n (a @ [NUL]) = take n (b @ [NUL])"

definition strnlen :: "string \<Rightarrow> nat \<Rightarrow> nat" where
  "strnlen s n = min (length s) n"

text \<open>
  \<^verbatim>\<open>strtok_r (s, delim, &save)\<close>: the token, or NULL when only delimiters are left, and the
  saved rest. \<^verbatim>\<open>strtok_r (NULL, delim, &save)\<close> is the same call on the saved rest.
\<close>

definition strtok_r :: "string \<Rightarrow> string \<Rightarrow> string option \<times> string" where
  "strtok_r s delim =
     (let s' = dropWhile (\<lambda>c. c \<in> set delim) s in
      if s' = [] then (None, [])
      else (Some (takeWhile (\<lambda>c. c \<notin> set delim) s'),
            drop 1 (dropWhile (\<lambda>c. c \<notin> set delim) s')))"

text \<open>\<^verbatim>\<open>strsep (&s, delim)\<close>: the field up to the next delimiter and the new \<^verbatim>\<open>s\<close>, NULL at the end.\<close>

definition strsep :: "string option \<Rightarrow> string \<Rightarrow> string option \<times> string option" where
  "strsep so delim =
     (case so of
        None \<Rightarrow> (None, None)
      | Some s \<Rightarrow>
          (Some (takeWhile (\<lambda>c. c \<notin> set delim) s),
           (case dropWhile (\<lambda>c. c \<notin> set delim) s of [] \<Rightarrow> None | _ # rest \<Rightarrow> Some rest)))"

text \<open>
  \<^verbatim>\<open>memmem (hay, needle)\<close> and \<^verbatim>\<open>strstr\<close>: what precedes the first occurrence, and the occurrence
  with what follows it.
\<close>

fun find_sub :: "'a list \<Rightarrow> 'a list \<Rightarrow> ('a list \<times> 'a list) option" where
  "find_sub hay needle =
     (if take (length needle) hay = needle then Some ([], hay)
      else (case hay of
              [] \<Rightarrow> None
            | x # xs \<Rightarrow> map_option (\<lambda>(a, b). (x # a, b)) (find_sub xs needle)))"

declare find_sub.simps [simp del]

section \<open>Decimal numbers\<close>

definition digit_val :: "char \<Rightarrow> nat" where
  "digit_val c = of_char c - 48"

definition dec_val :: "string \<Rightarrow> nat" where
  "dec_val ds = foldl (\<lambda>acc c. 10 * acc + digit_val c) 0 ds"

fun dec_nat :: "nat \<Rightarrow> string" where
  "dec_nat n =
     (if n < 10 then [char_of (48 + n)] else dec_nat (n div 10) @ [char_of (48 + n mod 10)])"

declare dec_nat.simps [simp del]

text \<open>\<^verbatim>\<open>printf ("%d")\<close>\<close>

definition show_int :: "int \<Rightarrow> string" where
  "show_int i = (if i < 0 then CHR ''-'' # dec_nat (nat (- i)) else dec_nat (nat i))"

text \<open>
  \<^verbatim>\<open>strtol\<close> in base 10: leading white space, an optional sign and the digits. It returns the
  value, clamped to the range of a 64-bit \<^verbatim>\<open>long\<close>, and what follows the digits; without a digit
  nothing is converted. \<^verbatim>\<open>atoi\<close> converts the result to a 32-bit \<^verbatim>\<open>int\<close>.
\<close>

definition scan_sign :: "string \<Rightarrow> bool \<times> string" where
  "scan_sign s =
     (case s of
        [] \<Rightarrow> (False, s)
      | c # cs \<Rightarrow> if c = CHR ''-'' then (True, cs) else if c = CHR ''+'' then (False, cs) else (False, s))"

definition clamp64 :: "int \<Rightarrow> int" where
  "clamp64 i = max (- (2 ^ 63)) (min (2 ^ 63 - 1) i)"

definition strtol :: "string \<Rightarrow> (int \<times> string) option" where
  "strtol s =
     (let (neg, s1) = scan_sign (dropWhile isspace s);
          ds = takeWhile isdigit s1 in
      if ds = [] then None
      else Some (clamp64 (if neg then - int (dec_val ds) else int (dec_val ds)),
                 dropWhile isdigit s1))"

definition to_int32 :: "int \<Rightarrow> int" where
  "to_int32 i = sint (word_of_int i :: 32 word)"

definition atoi :: "string \<Rightarrow> int" where
  "atoi s = (case strtol s of None \<Rightarrow> 0 | Some (v, _) \<Rightarrow> to_int32 v)"

section \<open>Facts\<close>

lemma strcaseeq_refl [simp]: "strcaseeq a a"
  and strcaseeq_sym: "strcaseeq a b \<longleftrightarrow> strcaseeq b a"
  and strcaseeq_trans: "strcaseeq a b \<Longrightarrow> strcaseeq b c \<Longrightarrow> strcaseeq a c"
  by (auto simp: strcaseeq_def)

lemma c_str_id: "NUL \<notin> set s \<Longrightarrow> c_str s = s"
  unfolding c_str_def by (rule takeWhile_all) auto

lemma c_str_no_NUL: "NUL \<notin> set (c_str s)"
  unfolding c_str_def by (auto dest: set_takeWhileD)

lemma digit_char_of [simp]:
  "d < 10 \<Longrightarrow> isdigit (char_of (48 + d))"
  "d < 10 \<Longrightarrow> digit_val (char_of (48 + d)) = d"
  by (auto simp: isdigit_def digit_val_def)

lemma dec_val_append [simp]: "dec_val (xs @ [c]) = 10 * dec_val xs + digit_val c"
  by (simp add: dec_val_def)

lemma dec_val_dec_nat [simp]: "dec_val (dec_nat n) = n"
proof (induction n rule: dec_nat.induct)
  case (1 n)
  show ?case
  proof (cases "n < 10")
    case True
    then show ?thesis by (subst dec_nat.simps) (simp add: dec_val_def)
  next
    case False
    then have "dec_val (dec_nat n) = 10 * (n div 10) + n mod 10"
      using "1" by (subst dec_nat.simps) simp
    then show ?thesis by simp
  qed
qed

lemma dec_nat_digits: "c \<in> set (dec_nat n) \<Longrightarrow> isdigit c"
proof (induction n rule: dec_nat.induct)
  case (1 n)
  then show ?case by (cases "n < 10") (auto simp: dec_nat.simps [of n])
qed

lemma dec_nat_nonempty [simp]: "dec_nat n \<noteq> []"
  by (subst dec_nat.simps) simp

lemma isdigit_not_space: "isdigit c \<Longrightarrow> \<not> isspace c"
  by (auto simp: isdigit_def isspace_def)

lemma isdigit_not_sign: "isdigit c \<Longrightarrow> c \<noteq> CHR ''-'' \<and> c \<noteq> CHR ''+''"
  by (auto simp: isdigit_def)

lemma scan_sign_digits: "ds \<noteq> [] \<Longrightarrow> \<forall>c \<in> set ds. isdigit c \<Longrightarrow> scan_sign (ds @ s) = (False, ds @ s)"
  by (cases ds) (auto simp: scan_sign_def dest: isdigit_not_sign)

lemma dropWhile_space_digits:
  "ds \<noteq> [] \<Longrightarrow> \<forall>c \<in> set ds. isdigit c \<Longrightarrow> dropWhile isspace (ds @ s) = ds @ s"
  by (cases ds) (auto dest: isdigit_not_space)

lemma takeWhile_digits:
  "\<forall>c \<in> set ds. isdigit c \<Longrightarrow> s = [] \<or> \<not> isdigit (hd s) \<Longrightarrow>
     takeWhile isdigit (ds @ s) = ds \<and> dropWhile isdigit (ds @ s) = s"
  by (induction ds) (cases s, auto)+

lemma strtol_digits:
  assumes "ds \<noteq> []" and "\<forall>c \<in> set ds. isdigit c" and "s = [] \<or> \<not> isdigit (hd s)"
  shows "strtol (ds @ s) = Some (clamp64 (int (dec_val ds)), s)"
proof -
  have "scan_sign (dropWhile isspace (ds @ s)) = (False, ds @ s)"
    using assms(1,2) by (metis dropWhile_space_digits scan_sign_digits)
  moreover have "takeWhile isdigit (ds @ s) = ds" and "dropWhile isdigit (ds @ s) = s"
    using takeWhile_digits [OF assms(2,3)] by blast+
  ultimately show ?thesis using assms(1) by (simp only: strtol_def Let_def prod.case if_False)
qed

lemma to_int32_id: "- (2 ^ 31) \<le> i \<Longrightarrow> i < 2 ^ 31 \<Longrightarrow> to_int32 i = i"
  by (simp add: to_int32_def signed_take_bit_int_eq_self sint_sbintrunc')

lemma to_int32_range: "- (2 ^ 31) \<le> to_int32 i \<and> to_int32 i < 2 ^ 31"
  using sint_range_size [of "word_of_int i :: 32 word"] by (simp add: to_int32_def word_size)

lemma atoi_dec_nat: "n < 2 ^ 31 \<Longrightarrow> atoi (dec_nat n) = int n"
  using strtol_digits [of "dec_nat n" "[]"]
  by (simp add: atoi_def dec_nat_digits clamp64_def to_int32_id)

lemma atoi_show_int:
  assumes "- (2 ^ 31) \<le> i" and "i < 2 ^ 31"
  shows "atoi (show_int i) = i"
proof (cases "i < 0")
  case True
  have "dropWhile isspace (CHR ''-'' # dec_nat n) = CHR ''-'' # dec_nat n" for n
    by (simp add: isspace_def)
  moreover have "takeWhile isdigit (dec_nat n) = dec_nat n" for n
    by (auto dest: dec_nat_digits)
  ultimately have "strtol (show_int i) = Some (clamp64 i, [])"
    using True
    by (simp add: strtol_def show_int_def scan_sign_def dec_nat_digits)
  with assms True show ?thesis
    by (simp add: atoi_def clamp64_def to_int32_id)
next
  case False
  with assms atoi_dec_nat [of "nat i"] show ?thesis by (simp add: show_int_def)
qed

lemma strtok_r_rest_length: "length (snd (strtok_r s delim)) \<le> length s"
  using dropWhile_length_le [of "\<lambda>c. c \<in> set delim" s]
    dropWhile_length_le [of "\<lambda>c. c \<notin> set delim" "dropWhile (\<lambda>c. c \<in> set delim) s"]
  by (auto simp: strtok_r_def Let_def)

lemma find_sub_Some:
  "find_sub hay needle = Some (a, b) \<Longrightarrow> hay = a @ b \<and> take (length needle) b = needle"
proof (induction hay arbitrary: a)
  case Nil
  then show ?case by (auto simp: find_sub.simps [of "[]"] split: if_splits)
next
  case (Cons x xs)
  then show ?case by (auto simp: find_sub.simps [of "x # xs"] split: if_splits)
qed

lemma find_sub_None_iff:
  "find_sub hay needle = None \<longleftrightarrow> (\<nexists>a b. hay = a @ needle @ b)"
proof (induction hay)
  case Nil
  then show ?case by (auto simp: find_sub.simps [of "[]"])
next
  case (Cons x xs)
  show ?case
  proof (cases "take (length needle) (x # xs) = needle")
    case True
    then have "x # xs = [] @ needle @ drop (length needle) (x # xs)"
      by (metis append_Nil append_take_drop_id)
    then have "\<exists>a b. x # xs = a @ needle @ b" by blast
    with True show ?thesis by (simp add: find_sub.simps [of "x # xs"])
  next
    case False
    then have "(\<exists>a b. x # xs = a @ needle @ b) \<longleftrightarrow> (\<exists>a b. xs = a @ needle @ b)"
      by (auto simp: Cons_eq_append_conv)
    with False Cons show ?thesis by (simp add: find_sub.simps [of "x # xs"])
  qed
qed

end
