(* ===== verification/Conf.thy ===== *)
theory Conf
  imports Clib
begin

text \<open>
  The configuration file parser, \<^verbatim>\<open>src/conf.c\<close>. A \<^verbatim>\<open>FILE\<close> open for reading is the list of the
  bytes still to be read; the linked list of \<^verbatim>\<open>struct conf_entry\<close> is a list, NULL the empty one.
  Allocation is an argument: \<open>alloc k\<close> says whether the allocations for the \<open>k\<close>-th entry
  succeed. The theorems: the parser always returns, never touches a NULL pointer, yields
  only well-formed entries, and reads back every list of entries that is printed one per line.
\<close>

section \<open>The parser\<close>

definition CONF_MAX_LINE :: nat where
  "CONF_MAX_LINE = 16384"

record conf_entry =
  key :: string
  val :: "string option"

definition NL :: char where "NL = CHR 0x0A"
definition CR :: char where "CR = CHR 0x0D"
definition TAB :: char where "TAB = CHR 0x09"

text \<open>\<^verbatim>\<open>fgets (buf, n, f)\<close> of the C library: at most \<open>n - 1\<close> bytes, up to and with a newline.\<close>

definition fgets :: "nat \<Rightarrow> char list \<Rightarrow> (char list \<times> char list) option" where
  "fgets n f =
     (if f = [] then None
      else let chunk = take (n - 1) f;
               pre = takeWhile (\<lambda>c. c \<noteq> NL) chunk;
               line = (if NL \<in> set chunk then pre @ [NL] else chunk)
           in Some (line, drop (length line) f))"

definition strip_newlines :: "string \<Rightarrow> string" where
  "strip_newlines line = takeWhile (\<lambda>c. c \<noteq> CR) (takeWhile (\<lambda>c. c \<noteq> NL) line)"

definition eat_whitespace :: "string \<Rightarrow> string" where
  "eat_whitespace line = dropWhile isspace line"

definition is_ignored_line :: "string \<Rightarrow> bool" where
  "is_ignored_line line \<longleftrightarrow> (case line of [] \<Rightarrow> True | c # _ \<Rightarrow> c = CHR ''#'')"

text \<open>One pass of the loop body on the text in \<^verbatim>\<open>buf\<close>: \<open>None\<close> is the \<^verbatim>\<open>continue\<close>.\<close>

definition parse_line :: "char list \<Rightarrow> conf_entry option result" where
  "parse_line buf =
     (let start = eat_whitespace (strip_newlines (c_str buf)) in
      if is_ignored_line start then Inr None
      else (case strtok_r start [CHR '' '', TAB] of
              (None, _) \<Rightarrow> Inl Null_Deref
            | (Some k, rest) \<Rightarrow>
                Inr (Some \<lparr>key = k, val = map_option eat_whitespace (fst (strtok_r rest []))\<rparr>)))"

lemma fgets_shorter: "1 < n \<Longrightarrow> fgets n f = Some (line, f') \<Longrightarrow> length f' < length f"
  by (cases f) (auto simp: fgets_def Let_def split: if_splits)

function conf_loop :: "(nat \<Rightarrow> bool) \<Rightarrow> conf_entry list \<Rightarrow> char list \<Rightarrow> conf_entry list result" where
  "conf_loop alloc acc f =
     (case fgets CONF_MAX_LINE f of
        None \<Rightarrow> Inr acc
      | Some (buf, f') \<Rightarrow>
          (case parse_line buf of
             Inl e \<Rightarrow> Inl e
           | Inr None \<Rightarrow> conf_loop alloc acc f'
           | Inr (Some e) \<Rightarrow>
               if alloc (length acc) then conf_loop alloc (acc @ [e]) f' else Inr []))"
  by pat_completeness auto
termination
  by (relation "measure (\<lambda>(alloc, acc, f). length f)")
    (auto simp: CONF_MAX_LINE_def dest!: fgets_shorter [rotated])

declare conf_loop.simps [simp del]

definition conf_parse :: "(nat \<Rightarrow> bool) \<Rightarrow> char list \<Rightarrow> conf_entry list result" where
  "conf_parse alloc f = conf_loop alloc [] f"

section \<open>Well-formed entries and their text\<close>

definition line_clean :: "string \<Rightarrow> bool" where
  "line_clean s \<longleftrightarrow> NL \<notin> set s \<and> CR \<notin> set s \<and> NUL \<notin> set s"

definition key_ok :: "string \<Rightarrow> bool" where
  "key_ok k \<longleftrightarrow> k \<noteq> [] \<and> \<not> isspace (hd k) \<and> hd k \<noteq> CHR ''#'' \<and>
     CHR '' '' \<notin> set k \<and> TAB \<notin> set k \<and> line_clean k"

definition val_ok :: "string \<Rightarrow> bool" where
  "val_ok v \<longleftrightarrow> (v = [] \<or> \<not> isspace (hd v)) \<and> line_clean v"

definition entry_ok :: "conf_entry \<Rightarrow> bool" where
  "entry_ok e \<longleftrightarrow> key_ok (key e) \<and> (case val e of None \<Rightarrow> True | Some v \<Rightarrow> val_ok v)"

definition print_val :: "string option \<Rightarrow> string" where
  "print_val v = (case v of None \<Rightarrow> [] | Some v \<Rightarrow> CHR '' '' # CHR '' '' # v)"

definition print_entry :: "conf_entry \<Rightarrow> string" where
  "print_entry e = key e @ print_val (val e) @ [NL]"

definition print_conf :: "conf_entry list \<Rightarrow> string" where
  "print_conf es = concat (map print_entry es)"

section \<open>Lemmas on one line\<close>

lemma whitespace_chars [simp]:
  "isspace (CHR '' '')" "isspace TAB" "isspace NL" "isspace CR"
  by (simp_all add: isspace_def TAB_def NL_def CR_def)

lemma control_chars_distinct [simp]:
  "NL \<noteq> CR" "CR \<noteq> NL" "NL \<noteq> NUL" "CR \<noteq> NUL" "CHR '' '' \<noteq> NL" "CHR '' '' \<noteq> CR" "CHR '' '' \<noteq> NUL"
  "CHR '' '' \<noteq> TAB" "NUL \<noteq> NL" "NUL \<noteq> CR" "NL \<noteq> CHR '' ''" "CR \<noteq> CHR '' ''" "NUL \<noteq> CHR '' ''"
  by (simp_all add: TAB_def NL_def CR_def NUL_def)

lemma line_clean_Cons [simp]:
  "line_clean (c # s) \<longleftrightarrow> c \<noteq> NL \<and> c \<noteq> CR \<and> c \<noteq> NUL \<and> line_clean s"
  by (auto simp: line_clean_def)

lemma line_clean_simps [simp]:
  "line_clean []"
  "line_clean (s @ t) \<longleftrightarrow> line_clean s \<and> line_clean t"
  by (auto simp: line_clean_def)

lemma line_clean_sub: "line_clean s \<Longrightarrow> set t \<subseteq> set s \<Longrightarrow> line_clean t"
  by (auto simp: line_clean_def)

lemma line_clean_while [intro]:
  "line_clean s \<Longrightarrow> line_clean (takeWhile P s)"
  "line_clean s \<Longrightarrow> line_clean (dropWhile P s)"
  "line_clean s \<Longrightarrow> line_clean (drop n s)"
  by (meson line_clean_sub set_takeWhileD set_dropWhileD in_set_dropD subsetI)+

lemma line_start_clean: "line_clean (eat_whitespace (strip_newlines (c_str buf)))"
proof -
  have "NUL \<notin> set (strip_newlines (c_str buf))"
    using c_str_no_NUL [of buf] unfolding strip_newlines_def by (meson set_takeWhileD)
  moreover have "CR \<notin> set (strip_newlines s)" for s
    unfolding strip_newlines_def by (auto dest: set_takeWhileD)
  moreover have "NL \<notin> set (strip_newlines s)" for s
    unfolding strip_newlines_def by (auto dest!: set_takeWhileD)
  ultimately show ?thesis
    unfolding eat_whitespace_def by (intro line_clean_while) (simp add: line_clean_def)
qed

lemma strtok_r_starts:
  "s \<noteq> [] \<Longrightarrow> hd s \<notin> set d \<Longrightarrow>
     strtok_r s d = (Some (takeWhile (\<lambda>c. c \<notin> set d) s), drop 1 (dropWhile (\<lambda>c. c \<notin> set d) s))"
  by (simp add: strtok_r_def dropWhile_eq_self_hd)

lemma strtok_r_rest_empty_delim: "fst (strtok_r s []) = (if s = [] then None else Some s)"
  by (simp add: strtok_r_def)

lemma val_ok_eat_whitespace: "line_clean s \<Longrightarrow> val_ok (eat_whitespace s)"
  using dropWhile_hd [of isspace s] line_clean_while(2) [of s isspace]
  by (cases "dropWhile isspace s") (auto simp: val_ok_def eat_whitespace_def)

lemma key_ok_token:
  assumes "line_clean (c # cs)" and "\<not> isspace c" and "c \<noteq> CHR ''#''"
  shows "key_ok (takeWhile (\<lambda>x. x \<notin> set [CHR '' '', TAB]) (c # cs))"
proof -
  have "c \<notin> set [CHR '' '', TAB]" using assms(2) by auto
  then have "takeWhile (\<lambda>x. x \<notin> set [CHR '' '', TAB]) (c # cs) =
      c # takeWhile (\<lambda>x. x \<notin> set [CHR '' '', TAB]) cs"
    by simp
  moreover have "x \<notin> set (takeWhile (\<lambda>x. x \<notin> set [CHR '' '', TAB]) s)"
    if "x \<in> set [CHR '' '', TAB]" for x s
    using that set_takeWhileD [of x "\<lambda>x. x \<notin> set [CHR '' '', TAB]" s] by blast
  ultimately show ?thesis
    unfolding key_ok_def
    using assms line_clean_while(1) [OF assms(1), of "\<lambda>x. x \<notin> set [CHR '' '', TAB]"]
    by (metis list.sel(1) list.distinct(1) list.set_intros)
qed

lemma parse_line_cases:
  "parse_line buf = Inr None \<or> (\<exists>e. parse_line buf = Inr (Some e) \<and> entry_ok e)"
proof -
  define start where "start = eat_whitespace (strip_newlines (c_str buf))"
  have clean: "line_clean start"
    unfolding start_def by (rule line_start_clean)
  show ?thesis
  proof (cases "is_ignored_line start")
    case True
    then show ?thesis by (simp add: parse_line_def start_def)
  next
    case False
    then obtain c cs where start: "start = c # cs" and hash: "c \<noteq> CHR ''#''"
      by (auto simp: is_ignored_line_def split: list.splits)
    have nsp: "\<not> isspace c"
      using start unfolding start_def eat_whitespace_def by (rule dropWhile_hd)
    define p where "p = (\<lambda>x. x \<notin> set [CHR '' '', TAB])"
    have hd: "hd start \<notin> set [CHR '' '', TAB]" using start nsp by auto
    have tok: "strtok_r start [CHR '' '', TAB] = (Some (takeWhile p start), drop 1 (dropWhile p start))"
      unfolding p_def by (rule strtok_r_starts) (simp add: start, rule hd)
    have "key_ok (takeWhile p start)"
      using clean hash nsp unfolding start p_def by (intro key_ok_token)
    moreover have "val_ok (eat_whitespace (drop 1 (dropWhile p start)))"
      using clean by (intro val_ok_eat_whitespace line_clean_while)
    ultimately show ?thesis
      using tok False
      by (simp add: parse_line_def start_def [symmetric] entry_ok_def strtok_r_rest_empty_delim)
  qed
qed

lemma conf_loop_ok:
  "\<forall>e \<in> set acc. entry_ok e \<Longrightarrow> \<exists>es. conf_loop alloc acc f = Inr es \<and> (\<forall>e \<in> set es. entry_ok e)"
proof (induction alloc acc f rule: conf_loop.induct)
  case (1 alloc acc f)
  show ?case
  proof (cases "fgets CONF_MAX_LINE f")
    case None
    with "1.prems" show ?thesis by (subst conf_loop.simps) simp
  next
    case (Some a)
    then obtain buf f' where f': "fgets CONF_MAX_LINE f = Some (buf, f')" by (cases a) auto
    show ?thesis
      using parse_line_cases [of buf] "1.prems" "1.IH" f'
      by (subst conf_loop.simps) auto
  qed
qed

section \<open>Printing and parsing back\<close>

lemma strip_newlines_line: "line_clean s \<Longrightarrow> strip_newlines (s @ [NL]) = s"
proof -
  assume "line_clean s"
  then have "takeWhile (\<lambda>c. c \<noteq> NL) (s @ [NL]) = s" and "takeWhile (\<lambda>c. c \<noteq> CR) s = s"
    by (auto simp: line_clean_def intro!: takeWhile_append_stop takeWhile_all)
  then show ?thesis by (simp only: strip_newlines_def)
qed

lemma fgets_line:
  assumes "NL \<notin> set s" and "length s + 2 \<le> n"
  shows "fgets n (s @ NL # f) = Some (s @ [NL], f)"
proof -
  have chunk: "take (n - 1) (s @ NL # f) = s @ NL # take (n - 2 - length s) f"
    using assms(2) by (simp add: take_Cons' diff_commute)
  have "takeWhile (\<lambda>c. c \<noteq> NL) (s @ NL # take (n - 2 - length s) f) = s"
    using assms(1) by (intro takeWhile_append_stop) auto
  then show ?thesis
    unfolding fgets_def Let_def chunk by simp
qed

lemma entry_ok_clean: "entry_ok e \<Longrightarrow> line_clean (key e @ print_val (val e))"
  by (cases "val e") (simp_all add: entry_ok_def key_ok_def val_ok_def print_val_def)

lemma strtok_r_key:
  assumes "key_ok k"
  shows "strtok_r (k @ print_val v) [CHR '' '', TAB] =
     (Some k, case v of None \<Rightarrow> [] | Some v \<Rightarrow> CHR '' '' # v)"
proof -
  let ?p = "\<lambda>c. c \<notin> set [CHR '' '', TAB]"
  have all: "\<And>c. c \<in> set k \<Longrightarrow> ?p c" using assms by (auto simp: key_ok_def)
  have "k \<noteq> []" using assms by (simp add: key_ok_def)
  then have "strtok_r (k @ print_val v) [CHR '' '', TAB] =
      (Some (takeWhile ?p (k @ print_val v)), drop 1 (dropWhile ?p (k @ print_val v)))"
    using all [of "hd k"] by (intro strtok_r_starts) simp_all
  moreover have "takeWhile ?p (k @ print_val v) = k \<and>
      dropWhile ?p (k @ print_val v) = print_val v"
    using takeWhile_append_stop [of k ?p, OF all] dropWhile_append_stop [of k ?p, OF all]
      takeWhile_all [of k ?p, OF all] dropWhile_all [of k ?p, OF all]
    by (cases v) (simp_all add: print_val_def)
  ultimately show ?thesis by (cases v) (simp_all add: print_val_def)
qed

lemma parse_line_print:
  assumes "entry_ok e"
  shows "parse_line (print_entry e) = Inr (Some e)"
proof -
  define body where "body = key e @ print_val (val e)"
  have clean: "line_clean body"
    using assms unfolding body_def by (rule entry_ok_clean)
  have "c_str (body @ [NL]) = body @ [NL]"
    using clean by (intro c_str_id) (simp add: line_clean_def)
  then have s: "strip_newlines (c_str (print_entry e)) = body"
    using clean by (simp add: print_entry_def body_def [symmetric] strip_newlines_line flip: append_assoc)
  obtain k ks where k: "key e = k # ks" and nsp: "\<not> isspace k" and hash: "k \<noteq> CHR ''#''"
    using assms by (cases "key e") (simp_all add: entry_ok_def key_ok_def)
  have start: "eat_whitespace body = body" and "\<not> is_ignored_line body"
    using k nsp hash by (simp_all add: eat_whitespace_def body_def is_ignored_line_def)
  moreover have "strtok_r body [CHR '' '', TAB] =
      (Some (key e), case val e of None \<Rightarrow> [] | Some v \<Rightarrow> CHR '' '' # v)"
    using assms unfolding body_def by (intro strtok_r_key) (simp add: entry_ok_def)
  moreover have "val e = map_option eat_whitespace
      (fst (strtok_r (case val e of None \<Rightarrow> [] | Some v \<Rightarrow> CHR '' '' # v) []))"
    using assms
    by (cases "val e") (simp_all add: strtok_r_rest_empty_delim entry_ok_def val_ok_def
        eat_whitespace_def dropWhile_eq_self_hd)
  ultimately show ?thesis
    using s by (simp add: parse_line_def)
qed

lemma conf_loop_print:
  assumes "\<forall>e \<in> set es. entry_ok e \<and> length (print_entry e) < CONF_MAX_LINE"
  shows "conf_loop (\<lambda>_. True) acc (print_conf es) = Inr (acc @ es)"
  using assms
proof (induction es arbitrary: acc)
  case Nil
  then show ?case by (simp add: print_conf_def conf_loop.simps fgets_def)
next
  case (Cons e es)
  define s where "s = key e @ print_val (val e)"
  have s: "print_entry e = s @ [NL]" by (simp add: print_entry_def s_def)
  have e: "entry_ok e" and len: "length (print_entry e) < CONF_MAX_LINE" using Cons.prems by simp_all
  have "NL \<notin> set s" using entry_ok_clean [OF e] by (simp add: s_def line_clean_def)
  then have "fgets CONF_MAX_LINE (s @ NL # print_conf es) = Some (s @ [NL], print_conf es)"
    using len by (intro fgets_line) (simp_all add: s)
  then have "fgets CONF_MAX_LINE (print_conf (e # es)) = Some (print_entry e, print_conf es)"
    by (simp add: print_conf_def s)
  moreover have "conf_loop (\<lambda>_. True) (acc @ [e]) (print_conf es) = Inr (acc @ e # es)"
    using Cons.IH [of "acc @ [e]"] Cons.prems by simp
  ultimately show ?case
    using parse_line_print [OF e] by (subst conf_loop.simps) simp
qed

section \<open>Properties\<close>

text \<open>
  The configuration parser always terminates, never dereferences a NULL pointer
  (\<^verbatim>\<open>strdup (key)\<close> always gets a token), and every entry it returns has a nonempty key free of
  blanks and line ends that does not start a comment, and a value with no leading white space
  and no line end, whatever bytes the file holds and whichever allocation fails.
\<close>

theorem conf_parse_entries_ok:
  "\<exists>es. conf_parse alloc f = Inr es \<and> (\<forall>e. e \<in> set es \<longrightarrow> entry_ok e)"
  using conf_loop_ok [of "[]" alloc f] by (auto simp: conf_parse_def)

theorem conf_parse_entries_ok_witness:
  "\<exists>es. conf_parse (\<lambda>_. True) ''#x'' = Inr es \<and> (\<forall>e. e \<in> set es \<longrightarrow> entry_ok e)"
  using conf_parse_entries_ok [of "\<lambda>_. True" "''#x''"] by simp

text \<open>
  C24. Parsing is the inverse of printing: a configuration written with one well-formed entry
  per line, each line shorter than the line buffer, is read back as exactly those entries, in
  order, with the whitespace inside values preserved.
\<close>

theorem conf_parse_print_roundtrip:
  assumes "\<forall>e \<in> set es. entry_ok e \<and> length (print_entry e) < CONF_MAX_LINE"
  shows "conf_parse (\<lambda>_. True) (print_conf es) = Inr es"
  using conf_loop_print [OF assms, of "[]"] by (simp add: conf_parse_def)

theorem conf_parse_print_roundtrip_witness:
  "conf_parse (\<lambda>_. True)
     (print_conf [\<lparr>key = ''foo'', val = Some ''bar baz  ''\<rparr>, \<lparr>key = ''end'', val = None\<rparr>]) =
   Inr [\<lparr>key = ''foo'', val = Some ''bar baz  ''\<rparr>, \<lparr>key = ''end'', val = None\<rparr>]"
  by (rule conf_parse_print_roundtrip)
    (simp add: entry_ok_def key_ok_def val_ok_def print_val_def line_clean_def isspace_def TAB_def NL_def CR_def NUL_def
      print_entry_def CONF_MAX_LINE_def)

end
