(* ===== verification/Options.thy ===== *)
theory Options
  imports Conf
begin

text \<open>
  The options of the daemon (\<^verbatim>\<open>struct opts\<close> of \<^verbatim>\<open>src/tlsdate.h\<close>) and how \<^verbatim>\<open>src/tlsdated.c\<close> builds
  them: defaults, command line (\<^verbatim>\<open>getopt\<close>), configuration file with its source stanzas, and
  the final checks. The linked list of sources is a list, its order the order of the \<^verbatim>\<open>next\<close>
  pointers; \<^verbatim>\<open>cur_source\<close>, a pointer into it, is an index. Values that the build generates
  (\<^verbatim>\<open>config.h\<close>, \<^verbatim>\<open>configmake.h\<close>) are the fields of \<open>build\<close>. \<^verbatim>\<open>fatal\<close> and \<^verbatim>\<open>pfatal\<close> are
  \<open>Inl (Exit 1)\<close>. Allocations outside the parser are taken to succeed.
\<close>

section \<open>Data\<close>

record build =
  RECENT_COMPILE_DATE :: time_t
  UNPRIV_USER :: string
  UNPRIV_GROUP :: string
  TLSDATE :: string
  TLSDATE_CONF_DIR :: string

text \<open>One possible build, for evaluating the model: the fallback values of \<^verbatim>\<open>src/tlsdate-helper.h\<close>.\<close>

definition sample_build :: build where
  "sample_build = \<lparr>RECENT_COMPILE_DATE = 1342323666, UNPRIV_USER = ''nobody'',
     UNPRIV_GROUP = ''nogroup'', TLSDATE = ''tlsdate'', TLSDATE_CONF_DIR = ''/etc/tlsdate/''\<rparr>"

definition DEFAULT_HOST :: string where "DEFAULT_HOST = ''google.com''"
definition DEFAULT_PORT :: string where "DEFAULT_PORT = ''443''"
definition DEFAULT_PROXY :: string where "DEFAULT_PROXY = ''none''"
definition DEFAULT_DAEMON_CACHEDIR :: string where "DEFAULT_DAEMON_CACHEDIR = ''/var/cache/tlsdated''"
definition DEFAULT_CONF_FILE :: "build \<Rightarrow> string" where
  "DEFAULT_CONF_FILE B = TLSDATE_CONF_DIR B @ ''tlsdated.conf''"

definition MAX_TRIES :: int where "MAX_TRIES = 10"
definition WAIT_BETWEEN_TRIES :: int where "WAIT_BETWEEN_TRIES = 10"
definition SUBPROCESS_TRIES :: int where "SUBPROCESS_TRIES = 10"
definition SUBPROCESS_WAIT_BETWEEN_TRIES :: int where "SUBPROCESS_WAIT_BETWEEN_TRIES = 10"
definition STEADY_STATE_INTERVAL :: int where "STEADY_STATE_INTERVAL = 60*60*24"
definition CONTINUITY_INTERVAL :: int where "CONTINUITY_INTERVAL = 60*60*4"
definition PATH_MAX :: nat where "PATH_MAX = 4096"

record source =
  src_host :: string
  src_port :: string
  src_proxy :: "string option"
  src_id :: int

record opts =
  opt_user :: string
  opt_group :: string
  max_tries :: int
  min_steady_state_interval :: int
  wait_between_tries :: int
  subprocess_tries :: int
  subprocess_wait_between_tries :: int
  steady_state_interval :: int
  continuity_interval :: int
  base_path :: string
  base_argv :: "string list"
  opt_argv :: "string list option"
  should_sync_hwclock :: bool
  should_load_disk :: bool
  should_save_disk :: bool
  should_netlink :: bool
  dry_run :: bool
  opt_jitter :: int
  conf_file :: "string option"
  sources :: "source list"
  cur_source :: "nat option"
  opt_proxy :: "string option"
  opt_leap :: bool
  should_dbus :: bool

text \<open>The options together with the two global verbosity flags the parsers write.\<close>

record settings =
  sopts :: opts
  verbose :: bool
  verbose_debug :: bool

definition set_conf_defaults :: "build \<Rightarrow> opts" where
  "set_conf_defaults B =
     \<lparr>opt_user = UNPRIV_USER B, opt_group = UNPRIV_GROUP B,
      max_tries = MAX_TRIES,
      min_steady_state_interval = STEADY_STATE_INTERVAL,
      wait_between_tries = WAIT_BETWEEN_TRIES,
      subprocess_tries = SUBPROCESS_TRIES,
      subprocess_wait_between_tries = SUBPROCESS_WAIT_BETWEEN_TRIES,
      steady_state_interval = STEADY_STATE_INTERVAL,
      continuity_interval = CONTINUITY_INTERVAL,
      base_path = DEFAULT_DAEMON_CACHEDIR,
      base_argv = [TLSDATE B, ''-H'', DEFAULT_HOST],
      opt_argv = None,
      should_sync_hwclock = True, should_load_disk = True, should_save_disk = True,
      should_netlink = True, dry_run = False, opt_jitter = 0,
      conf_file = None, sources = [], cur_source = None, opt_proxy = None,
      opt_leap = False, should_dbus = True\<rparr>"

section \<open>Command line\<close>

text \<open>
  \<^verbatim>\<open>getopt\<close> of the GNU C library as the sources use it: \<open>spec c\<close> tells whether option \<open>c\<close>
  exists and takes an argument. The result is the sequence of values \<^verbatim>\<open>getopt\<close> returns, each
  with \<^verbatim>\<open>optarg\<close>, and the remaining arguments \<^verbatim>\<open>argv + optind\<close> after the permutation.
\<close>

fun getopt_cluster :: "(char \<Rightarrow> bool option) \<Rightarrow> string \<Rightarrow> (char \<times> string option) list \<times> char option" where
  "getopt_cluster spec [] = ([], None)"
| "getopt_cluster spec (c # cs) =
     (case spec c of
        None \<Rightarrow> (let (os, p) = getopt_cluster spec cs in ((CHR ''?'', None) # os, p))
      | Some False \<Rightarrow> (let (os, p) = getopt_cluster spec cs in ((c, None) # os, p))
      | Some True \<Rightarrow> if cs \<noteq> [] then ([(c, Some cs)], None) else ([], Some c))"

fun getopt_all :: "(char \<Rightarrow> bool option) \<Rightarrow> string list \<Rightarrow> (char \<times> string option) list \<times> string list" where
  "getopt_all spec [] = ([], [])"
| "getopt_all spec (a # as) =
     (if a = ''--'' then ([], as)
      else if length a < 2 \<or> hd a \<noteq> CHR ''-''
      then (let (os, ns) = getopt_all spec as in (os, a # ns))
      else (case getopt_cluster spec (tl a) of
              (os, None) \<Rightarrow> (let (os', ns) = getopt_all spec as in (os @ os', ns))
            | (os, Some c) \<Rightarrow>
                (case as of
                   [] \<Rightarrow> (os @ [(CHR ''?'', None)], [])
                 | b # bs \<Rightarrow> (let (os', ns) = getopt_all spec bs in (os @ (c, Some b) # os', ns)))))"

definition tlsdated_spec :: "char \<Rightarrow> bool option" where
  "tlsdated_spec c =
     (if c \<in> set ''hwrplsvbU'' then Some False
      else if c \<in> set ''tdTDcamjfxug'' then Some True
      else None)"

abbreviation upd_opts :: "(opts \<Rightarrow> opts) \<Rightarrow> settings \<Rightarrow> settings" where
  "upd_opts f st \<equiv> st\<lparr>sopts := f (sopts st)\<rparr>"

text \<open>One iteration of the \<^verbatim>\<open>switch\<close>; \<open>a\<close> is \<^verbatim>\<open>optarg\<close>.\<close>

definition parse_opt :: "char \<Rightarrow> string \<Rightarrow> settings \<Rightarrow> settings result" where
  "parse_opt c a st =
     (if c = CHR ''w'' then Inr (upd_opts (should_sync_hwclock_update (\<lambda>_. False)) st)
      else if c = CHR ''r'' then Inr (upd_opts (should_netlink_update (\<lambda>_. False)) st)
      else if c = CHR ''U'' then Inr (upd_opts (should_dbus_update (\<lambda>_. False)) st)
      else if c = CHR ''p'' then Inr (upd_opts (dry_run_update (\<lambda>_. True)) st)
      else if c = CHR ''t'' then Inr (upd_opts (max_tries_update (\<lambda>_. atoi a)) st)
      else if c = CHR ''d'' then Inr (upd_opts (wait_between_tries_update (\<lambda>_. atoi a)) st)
      else if c = CHR ''T'' then Inr (upd_opts (subprocess_tries_update (\<lambda>_. atoi a)) st)
      else if c = CHR ''D'' then Inr (upd_opts (subprocess_wait_between_tries_update (\<lambda>_. atoi a)) st)
      else if c = CHR ''c'' then Inr (upd_opts (base_path_update (\<lambda>_. a)) st)
      else if c = CHR ''a'' then Inr (upd_opts (steady_state_interval_update (\<lambda>_. atoi a)) st)
      else if c = CHR ''l'' then Inr (upd_opts (should_load_disk_update (\<lambda>_. False)) st)
      else if c = CHR ''s'' then Inr (upd_opts (should_save_disk_update (\<lambda>_. False)) st)
      else if c = CHR ''v'' then Inr (st\<lparr>verbose := True\<rparr>)
      else if c = CHR ''b'' then Inr (st\<lparr>verbose_debug := True\<rparr>)
      else if c = CHR ''m'' then Inr (upd_opts (min_steady_state_interval_update (\<lambda>_. atoi a)) st)
      else if c = CHR ''j'' then Inr (upd_opts (opt_jitter_update (\<lambda>_. atoi a)) st)
      else if c = CHR ''f'' then Inr (upd_opts (conf_file_update (\<lambda>_. Some a)) st)
      else if c = CHR ''x'' then Inr (upd_opts (opt_proxy_update (\<lambda>_. Some a)) st)
      else if c = CHR ''u'' then Inr (upd_opts (opt_user_update (\<lambda>_. a)) st)
      else if c = CHR ''g'' then Inr (upd_opts (opt_group_update (\<lambda>_. a)) st)
      else Inl (Exit 1))"

fun parse_opts :: "(char \<times> string option) list \<Rightarrow> settings \<Rightarrow> settings result" where
  "parse_opts [] st = Inr st"
| "parse_opts ((c, a) # os) st =
     bind_res (parse_opt c (case a of None \<Rightarrow> [] | Some a \<Rightarrow> a) st) (parse_opts os)"

text \<open>\<open>args\<close> is \<^verbatim>\<open>argv\<close> from index 1 on.\<close>

definition parse_argv :: "string list \<Rightarrow> settings \<Rightarrow> settings result" where
  "parse_argv args st =
     (let (os, rest) = getopt_all tlsdated_spec args in
      bind_res (parse_opts os st)
        (\<lambda>st. Inr (if rest \<noteq> [] then upd_opts (base_argv_update (\<lambda>_. rest)) st else st)))"

section \<open>Sources and the configuration file\<close>

definition add_source_to_conf :: "opts \<Rightarrow> string \<Rightarrow> string \<Rightarrow> string option \<Rightarrow> opts" where
  "add_source_to_conf o1 h p x =
     o1\<lparr>sources := sources o1 @
        [\<lparr>src_host = h, src_port = p, src_proxy = x,
          src_id = (if sources o1 = [] then 0 else src_id (last (sources o1)) + 1)\<rparr>]\<rparr>"

text \<open>The loop of \<^verbatim>\<open>parse_source\<close> over the entries after \<^verbatim>\<open>source\<close>, up to \<^verbatim>\<open>end\<close>; the result is
  host, port, proxy and the entries after \<^verbatim>\<open>end\<close>.\<close>

fun source_stanza ::
  "conf_entry list \<Rightarrow> string option \<Rightarrow> string option \<Rightarrow> string option \<Rightarrow>
     (string option \<times> string option \<times> string option \<times> conf_entry list) result" where
  "source_stanza [] h p x = Inl (Exit 1)"
| "source_stanza (e # es) h p x =
     (if key e = ''end'' then Inr (h, p, x, es)
      else if key e = ''host'' then source_stanza es (val e) p x
      else if key e = ''port'' then source_stanza es h (val e) x
      else if key e = ''proxy'' then source_stanza es h p (val e)
      else Inl (Exit 1))"

definition parse_source :: "opts \<Rightarrow> conf_entry list \<Rightarrow> (opts \<times> conf_entry list) result" where
  "parse_source o1 conf =
     bind_res (source_stanza conf None None None)
       (\<lambda>(h, p, x, rest).
          case h of None \<Rightarrow> Inl (Exit 1)
          | Some h \<Rightarrow> (case p of None \<Rightarrow> Inl (Exit 1)
                     | Some p \<Rightarrow> Inr (add_source_to_conf o1 h p x, rest)))"

definition yes_value :: "string option \<Rightarrow> bool" where
  "yes_value v = (case v of None \<Rightarrow> True | Some s \<Rightarrow> s = ''yes'')"

text \<open>The chain of \<^verbatim>\<open>else if\<close> on one entry that is not a \<^verbatim>\<open>source\<close>. An integer or path key
  without a value falls through the chain and is ignored.\<close>

definition conf_setting :: "conf_entry \<Rightarrow> settings \<Rightarrow> settings" where
  "conf_setting e st =
     (case val e of
        Some v \<Rightarrow>
          if key e = ''max-tries'' then upd_opts (max_tries_update (\<lambda>_. atoi v)) st
          else if key e = ''min-steady-state-interval''
          then upd_opts (min_steady_state_interval_update (\<lambda>_. atoi v)) st
          else if key e = ''wait-between-tries'' then upd_opts (wait_between_tries_update (\<lambda>_. atoi v)) st
          else if key e = ''subprocess-tries'' then upd_opts (subprocess_tries_update (\<lambda>_. atoi v)) st
          else if key e = ''subprocess-wait-between-tries''
          then upd_opts (subprocess_wait_between_tries_update (\<lambda>_. atoi v)) st
          else if key e = ''steady-state-interval''
          then upd_opts (steady_state_interval_update (\<lambda>_. atoi v)) st
          else if key e = ''base-path'' then upd_opts (base_path_update (\<lambda>_. v)) st
          else if key e = ''jitter'' then upd_opts (opt_jitter_update (\<lambda>_. atoi v)) st
          else st
      | None \<Rightarrow> st)"

definition conf_flag :: "conf_entry \<Rightarrow> settings \<Rightarrow> settings" where
  "conf_flag e st =
     (if key e = ''should-sync-hwclock'' then upd_opts (should_sync_hwclock_update (\<lambda>_. yes_value (val e))) st
      else if key e = ''should-load-disk'' then upd_opts (should_load_disk_update (\<lambda>_. yes_value (val e))) st
      else if key e = ''should-save-disk'' then upd_opts (should_save_disk_update (\<lambda>_. yes_value (val e))) st
      else if key e = ''should-netlink'' then upd_opts (should_netlink_update (\<lambda>_. yes_value (val e))) st
      else if key e = ''dry-run'' then upd_opts (dry_run_update (\<lambda>_. yes_value (val e))) st
      else if key e = ''verbose'' then st\<lparr>verbose := yes_value (val e)\<rparr>
      else if key e = ''leap'' then upd_opts (opt_leap_update (\<lambda>_. yes_value (val e))) st
      else conf_setting e st)"

lemma source_stanza_shorter:
  "source_stanza es h p x = Inr (h', p', x', rest) \<Longrightarrow> length rest < length es"
  by (induction es h p x rule: source_stanza.induct) (auto split: if_splits)

lemma parse_source_Inr:
  "parse_source o1 es = Inr (o2, rest) \<Longrightarrow>
     \<exists>h p x. source_stanza es None None None = Inr (Some h, Some p, x, rest) \<and>
       o2 = add_source_to_conf o1 h p x"
  by (cases "source_stanza es None None None") (auto simp: parse_source_def split: option.split_asm)

lemma parse_source_shorter: "parse_source o1 es = Inr (o2, rest) \<Longrightarrow> length rest < length es"
  by (auto dest!: parse_source_Inr source_stanza_shorter)

function apply_conf :: "conf_entry list \<Rightarrow> settings \<Rightarrow> settings result" where
  "apply_conf [] st = Inr st"
| "apply_conf (e # es) st =
     (if key e = ''source''
      then (case parse_source (sopts st) es of
              Inl x \<Rightarrow> Inl x
            | Inr (o2, rest) \<Rightarrow> apply_conf rest (st\<lparr>sopts := o2\<rparr>))
      else apply_conf es (conf_flag e st))"
  by pat_completeness auto
termination
  by (relation "measure (\<lambda>(es, st). length es)") (auto dest!: parse_source_shorter)

text \<open>\<open>fs\<close> is the file system: the contents of a file that \<^verbatim>\<open>fopen\<close> can read.\<close>

definition load_conf ::
  "build \<Rightarrow> (string \<Rightarrow> char list option) \<Rightarrow> (nat \<Rightarrow> bool) \<Rightarrow> settings \<Rightarrow> settings result" where
  "load_conf B fs alloc st =
     (case fs (case conf_file (sopts st) of None \<Rightarrow> DEFAULT_CONF_FILE B | Some f \<Rightarrow> f) of
        None \<Rightarrow> (case conf_file (sopts st) of Some _ \<Rightarrow> Inl (Exit 1) | None \<Rightarrow> Inr st)
      | Some bytes \<Rightarrow>
          bind_res (conf_parse alloc bytes)
            (\<lambda>conf. if conf = [] then Inl (Exit 1) else apply_conf conf st))"

text \<open>\<^verbatim>\<open>check_conf\<close>; the result is the \<^verbatim>\<open>timestamp_path\<close> it leaves in the state.\<close>

definition check_conf :: "opts \<Rightarrow> string result" where
  "check_conf o1 =
     (let path = base_path o1 @ ''/timestamp'' in
      if max_tries o1 = 0 then Inl (Exit 1)
      else if wait_between_tries o1 = 0 then Inl (Exit 1)
      else if steady_state_interval o1 = 0 then Inl (Exit 1)
      else if PATH_MAX \<le> length path then Inl (Exit 1)
      else if steady_state_interval o1 \<le> opt_jitter o1 then Inl (Exit 1)
      else Inr path)"

text \<open>The part of \<^verbatim>\<open>main\<close> from the defaults to the default source.\<close>

definition configure ::
  "build \<Rightarrow> (string \<Rightarrow> char list option) \<Rightarrow> (nat \<Rightarrow> bool) \<Rightarrow> string list \<Rightarrow> (settings \<times> string) result" where
  "configure B fs alloc args =
     bind_res (parse_argv args \<lparr>sopts = set_conf_defaults B, verbose = False, verbose_debug = False\<rparr>)
       (\<lambda>st. bind_res (check_conf (sopts st))
         (\<lambda>_. bind_res (load_conf B fs alloc st)
           (\<lambda>st. bind_res (check_conf (sopts st))
             (\<lambda>path. Inr
                (if sources (sopts st) = []
                 then upd_opts (\<lambda>o1. add_source_to_conf o1 DEFAULT_HOST DEFAULT_PORT (Some DEFAULT_PROXY)) st
                 else st, path)))))"

section \<open>The invariant of the options\<close>

text \<open>The sources are numbered from 0 in list order, and no source has been chosen yet.\<close>

definition ids_ok :: "source list \<Rightarrow> bool" where
  "ids_ok ss \<longleftrightarrow> map src_id ss = map int [0..<length ss]"

definition sources_ok :: "opts \<Rightarrow> bool" where
  "sources_ok o1 \<longleftrightarrow> ids_ok (sources o1) \<and> cur_source o1 = None"

definition opts_ok :: "opts \<Rightarrow> bool" where
  "opts_ok o1 \<longleftrightarrow>
     max_tries o1 \<noteq> 0 \<and> wait_between_tries o1 \<noteq> 0 \<and> steady_state_interval o1 \<noteq> 0 \<and>
     opt_jitter o1 < steady_state_interval o1 \<and>
     length (base_path o1 @ ''/timestamp'') < PATH_MAX"

lemma ids_ok_last: "ids_ok ss \<Longrightarrow> ss \<noteq> [] \<Longrightarrow> src_id (last ss) = int (length ss) - 1"
proof -
  assume a: "ids_ok ss" "ss \<noteq> []"
  have "src_id (last ss) = last (map src_id ss)" using a(2) by (simp add: last_map)
  also have "\<dots> = last (map int [0..<length ss])" using a(1) by (simp add: ids_ok_def)
  also have "\<dots> = int (length ss) - 1" using a(2) by (cases ss) (simp_all add: last_map)
  finally show ?thesis .
qed

lemma sources_ok_add [simp]: "sources_ok o1 \<Longrightarrow> sources_ok (add_source_to_conf o1 h p x)"
  using ids_ok_last [of "sources o1"]
  by (auto simp: sources_ok_def add_source_to_conf_def ids_ok_def)

lemma sources_add [simp]: "sources (add_source_to_conf o1 h p x) \<noteq> []"
  by (simp add: add_source_to_conf_def)

lemma opts_ok_add [simp]: "opts_ok (add_source_to_conf o1 h p x) = opts_ok o1"
  by (simp add: opts_ok_def add_source_to_conf_def)

lemma base_path_add [simp]: "base_path (add_source_to_conf o1 h p x) = base_path o1"
  by (simp add: add_source_to_conf_def)

lemma check_conf_iff: "check_conf o1 = Inr path \<longleftrightarrow> opts_ok o1 \<and> path = base_path o1 @ ''/timestamp''"
  by (auto simp: check_conf_def opts_ok_def Let_def)

lemma parse_opt_sources:
  "sources_ok (sopts st) \<Longrightarrow> res_all (\<lambda>st. sources_ok (sopts st)) (parse_opt c a st)"
  by (simp add: parse_opt_def sources_ok_def)

lemma parse_opts_sources:
  "sources_ok (sopts st) \<Longrightarrow> res_all (\<lambda>st. sources_ok (sopts st)) (parse_opts os st)"
proof (induction os st rule: parse_opts.induct)
  case (2 c a os st)
  then show ?case
    using parse_opt_sources [OF "2.prems", of c "case a of None \<Rightarrow> [] | Some a \<Rightarrow> a"]
    by (auto intro!: res_allI dest: res_allD)
qed simp

lemma parse_argv_sources:
  "sources_ok (sopts st) \<Longrightarrow> res_all (\<lambda>st. sources_ok (sopts st)) (parse_argv args st)"
  using parse_opts_sources [of st "fst (getopt_all tlsdated_spec args)"]
  by (auto simp: parse_argv_def split_beta Let_def sources_ok_def intro!: res_allI dest!: res_allD)

lemma conf_flag_sources: "sources_ok (sopts (conf_flag e st)) = sources_ok (sopts st)"
  by (simp add: conf_flag_def conf_setting_def sources_ok_def split: option.split)

lemma parse_source_sources:
  "sources_ok o1 \<Longrightarrow> parse_source o1 es = Inr (o2, rest) \<Longrightarrow> sources_ok o2"
  by (auto dest!: parse_source_Inr)

lemma apply_conf_sources:
  "sources_ok (sopts st) \<Longrightarrow> res_all (\<lambda>st. sources_ok (sopts st)) (apply_conf es st)"
proof (induction es st rule: apply_conf.induct)
  case (2 e es st)
  then show ?case
    by (auto simp: conf_flag_sources split: sum.split dest: parse_source_sources)
qed simp

lemma load_conf_sources:
  "sources_ok (sopts st) \<Longrightarrow> res_all (\<lambda>st. sources_ok (sopts st)) (load_conf B fs alloc st)"
  by (auto simp: load_conf_def apply_conf_sources split: option.split intro!: res_allI dest: res_allD [OF apply_conf_sources])

section \<open>Reading back a list of sources\<close>

definition stanza :: "string \<times> string \<times> string option \<Rightarrow> conf_entry list" where
  "stanza hpx =
     (case hpx of (h, p, x) \<Rightarrow>
        [\<lparr>key = ''source'', val = None\<rparr>, \<lparr>key = ''host'', val = Some h\<rparr>, \<lparr>key = ''port'', val = Some p\<rparr>]
        @ (case x of None \<Rightarrow> [] | Some x \<Rightarrow> [\<lparr>key = ''proxy'', val = Some x\<rparr>])
        @ [\<lparr>key = ''end'', val = None\<rparr>])"

definition add_sources :: "(string \<times> string \<times> string option) list \<Rightarrow> opts \<Rightarrow> opts" where
  "add_sources = fold (\<lambda>(h, p, x) o1. add_source_to_conf o1 h p x)"

lemma parse_source_stanza:
  "parse_source o1 (tl (stanza (h, p, x)) @ rest) = Inr (add_source_to_conf o1 h p x, rest)"
  by (simp add: parse_source_def stanza_def split: option.split)

lemma stanza_Cons: "stanza hpx = \<lparr>key = ''source'', val = None\<rparr> # tl (stanza hpx)"
  by (simp add: stanza_def split: prod.split)

lemma apply_conf_stanzas:
  "apply_conf (concat (map stanza hs)) st = Inr (st\<lparr>sopts := add_sources hs (sopts st)\<rparr>)"
proof (induction hs arbitrary: st)
  case Nil
  then show ?case by (simp add: add_sources_def)
next
  case (Cons hpx hs)
  obtain h p x where hpx: "hpx = (h, p, x)" by (cases hpx)
  have "apply_conf (stanza hpx @ concat (map stanza hs)) st =
      apply_conf (concat (map stanza hs)) (st\<lparr>sopts := add_source_to_conf (sopts st) h p x\<rparr>)"
    by (subst stanza_Cons) (simp add: hpx parse_source_stanza)
  with Cons show ?case by (simp add: hpx add_sources_def)
qed

lemma stanza_entries_ok:
  assumes "val_ok h" and "val_ok p" and "case x of None \<Rightarrow> True | Some x \<Rightarrow> val_ok x"
    and "e \<in> set (stanza (h, p, x))"
  shows "entry_ok e"
proof -
  have "key_ok ''source''" "key_ok ''host''" "key_ok ''port''" "key_ok ''proxy''" "key_ok ''end''"
    by (simp_all add: key_ok_def line_clean_def isspace_def TAB_def NL_def CR_def NUL_def)
  with assms show ?thesis by (auto simp: stanza_def entry_ok_def split: option.splits)
qed

lemma add_sources_frame: "add_sources hs o1 = o1\<lparr>sources := sources (add_sources hs o1)\<rparr>"
proof (induction hs arbitrary: o1)
  case (Cons hpx hs)
  show ?case
    using Cons [of "add_source_to_conf o1 (fst hpx) (fst (snd hpx)) (snd (snd hpx))"]
    by (simp add: add_sources_def split_beta add_source_to_conf_def)
qed (simp add: add_sources_def)

lemma map_sources_add_sources:
  "ids_ok (sources o1) \<Longrightarrow>
   sources (add_sources hs o1) = sources o1 @
     map (\<lambda>(i, h, p, x). \<lparr>src_host = h, src_port = p, src_proxy = x, src_id = int (length (sources o1) + i)\<rparr>)
       (enumerate 0 hs)"
proof (induction hs rule: rev_induct)
  case Nil
  then show ?case by (simp add: add_sources_def)
next
  case (snoc hpx hs)
  obtain h p x where hpx: "hpx = (h, p, x)" by (cases hpx)
  have l: "length (sources (add_sources hs o1)) = length (sources o1) + length hs"
    using snoc by simp
  have "ids_ok (sources (add_sources hs o1))"
    using snoc by (auto simp: ids_ok_def o_def split_beta upt_add_eq_append [of 0] intro!: nth_equalityI
        simp: nth_append nth_enumerate_eq)
  then show ?case
    using snoc ids_ok_last [of "sources (add_sources hs o1)"] l
    by (cases "sources (add_sources hs o1) = []")
      (auto simp: add_sources_def add_source_to_conf_def hpx enumerate_append_eq
        dest!: arg_cong [where f = length and y = "[]"])
qed

section \<open>Properties\<close>

text \<open>
  C25. Start-up validation: whenever option parsing, the configuration file and both checks let
  the daemon start, its tries, retry delay and steady-state interval are nonzero, the jitter is
  below the steady-state interval, the timestamp path fits its buffer and is the base path
  with \<^verbatim>\<open>/timestamp\<close>, there is at least one source, the sources are numbered 0, 1, 2, ... in
  order, and no source is selected yet.
\<close>

theorem configure_ok:
  assumes "configure B fs alloc args = Inr (st, path)"
  shows "opts_ok (sopts st) \<and> path = base_path (sopts st) @ ''/timestamp'' \<and>
    sources (sopts st) \<noteq> [] \<and> sources_ok (sopts st)"
proof -
  obtain st1 st2 where 1: "parse_argv args
      \<lparr>sopts = set_conf_defaults B, verbose = False, verbose_debug = False\<rparr> = Inr st1"
    and 2: "load_conf B fs alloc st1 = Inr st2" and 3: "check_conf (sopts st2) = Inr path"
    and st: "st = (if sources (sopts st2) = []
       then upd_opts (\<lambda>o1. add_source_to_conf o1 DEFAULT_HOST DEFAULT_PORT (Some DEFAULT_PROXY)) st2
       else st2)"
    using assms by (auto simp: configure_def)
  have "sources_ok (set_conf_defaults B)"
    by (simp add: sources_ok_def set_conf_defaults_def ids_ok_def)
  then have s2: "sources_ok (sopts st2)"
    using 1 2 by (metis parse_argv_sources load_conf_sources res_allD settings.select_convs(1))
  show ?thesis
    using 3 s2 by (auto simp: st check_conf_iff)
qed

theorem configure_ok_witness:
  "\<exists>st path. configure sample_build (\<lambda>_. None) (\<lambda>_. True) [''-a'', ''60'', ''-j'', ''7''] = Inr (st, path) \<and>
     opts_ok (sopts st) \<and> path = base_path (sopts st) @ ''/timestamp'' \<and>
     sources (sopts st) \<noteq> [] \<and> sources_ok (sopts st)"
  (is "\<exists>st path. ?c = _ \<and> _")
proof -
  have "(case ?c of Inl _ \<Rightarrow> False | Inr _ \<Rightarrow> True)"
    by code_simp
  then obtain st path where "?c = Inr (st, path)"
    by (auto split: sum.splits)
  from this configure_ok [OF this] show ?thesis by blast
qed

text \<open>
  Configuration of sources, from text to options: a configuration file that consists of
  source stanzas (host, port and an optional proxy each, all free of leading blanks and line
  ends and short enough for the line buffer) is loaded as exactly these sources, appended in
  file order and numbered consecutively, and nothing else in the options changes.
\<close>

theorem load_conf_source_stanzas:
  assumes "fs (the (conf_file (sopts st))) = Some (print_conf (concat (map stanza hs)))"
    and "conf_file (sopts st) \<noteq> None" and "hs \<noteq> []" and "sources (sopts st) = []"
    and "\<forall>(h, p, x) \<in> set hs. val_ok h \<and> val_ok p \<and> (case x of None \<Rightarrow> True | Some x \<Rightarrow> val_ok x)"
    and "\<forall>e \<in> set (concat (map stanza hs)). length (print_entry e) < CONF_MAX_LINE"
  shows "load_conf B fs (\<lambda>_. True) st = Inr (st\<lparr>sopts := (sopts st)\<lparr>sources :=
      map (\<lambda>(i, h, p, x). \<lparr>src_host = h, src_port = p, src_proxy = x, src_id = int i\<rparr>) (enumerate 0 hs)\<rparr>\<rparr>)"
proof -
  have ok: "\<forall>e \<in> set (concat (map stanza hs)). entry_ok e \<and> length (print_entry e) < CONF_MAX_LINE"
    using assms(5,6) by (fastforce intro: stanza_entries_ok)
  have "conf_parse (\<lambda>_. True) (print_conf (concat (map stanza hs))) = Inr (concat (map stanza hs))"
    using conf_loop_print [OF ok, of "[]"] by (simp add: conf_parse_def)
  moreover have "concat (map stanza hs) \<noteq> []"
    using assms(3) by (cases hs) (auto simp: stanza_def split: prod.splits)
  ultimately have "load_conf B fs (\<lambda>_. True) st = Inr (st\<lparr>sopts := add_sources hs (sopts st)\<rparr>)"
    using assms(1,2) by (auto simp: load_conf_def apply_conf_stanzas)
  moreover have "add_sources hs (sopts st) = (sopts st)\<lparr>sources := sources (add_sources hs (sopts st))\<rparr>"
    by (rule add_sources_frame)
  ultimately show ?thesis
    using map_sources_add_sources [of "sopts st" hs] assms(4) by (simp add: ids_ok_def)
qed

theorem load_conf_source_stanzas_witness:
  "load_conf sample_build (\<lambda>f. Some (print_conf (concat (map stanza [(''a.example'', ''443'', None)]))))
     (\<lambda>_. True) \<lparr>sopts = (set_conf_defaults sample_build)\<lparr>conf_file := Some ''c''\<rparr>, verbose = False, verbose_debug = False\<rparr>
   = Inr \<lparr>sopts = (set_conf_defaults sample_build)\<lparr>conf_file := Some ''c'', sources :=
       [\<lparr>src_host = ''a.example'', src_port = ''443'', src_proxy = None, src_id = 0\<rparr>]\<rparr>,
     verbose = False, verbose_debug = False\<rparr>"
  by (subst load_conf_source_stanzas [where hs = "[(''a.example'', ''443'', None)]"])
    (simp_all add: set_conf_defaults_def sample_build_def stanza_def val_ok_def line_clean_def isspace_def NL_def CR_def
      NUL_def print_entry_def print_val_def CONF_MAX_LINE_def)

end
