(* ===== verification/Sane_Time.thy ===== *)
theory Sane_Time
  imports Options
begin

text \<open>
  Time stamps: the sanity check that every time passes before it is used, the eight bytes
  in which a \<^verbatim>\<open>time_t\<close> lies in the timestamp file (host byte order, little endian) and the file
  operations of \<^verbatim>\<open>src/util.c\<close> behind them, and \<^verbatim>\<open>load_disk_timestamp\<close>.
  Every check of this program that a time is plausible has the same shape, an open interval
  above the build date; the locale \<open>time_gate\<close> is that interface.
\<close>

section \<open>The sanity check\<close>

definition TLSDATED_MAX_DATE :: time_t where
  [limit_defs]: "TLSDATED_MAX_DATE = 1999991337"

definition is_sane_time :: "build \<Rightarrow> time_t \<Rightarrow> bool" where
  "is_sane_time B ts \<longleftrightarrow> RECENT_COMPILE_DATE B < ts \<and> ts < TLSDATED_MAX_DATE"

section \<open>The timestamp file\<close>

definition time_bytes :: "time_t \<Rightarrow> byte list" where
  "time_bytes t = map (\<lambda>i. word_of_int (t div 256 ^ i)) [0..<8]"

definition bytes_int :: "byte list \<Rightarrow> int" where
  "bytes_int bs = foldr (\<lambda>b acc. uint b + 256 * acc) bs 0"

definition bytes_time :: "byte list \<Rightarrow> time_t" where
  "bytes_time bs = sint (word_of_int (bytes_int bs) :: 64 word)"

text \<open>\<^verbatim>\<open>preadv\<close> at offset 0: a read that does not fill the buffer is a failure.\<close>

definition file_read :: "byte list \<Rightarrow> nat \<Rightarrow> byte list option" where
  "file_read contents sz = (if sz \<le> length contents then Some (take sz contents) else None)"

text \<open>\<^verbatim>\<open>pwritev\<close> at offset 0, with the number of bytes the kernel takes: the new contents and
  the return value.\<close>

definition file_write :: "byte list \<Rightarrow> nat \<Rightarrow> byte list \<Rightarrow> byte list \<times> int" where
  "file_write buf written contents =
     (take written buf @ drop (min written (length buf)) contents,
      if min written (length buf) = length buf then 0 else -1)"

definition save_timestamp_to_fd :: "time_t \<Rightarrow> nat \<Rightarrow> byte list \<Rightarrow> byte list \<times> int" where
  "save_timestamp_to_fd t written contents = file_write (time_bytes t) written contents"

text \<open>\<open>None\<close> is the return value -1, with the caller's variable unchanged.\<close>

definition load_disk_timestamp :: "build \<Rightarrow> (string \<Rightarrow> byte list option) \<Rightarrow> string \<Rightarrow> time_t option" where
  "load_disk_timestamp B disk path =
     (case disk path of
        None \<Rightarrow> None
      | Some contents \<Rightarrow>
          (case file_read contents 8 of
             None \<Rightarrow> None
           | Some buf \<Rightarrow>
               let tmpt = bytes_time buf in if is_sane_time B tmpt then Some tmpt else None))"

section \<open>The interface of a plausibility check\<close>

locale time_gate =
  fixes gate :: "time_t \<Rightarrow> bool" and lo hi :: time_t
  assumes gate_iff: "gate t \<longleftrightarrow> lo < t \<and> t < hi"
begin

lemma gate_convex: "gate a \<Longrightarrow> gate b \<Longrightarrow> a \<le> t \<Longrightarrow> t \<le> b \<Longrightarrow> gate t"
  by (simp add: gate_iff)

lemma gate_first: "lo + 1 < hi \<longleftrightarrow> gate (lo + 1)"
  by (simp add: gate_iff)

lemma gate_none: "hi \<le> lo + 1 \<Longrightarrow> \<not> gate t"
  by (simp add: gate_iff)

lemma gate_zero: "0 \<le> lo \<Longrightarrow> \<not> gate 0"
  by (simp add: gate_iff)

lemma gate_not_both_signs: "0 \<le> lo \<Longrightarrow> gate t \<Longrightarrow> 0 < t \<and> \<not> gate (- t)"
  by (simp add: gate_iff)

lemma gate_fits: "- (2 ^ 63) \<le> lo \<Longrightarrow> hi \<le> 2 ^ 63 \<Longrightarrow> gate t \<Longrightarrow> - (2 ^ 63) \<le> t \<and> t < 2 ^ 63"
  by (simp add: gate_iff)

end

interpretation sane: time_gate "is_sane_time B" "RECENT_COMPILE_DATE B" TLSDATED_MAX_DATE
  for B
  by unfold_locales (simp add: is_sane_time_def)

section \<open>Bytes of a time stamp\<close>

lemma bytes_int_digits: "bytes_int (map (\<lambda>i. word_of_int (t div 256 ^ i) :: byte) [0..<n]) = t mod 256 ^ n"
proof (induction n arbitrary: t)
  case 0
  then show ?case by (simp add: bytes_int_def)
next
  case (Suc n)
  have "bytes_int (map (\<lambda>i. word_of_int (t div 256 ^ i) :: byte) [0..<Suc n]) =
      uint (word_of_int t :: byte) +
      256 * bytes_int (map (\<lambda>i. word_of_int (t div 256 div 256 ^ i) :: byte) [0..<n])"
    by (simp add: bytes_int_def upt_conv_Cons map_Suc_upt [symmetric] o_def zdiv_zmult2_eq del: upt_Suc)
  also have "\<dots> = t mod 256 + 256 * (t div 256 mod 256 ^ n)"
    by (simp add: Suc uint_word_of_int)
  also have "\<dots> = t mod 256 ^ Suc n"
    by (simp add: zmod_zmult2_eq)
  finally show ?case .
qed

lemma length_time_bytes [simp]: "length (time_bytes t) = 8"
  by (simp add: time_bytes_def)

lemma bytes_time_of_bytes:
  assumes "- (2 ^ 63) \<le> t" and "t < 2 ^ 63"
  shows "bytes_time (time_bytes t) = t"
proof -
  have "bytes_int (time_bytes t) = t mod 2 ^ 64"
    by (simp add: time_bytes_def bytes_int_digits del: upt_rec_numeral)
  then have "bytes_time (time_bytes t) = sint (word_of_int (t mod 2 ^ 64) :: 64 word)"
    by (simp add: bytes_time_def)
  also have "(word_of_int (t mod 2 ^ 64) :: 64 word) = word_of_int t"
    by (simp add: word_of_int_eq_iff take_bit_eq_mod)
  also have "sint (word_of_int t :: 64 word) = t"
    using assms by (simp add: signed_take_bit_int_eq_self sint_sbintrunc')
  finally show ?thesis .
qed

lemma file_read_written:
  "file_read (fst (file_write buf (length buf) old)) (length buf) = Some buf"
  by (simp add: file_read_def file_write_def)

lemma sane_time_bytes:
  assumes "is_sane_time B t" and "- (2 ^ 63) \<le> RECENT_COMPILE_DATE B"
  shows "bytes_time (time_bytes t) = t"
  using assms sane.gate_fits [of B t] by (intro bytes_time_of_bytes) (simp_all add: limit_defs)

lemma saved_time_loads:
  assumes "is_sane_time B t" and "- (2 ^ 63) \<le> RECENT_COMPILE_DATE B"
    and "disk path = Some (fst (save_timestamp_to_fd t 8 old))"
  shows "load_disk_timestamp B disk path = Some t"
proof -
  have "file_read (fst (file_write (time_bytes t) 8 old)) 8 = Some (time_bytes t)"
    using file_read_written [of "time_bytes t" old] by simp
  then show ?thesis
    using assms sane_time_bytes [OF assms(1,2)] by (simp add: load_disk_timestamp_def save_timestamp_to_fd_def)
qed

section \<open>Properties\<close>

text \<open>
  C29. The timestamp on disk survives a restart: after a complete write of a sane time by the
  time setter, over whatever the file held before, loading the file yields exactly that time.
\<close>

theorem save_load_timestamp:
  assumes "is_sane_time B t" and "- (2 ^ 63) \<le> RECENT_COMPILE_DATE B"
    and "disk path = Some (fst (save_timestamp_to_fd t 8 old))"
  shows "snd (save_timestamp_to_fd t 8 old) = 0 \<and> load_disk_timestamp B disk path = Some t"
  using assms saved_time_loads [of B t disk path old] by (simp add: save_timestamp_to_fd_def file_write_def)

theorem save_load_timestamp_witness:
  "load_disk_timestamp sample_build
     (\<lambda>_. Some (fst (save_timestamp_to_fd 1400000000 8 [1, 2, 3]))) ''/t'' = Some 1400000000"
  using save_load_timestamp [of sample_build 1400000000
      "\<lambda>_. Some (fst (save_timestamp_to_fd 1400000000 8 [1, 2, 3]))" "''/t''" "[1, 2, 3]"]
  by (simp add: is_sane_time_def sample_build_def limit_defs)

text \<open>
  A timestamp file never brings in an implausible time: whatever the file system holds, a
  loaded time is the signed 64-bit value of the first eight bytes of the file and lies strictly
  between the build date and the maximal date; a missing, truncated or insane file loads nothing.
\<close>

theorem load_disk_timestamp_iff:
  "load_disk_timestamp B disk path = Some t \<longleftrightarrow>
     (\<exists>contents. disk path = Some contents \<and> 8 \<le> length contents \<and>
        t = bytes_time (take 8 contents) \<and> RECENT_COMPILE_DATE B < t \<and> t < TLSDATED_MAX_DATE)"
  by (auto simp: load_disk_timestamp_def file_read_def is_sane_time_def Let_def split: option.splits)

end
