(* ===== verification/Daemon_State.thy ===== *)
theory Daemon_State
  imports Sane_Time
begin

text \<open>
  The state of the daemon (\<^verbatim>\<open>struct state\<close> of \<^verbatim>\<open>src/tlsdate.h\<close>), the event library it is built on,
  and the two helpers of \<^verbatim>\<open>src/util.c\<close> the handlers share, \<^verbatim>\<open>trigger_event\<close> and \<^verbatim>\<open>sync_type_str\<close>.

  libevent is not part of the sources: its operations are the fields of a record \<open>evlib\<close> that
  every handler takes as an argument, over an unknown type \<open>'ev\<close> for \<^verbatim>\<open>struct event_base\<close>. What
  its manual promises and the scheduling theorems rely on is \<open>evlib_ok\<close>. A pointer to an event
  is a number; the array \<^verbatim>\<open>events\<close> maps an event id to it, NULL to \<open>None\<close>.
  The field \<open>outs\<close> records, in order, the calls by which the daemon acts on the outside.
  The pointer \<^verbatim>\<open>dbus\<close> is reduced to whether it is set. Logging is left out.
\<close>

section \<open>Constants\<close>

definition SYNC_TYPE_NONE :: int where [simp]: "SYNC_TYPE_NONE = 0"
definition SYNC_TYPE_BUILD :: int where [simp]: "SYNC_TYPE_BUILD = 1"
definition SYNC_TYPE_DISK :: int where [simp]: "SYNC_TYPE_DISK = 2"
definition SYNC_TYPE_RTC :: int where [simp]: "SYNC_TYPE_RTC = 4"
definition SYNC_TYPE_PLATFORM :: int where [simp]: "SYNC_TYPE_PLATFORM = 8"
definition SYNC_TYPE_NET :: int where [simp]: "SYNC_TYPE_NET = 16"

definition SETTER_EXIT :: int where [simp]: "SETTER_EXIT = 0"
definition SETTER_BAD_TIME :: int where [simp]: "SETTER_BAD_TIME = 1"
definition SETTER_NO_SAVE :: int where [simp]: "SETTER_NO_SAVE = 2"
definition SETTER_READ_ERR :: int where [simp]: "SETTER_READ_ERR = 3"
definition SETTER_TIME_SET :: int where [simp]: "SETTER_TIME_SET = 4"
definition SETTER_SET_ERR :: int where [simp]: "SETTER_SET_ERR = 5"
definition SETTER_NO_SBOX :: int where [simp]: "SETTER_NO_SBOX = 6"
definition SETTER_NO_RTC :: int where [simp]: "SETTER_NO_RTC = 7"

definition PRI_SAVE :: int where [simp]: "PRI_SAVE = 0"
definition PRI_NET :: int where [simp]: "PRI_NET = 1"
definition PRI_WAKE :: int where [simp]: "PRI_WAKE = 1"
definition PRI_ANY :: int where [simp]: "PRI_ANY = 1"

definition RESOLVER_TIMEOUT :: int where "RESOLVER_TIMEOUT = 30"
definition MAX_SANE_BACKOFF :: uint32 where "MAX_SANE_BACKOFF = 10*60"
definition SIGKILL :: int where [simp]: "SIGKILL = 9"

section \<open>Events\<close>

datatype event_id =
    E_RESOLVER | E_TLSDATE | E_TLSDATE_STATUS | E_TLSDATE_TIMEOUT | E_SAVE
  | E_SIGCHLD | E_SIGTERM | E_STEADYSTATE | E_ROUTEUP

datatype evflag = EV_TIMEOUT | EV_READ | EV_WRITE | EV_SIGNAL | EV_PERSIST

datatype callback =
    CB_run_tlsdate | CB_tlsdate_status | CB_tlsdate_timeout | CB_sync_and_save | CB_sigchld
  | CB_sigterm | CB_invalidate_time | CB_kickoff_time_sync | CB_stdin_wakeup | CB_netlink_ready
  | CB_time_set | CB_resolve_proxy

record 'ev evlib =
  event_new :: "int \<Rightarrow> evflag set \<Rightarrow> callback \<Rightarrow> 'ev \<Rightarrow> nat option \<times> 'ev"
  event_priority_set :: "nat \<Rightarrow> int \<Rightarrow> 'ev \<Rightarrow> 'ev"
  event_add :: "nat \<Rightarrow> int option \<Rightarrow> 'ev \<Rightarrow> int \<times> 'ev"
  event_del :: "nat \<Rightarrow> 'ev \<Rightarrow> 'ev"
  event_pending :: "nat \<Rightarrow> evflag set \<Rightarrow> 'ev \<Rightarrow> bool"
  event_get_fd :: "nat \<Rightarrow> 'ev \<Rightarrow> int"
  event_get_events :: "nat \<Rightarrow> 'ev \<Rightarrow> evflag set"
  event_free :: "nat \<Rightarrow> 'ev \<Rightarrow> 'ev"

text \<open>
  What the libevent manual says of these calls: adding an event that succeeds makes it pending,
  with a timeout when one is given; deleting an event makes it not pending; neither call
  changes whether another event is pending.
\<close>

definition evlib_ok :: "'ev evlib \<Rightarrow> bool" where
  "evlib_ok L \<longleftrightarrow>
     (\<forall>h d b. fst (event_add L h (Some d) b) = 0 \<longrightarrow>
        event_pending L h {EV_TIMEOUT} (snd (event_add L h (Some d) b))) \<and>
     (\<forall>h d b h' fl. h' \<noteq> h \<longrightarrow>
        event_pending L h' fl (snd (event_add L h d b)) = event_pending L h' fl b) \<and>
     (\<forall>h b fl. \<not> event_pending L h fl (event_del L h b)) \<and>
     (\<forall>h b h' fl. h' \<noteq> h \<longrightarrow> event_pending L h' fl (event_del L h b) = event_pending L h' fl b)"

text \<open>Adding an event succeeds (libevent fails only when it cannot allocate).\<close>

definition event_add_succeeds :: "'ev evlib \<Rightarrow> bool" where
  "event_add_succeeds L \<longleftrightarrow> (\<forall>h d b. fst (event_add L h d b) = 0)"

section \<open>State\<close>

datatype effect =
    Kill pid_t int
  | Pipe_Write time_t
  | Spawn pid_t "string list option"
  | Loopbreak
  | Close_Fd int
  | Announce string
  | Reply_Time int
  | Reply_Can bool
  | Reply_Info bool string time_t
  | Send_Resolve nat

record 'ev state =
  opts :: opts
  base :: 'ev
  dbus :: bool
  clock_delta :: time_t
  last_sync_type :: int
  last_time :: time_t
  timestamp_path :: string
  dynamic_proxy :: string
  events :: "event_id \<Rightarrow> nat option"
  tlsdate_monitor_fd :: int
  tlsdate_pid :: pid_t
  setter_pid :: pid_t
  setter_save_fd :: int
  setter_notify_fd :: int
  backoff :: uint32
  tries :: int
  resolving :: bool
  running :: bool
  exitting :: bool
  outs :: "effect list"

text \<open>The state that \<^verbatim>\<open>main\<close> clears with \<^verbatim>\<open>memset\<close> before it fills in options and event base.\<close>

definition zero_state :: "opts \<Rightarrow> 'ev \<Rightarrow> 'ev state" where
  "zero_state o1 b =
     \<lparr>opts = o1, base = b, dbus = False, clock_delta = 0, last_sync_type = SYNC_TYPE_NONE, last_time = 0,
      timestamp_path = [], dynamic_proxy = [], events = (\<lambda>_. None), tlsdate_monitor_fd = 0,
      tlsdate_pid = 0, setter_pid = 0, setter_save_fd = 0, setter_notify_fd = 0, backoff = 0, tries = 0,
      resolving = False, running = False, exitting = False, outs = []\<rparr>"

definition emit :: "effect \<Rightarrow> 'ev state \<Rightarrow> 'ev state" where
  "emit x s = s\<lparr>outs := outs s @ [x]\<rparr>"

text \<open>A use of an event pointer that must not be NULL.\<close>

definition ev_get :: "'ev state \<Rightarrow> event_id \<Rightarrow> nat result" where
  "ev_get s i = (case events s i of None \<Rightarrow> Inl Null_Deref | Some h \<Rightarrow> Inr h)"

definition all_event_flags :: "evflag set" where
  "all_event_flags = {EV_READ, EV_WRITE, EV_TIMEOUT, EV_SIGNAL}"

definition trigger_event :: "'ev evlib \<Rightarrow> event_id \<Rightarrow> int \<Rightarrow> 'ev state \<Rightarrow> 'ev state" where
  "trigger_event L i sec s =
     (case (if events s i = None \<and> i = E_RESOLVER then events s E_TLSDATE else events s i) of
        None \<Rightarrow> s
      | Some h \<Rightarrow>
          (let b = (if event_pending L h all_event_flags (base s) then event_del L h (base s) else base s)
           in s\<lparr>base := snd (event_add L h (if 0 \<le> sec then Some sec else None) b)\<rparr>))"

definition event_del_id :: "'ev evlib \<Rightarrow> event_id \<Rightarrow> 'ev state \<Rightarrow> 'ev state result" where
  "event_del_id L i s = bind_res (ev_get s i) (\<lambda>h. Inr (s\<lparr>base := event_del L h (base s)\<rparr>))"

definition sync_type_str :: "int \<Rightarrow> string" where
  "sync_type_str t =
     (if t = SYNC_TYPE_NONE then ''none''
      else if t = SYNC_TYPE_BUILD then ''build-timestamp''
      else if t = SYNC_TYPE_DISK then ''disk-timestamp''
      else if t = SYNC_TYPE_RTC then ''system-clock''
      else if t = SYNC_TYPE_PLATFORM then ''platform-feature''
      else if t = SYNC_TYPE_NET then ''network''
      else ''error'')"

section \<open>Facts\<close>

lemma evlib_okD:
  assumes "evlib_ok L"
  shows "fst (event_add L h (Some d) b) = 0 \<Longrightarrow>
      event_pending L h {EV_TIMEOUT} (snd (event_add L h (Some d) b))"
    and "h' \<noteq> h \<Longrightarrow> event_pending L h' fl (snd (event_add L h e b)) = event_pending L h' fl b"
    and "\<not> event_pending L h fl (event_del L h b)"
    and "h' \<noteq> h \<Longrightarrow> event_pending L h' fl (event_del L h b) = event_pending L h' fl b"
  using assms unfolding evlib_ok_def by blast+

text \<open>\<^verbatim>\<open>trigger_event\<close> touches nothing but the event base.\<close>

lemma trigger_event_frame: "trigger_event L i sec s = s\<lparr>base := base (trigger_event L i sec s)\<rparr>"
  by (simp add: trigger_event_def Let_def split: option.split)

lemma trigger_event_fields [simp]:
  "opts (trigger_event L i sec s) = opts s"
  "clock_delta (trigger_event L i sec s) = clock_delta s"
  "last_sync_type (trigger_event L i sec s) = last_sync_type s"
  "last_time (trigger_event L i sec s) = last_time s"
  "events (trigger_event L i sec s) = events s"
  "tlsdate_pid (trigger_event L i sec s) = tlsdate_pid s"
  "setter_pid (trigger_event L i sec s) = setter_pid s"
  "backoff (trigger_event L i sec s) = backoff s"
  "tries (trigger_event L i sec s) = tries s"
  "running (trigger_event L i sec s) = running s"
  "exitting (trigger_event L i sec s) = exitting s"
  "outs (trigger_event L i sec s) = outs s"
  "resolving (trigger_event L i sec s) = resolving s"
  "dbus (trigger_event L i sec s) = dbus s"
  "dynamic_proxy (trigger_event L i sec s) = dynamic_proxy s"
  "timestamp_path (trigger_event L i sec s) = timestamp_path s"
  by (subst trigger_event_frame, simp)+

lemma emit_fields [simp]:
  "opts (emit x s) = opts s" "base (emit x s) = base s" "clock_delta (emit x s) = clock_delta s"
  "last_sync_type (emit x s) = last_sync_type s" "last_time (emit x s) = last_time s"
  "events (emit x s) = events s" "tlsdate_pid (emit x s) = tlsdate_pid s"
  "setter_pid (emit x s) = setter_pid s" "backoff (emit x s) = backoff s" "tries (emit x s) = tries s"
  "running (emit x s) = running s" "exitting (emit x s) = exitting s" "resolving (emit x s) = resolving s"
  "outs (emit x s) = outs s @ [x]" "dynamic_proxy (emit x s) = dynamic_proxy s"
  "timestamp_path (emit x s) = timestamp_path s"
  "dbus (emit x s) = dbus s"
  by (simp_all add: emit_def)

lemma trigger_event_pending:
  assumes "evlib_ok L" and "event_add_succeeds L" and "events s i = Some h" and "0 \<le> sec"
  shows "event_pending L h {EV_TIMEOUT} (base (trigger_event L i sec s))"
  using assms by (auto simp: trigger_event_def Let_def event_add_succeeds_def evlib_okD(1))

lemma trigger_event_other:
  assumes "evlib_ok L" and "events s i = Some h" and "h' \<noteq> h"
  shows "event_pending L h' fl (base (trigger_event L i sec s)) = event_pending L h' fl (base s)"
  using assms by (auto simp: trigger_event_def Let_def evlib_okD)

lemma ev_get_Some [simp]: "events s i = Some h \<Longrightarrow> ev_get s i = Inr h"
  by (simp add: ev_get_def)

lemma ev_get_eq_Inr: "ev_get s i = Inr h \<longleftrightarrow> events s i = Some h"
  by (simp add: ev_get_def split: option.split)

section \<open>A table of pending events\<close>

text \<open>
  An event library that satisfies these laws, so that the theorems that assume them can be
  evaluated: the base maps an event to nothing when it is not pending, and to its timeout.
\<close>

type_synonym evtab = "nat \<Rightarrow> int option option"

definition table_lib :: "evtab evlib" where
  "table_lib =
     \<lparr>event_new = (\<lambda>fd fl cb b. (Some 0, b)),
      event_priority_set = (\<lambda>h p b. b),
      event_add = (\<lambda>h d b. (0, b(h := Some d))),
      event_del = (\<lambda>h b. b(h := None)),
      event_pending = (\<lambda>h fl b. case b h of None \<Rightarrow> False
         | Some d \<Rightarrow> (d \<noteq> None \<and> EV_TIMEOUT \<in> fl) \<or> EV_READ \<in> fl \<or> EV_WRITE \<in> fl \<or> EV_SIGNAL \<in> fl),
      event_get_fd = (\<lambda>h b. -1),
      event_get_events = (\<lambda>h b. {}),
      event_free = (\<lambda>h b. b(h := None))\<rparr>"

lemma table_lib_ok: "evlib_ok table_lib" and table_lib_adds: "event_add_succeeds table_lib"
  by (auto simp: evlib_ok_def event_add_succeeds_def table_lib_def)

text \<open>A state in which every event is installed, under a handle of its own.\<close>

definition sample_handles :: "event_id \<Rightarrow> nat option" where
  "sample_handles i = (if i = E_RESOLVER then None else if i = E_TLSDATE then Some 1
     else if i = E_TLSDATE_STATUS then Some 2 else if i = E_TLSDATE_TIMEOUT then Some 3
     else if i = E_SAVE then Some 4 else Some 5)"

definition sample_state :: "evtab state" where
  "sample_state = (zero_state (set_conf_defaults sample_build) (\<lambda>_. None))\<lparr>events := sample_handles, last_sync_type := SYNC_TYPE_RTC,
     backoff := 10\<rparr>"

end
