(* ===== verification/Monitor.thy ===== *)
theory Monitor
  imports Daemon_State
begin

text \<open>
  Running \<^verbatim>\<open>tlsdate\<close> in a child process, \<^verbatim>\<open>src/tlsdate-monitor.c\<close>. \<^verbatim>\<open>build_argv\<close> chooses the next source
  of the list and writes the command line. \<^verbatim>\<open>tlsdate\<close> forks first and calls it in the child: what
  it changes there is a copy of the options that dies with the child.
\<close>

definition next_source :: "nat option \<Rightarrow> nat \<Rightarrow> nat" where
  "next_source cur n = (case cur of None \<Rightarrow> 0 | Some i \<Rightarrow> if Suc i < n then Suc i else 0)"

definition proxy_args :: "opts \<Rightarrow> source \<Rightarrow> string list" where
  "proxy_args o1 src =
     (case (case opt_proxy o1 of Some p \<Rightarrow> Some p | None \<Rightarrow> src_proxy src) of
        None \<Rightarrow> []
      | Some p \<Rightarrow> if p \<noteq> '''' then [''-x'', p] else [])"

text \<open>\<open>alloc\<close>: whether \<^verbatim>\<open>malloc\<close> succeeds. The first component is the options afterwards, the second
  the argument vector without its NULL, or NULL.\<close>

definition build_argv :: "bool \<Rightarrow> opts \<Rightarrow> (opts \<times> string list option) result" where
  "build_argv alloc o1 =
     (if sources o1 = [] then Inl Abort
      else let i = next_source (cur_source o1) (length (sources o1));
               o2 = o1\<lparr>cur_source := Some i\<rparr>;
               src = sources o1 ! i
           in Inr (o2,
                if 1024 < length (base_argv o1) \<or> \<not> alloc then None
                else Some (base_argv o1 @ [''-H'', src_host src, ''-p'', src_port src] @ proxy_args o1 src
                           @ [''-Vraw'', ''-n''] @ (if opt_leap o1 then [''-l''] else []))))"

text \<open>The number of pointers \<^verbatim>\<open>build_argv\<close> allocates for the vector.\<close>

definition argv_allocated :: "opts \<Rightarrow> nat" where
  "argv_allocated o1 = length (base_argv o1) + 1 + 9"

text \<open>The child after the fork: the arguments it passes to \<^verbatim>\<open>execve\<close>, or how it stops before.\<close>

definition tlsdate_child :: "bool \<Rightarrow> bool \<Rightarrow> opts \<Rightarrow> string list result" where
  "tlsdate_child alloc dup2_ok o1 =
     bind_res (build_argv alloc o1)
       (\<lambda>(_, av). case av of None \<Rightarrow> Inl (Exit 1)
          | Some av \<Rightarrow> if dup2_ok then Inr av else Inl (Exit 2))"

text \<open>
  The parent: \<open>pid\<close> is what \<^verbatim>\<open>fork\<close> returns to it. The recorded effect carries the command line
  that the child computes from its copy of the options.
\<close>

definition child_argv :: "opts \<Rightarrow> string list option" where
  "child_argv o1 = (case tlsdate_child True True o1 of Inr av \<Rightarrow> Some av | Inl _ \<Rightarrow> None)"

definition tlsdate :: "pid_t \<Rightarrow> 'ev state \<Rightarrow> int \<times> 'ev state" where
  "tlsdate pid s =
     (if pid = -1 then (-1, s)
      else (0, emit (Spawn pid (child_argv (opts s))) (s\<lparr>tlsdate_pid := pid\<rparr>)))"

text \<open>The options that one call leaves behind.\<close>

definition build_argv_step :: "opts \<Rightarrow> opts" where
  "build_argv_step o1 = (case build_argv True o1 of Inr (o2, _) \<Rightarrow> o2 | Inl _ \<Rightarrow> o1)"

section \<open>Facts\<close>

lemma next_source_less: "0 < n \<Longrightarrow> (case cur of None \<Rightarrow> True | Some i \<Rightarrow> i < n) \<Longrightarrow> next_source cur n < n"
  by (auto simp: next_source_def split: option.splits)

lemma next_source_mod: "0 < n \<Longrightarrow> next_source (Some (k mod n)) n = Suc k mod n"
  using Suc_lessI [of "k mod n" n] by (auto simp: next_source_def mod_Suc)

lemma length_proxy_args: "length (proxy_args o1 src) \<le> 2"
  by (simp add: proxy_args_def split: option.split)

section \<open>Properties\<close>

lemma build_argv_step_frame:
  "build_argv_step o1 = o1\<lparr>cur_source := cur_source (build_argv_step o1)\<rparr>"
  by (simp add: build_argv_step_def build_argv_def Let_def)

lemma build_argv_step_sources: "sources ((build_argv_step ^^ k) o1) = sources o1"
proof (induction k)
  case (Suc k)
  have "sources (build_argv_step o2) = sources o2" for o2
    by (subst build_argv_step_frame) simp
  with Suc show ?case by simp
qed simp

text \<open>
  \<^verbatim>\<open>build_argv\<close> rotates: called \<open>k\<close> times in a row on the options it leaves behind, from no
  source selected, it selects source \<open>(k - 1) mod n\<close> of the \<open>n\<close> sources, so that any \<open>n\<close>
  successive calls use every source once.
\<close>

theorem build_argv_rotates:
  assumes "sources o1 \<noteq> []" and "cur_source o1 = None"
  shows "cur_source ((build_argv_step ^^ Suc k) o1) = Some (k mod length (sources o1))"
proof (induction k)
  case 0
  then show ?case
    using assms by (simp add: build_argv_step_def build_argv_def next_source_def Let_def)
next
  case (Suc k)
  let ?n = "length (sources o1)"
  have n: "0 < ?n" using assms(1) by simp
  have "cur_source (build_argv_step ((build_argv_step ^^ Suc k) o1)) =
      Some (next_source (Some (k mod ?n)) ?n)"
    using Suc assms(1) build_argv_step_sources [of "Suc k" o1]
    by (simp add: build_argv_step_def [of "(build_argv_step ^^ Suc k) o1"] build_argv_def Let_def del: funpow.simps)
  also have "next_source (Some (k mod ?n)) ?n = Suc k mod ?n"
    using n by (rule next_source_mod)
  finally show ?case by simp
qed

theorem build_argv_rotates_witness:
  "cur_source ((build_argv_step ^^ Suc 2)
     (add_source_to_conf (add_source_to_conf (set_conf_defaults sample_build) ''a'' ''1'' None) ''b'' ''2'' None))
   = Some 0"
  using build_argv_rotates [of
      "add_source_to_conf (add_source_to_conf (set_conf_defaults sample_build) ''a'' ''1'' None) ''b'' ''2'' None" 2]
  by (simp add: add_source_to_conf_def set_conf_defaults_def numeral_2_eq_2)

text \<open>
  C34. \<^verbatim>\<open>build_argv\<close> never writes past the vector it allocates (the terminating NULL included), and
  it selects a source that exists: the command line is the base command with the host and port
  of that source, the proxy if one is configured and not empty, and the flags that make
  \<^verbatim>\<open>tlsdate\<close> print the raw time without setting the clock.
\<close>

theorem build_argv_bounds:
  assumes "build_argv alloc o1 = Inr (o2, Some av)"
    and "\<forall>i. cur_source o1 = Some i \<longrightarrow> i < length (sources o1)"
  shows "length av + 1 \<le> argv_allocated o1 \<and>
    (\<exists>src \<in> set (sources o1). \<exists>tail.
       av = base_argv o1 @ [''-H'', src_host src, ''-p'', src_port src] @ proxy_args o1 src @ tail \<and>
       {''-Vraw'', ''-n''} \<subseteq> set tail \<and> (opt_leap o1 \<longleftrightarrow> ''-l'' \<in> set tail))"
proof -
  define src where "src = sources o1 ! next_source (cur_source o1) (length (sources o1))"
  define tail where "tail = [''-Vraw'', ''-n''] @ (if opt_leap o1 then [''-l''] else [])"
  have ne: "sources o1 \<noteq> []" and
    av: "av = base_argv o1 @ [''-H'', src_host src, ''-p'', src_port src] @ proxy_args o1 src @ tail"
    using assms(1) by (auto simp: build_argv_def Let_def src_def tail_def split: if_splits)
  have "src \<in> set (sources o1)"
    unfolding src_def using ne assms(2)
    by (intro nth_mem next_source_less) (auto split: option.split)
  moreover have "length av + 1 \<le> argv_allocated o1"
    using length_proxy_args [of o1 src] by (simp add: av tail_def argv_allocated_def)
  ultimately show ?thesis
    using av by (fastforce simp: tail_def)
qed

theorem build_argv_bounds_witness:
  "\<exists>o2 av. build_argv True (add_source_to_conf (set_conf_defaults sample_build) ''a'' ''1'' None) = Inr (o2, Some av)
     \<and> length av + 1 \<le> argv_allocated (add_source_to_conf (set_conf_defaults sample_build) ''a'' ''1'' None)"
proof -
  let ?o = "add_source_to_conf (set_conf_defaults sample_build) ''a'' ''1'' None"
  obtain o2 av where "build_argv True ?o = Inr (o2, Some av)"
    by (simp add: build_argv_def Let_def add_source_to_conf_def set_conf_defaults_def)
  from this build_argv_bounds [OF this] show ?thesis
    by (auto simp: add_source_to_conf_def set_conf_defaults_def)
qed

end
