(* ===== verification/Routeup.thy ===== *)
theory Routeup
  imports Sane_Time
begin

text \<open>
  The route listener, \<^verbatim>\<open>src/routeup.c\<close>: unpacking netlink datagrams, draining the socket, and
  the blocking loop around them. What the kernel answers to each \<^verbatim>\<open>read\<close> and \<^verbatim>\<open>select\<close> is an
  explicit script, one entry per call; a result \<open>None\<close> means that the call has not returned when
  the script ends. \<^verbatim>\<open>errno\<close> is passed along, because the code reads it after a \<^verbatim>\<open>read\<close> that may
  not have set it.
\<close>

section \<open>Netlink messages\<close>

definition NLMSG_HDRLEN :: nat where [simp]: "NLMSG_HDRLEN = 16"
definition NLMSG_DONE :: int where [simp]: "NLMSG_DONE = 3"
definition RTM_NEWROUTE :: int where [simp]: "RTM_NEWROUTE = 24"
definition EAGAIN :: int where [simp]: "EAGAIN = 11"

definition NLMSG_ALIGN :: "nat \<Rightarrow> nat" where
  "NLMSG_ALIGN n = (n + 3) div 4 * 4"

definition nlmsg_len :: "byte list \<Rightarrow> nat" where
  "nlmsg_len buf = nat (bytes_int (take 4 buf))"

definition nlmsg_type :: "byte list \<Rightarrow> int" where
  "nlmsg_type buf = bytes_int (take 2 (drop 4 buf))"

definition NLMSG_OK :: "byte list \<Rightarrow> bool" where
  "NLMSG_OK buf \<longleftrightarrow> NLMSG_HDRLEN \<le> length buf \<and> NLMSG_HDRLEN \<le> nlmsg_len buf \<and> nlmsg_len buf \<le> length buf"

definition NLMSG_NEXT :: "byte list \<Rightarrow> byte list" where
  "NLMSG_NEXT buf = drop (NLMSG_ALIGN (nlmsg_len buf)) buf"

lemma NLMSG_ALIGN_ge: "n \<le> NLMSG_ALIGN n"
  unfolding NLMSG_ALIGN_def by presburger

lemma NLMSG_NEXT_shorter: "NLMSG_OK buf \<Longrightarrow> length (NLMSG_NEXT buf) < length buf"
  using NLMSG_ALIGN_ge [of "nlmsg_len buf"] by (auto simp: NLMSG_OK_def NLMSG_NEXT_def)

text \<open>The loop of \<^verbatim>\<open>routeup_process\<close> over one datagram: whether it reaches a route message.\<close>

function nlmsg_scan :: "byte list \<Rightarrow> bool" where
  "nlmsg_scan buf =
     (if \<not> NLMSG_OK buf then False
      else if nlmsg_type buf = NLMSG_DONE then False
      else if nlmsg_type buf \<noteq> RTM_NEWROUTE then nlmsg_scan (NLMSG_NEXT buf)
      else True)"
  by pat_completeness auto
termination
  by (relation "measure length") (auto simp: NLMSG_NEXT_shorter)

declare nlmsg_scan.simps [simp del]

section \<open>Reading the socket\<close>

datatype read_res = Rd "byte list" | Rd_Err int

fun drain_queue :: "int \<Rightarrow> read_res list \<Rightarrow> (int \<times> read_res list) option" where
  "drain_queue en [] = None"
| "drain_queue en (Rd_Err e # rs) = Some (e, rs)"
| "drain_queue en (Rd bs # rs) = (if bs = [] then Some (en, rs) else drain_queue en rs)"

definition routeup_process :: "int \<Rightarrow> read_res list \<Rightarrow> (int \<times> int \<times> read_res list) option" where
  "routeup_process en rs =
     (case rs of
        [] \<Rightarrow> None
      | Rd_Err e # rs' \<Rightarrow> Some (-1, e, rs')
      | Rd buf # rs' \<Rightarrow>
          (if nlmsg_scan buf
           then (case drain_queue en rs' of
                   None \<Rightarrow> None
                 | Some (en', rs'') \<Rightarrow> Some (if en' \<noteq> EAGAIN then -1 else 0, en', rs''))
           else Some (1, en, rs')))"

text \<open>What one \<^verbatim>\<open>select\<close> returns and the time it leaves in \<^verbatim>\<open>remaining\<close>.\<close>

record select_res =
  sel_ret :: int
  rem_sec :: int
  rem_usec :: int

fun routeup_once :: "uint32 \<Rightarrow> int \<Rightarrow> select_res list \<Rightarrow> read_res list \<Rightarrow>
    (int \<times> int \<times> select_res list \<times> read_res list) option" where
  "routeup_once timeout en [] rs = None"
| "routeup_once timeout en (x # xs) rs =
     (if sel_ret x < 0 then Some (-1, en, xs, rs)
      else if timeout \<noteq> 0 \<and> rem_sec x = 0 \<and> rem_usec x = 0 then Some (1, en, xs, rs)
      else (case routeup_process en rs of
              None \<Rightarrow> None
            | Some (ret, en', rs') \<Rightarrow>
                (if ret = 1 then routeup_once timeout en' xs rs' else Some (ret, en', xs, rs'))))"

text \<open>Setting up the socket: the three system calls, and the descriptor that stays open.\<close>

definition routeup_setup :: "int \<Rightarrow> bool \<Rightarrow> bool \<Rightarrow> int \<times> int option" where
  "routeup_setup sock bind_ok fcntl_ok =
     (if sock < 0 then (1, None)
      else if \<not> bind_ok then (1, None)
      else if \<not> fcntl_ok then (1, None)
      else (0, Some sock))"

lemma routeup_once_shorter:
  "routeup_once timeout en xs rs = Some (ret, en', xs', rs') \<Longrightarrow> length xs' < length xs"
  by (induction xs arbitrary: en rs)
     (auto split: if_splits option.splits, (metis less_SucI)+)

text \<open>The stand-alone program: how many lines it has printed when it stops.\<close>

function routeup_main :: "int \<Rightarrow> select_res list \<Rightarrow> read_res list \<Rightarrow> nat option" where
  "routeup_main en xs rs =
     (case routeup_once 0 en xs rs of
        None \<Rightarrow> None
      | Some (ret, en', xs', rs') \<Rightarrow>
          (if ret = 0 then map_option Suc (routeup_main en' xs' rs') else Some 0))"
  by pat_completeness auto
termination
  by (relation "measure (\<lambda>(en, xs, rs). length xs)") (auto simp: routeup_once_shorter)

section \<open>What a datagram holds\<close>

text \<open>The specification side: messages as the kernel packs them into one datagram.\<close>

record nlmsg =
  msg_type :: nat
  msg_rest :: "byte list"
  msg_payload :: "byte list"

definition le_bytes :: "nat \<Rightarrow> nat \<Rightarrow> byte list" where
  "le_bytes n v = map (\<lambda>i. word_of_int (int v div 256 ^ i)) [0..<n]"

definition pack_msg :: "nlmsg \<Rightarrow> byte list" where
  "pack_msg m =
     (let l = 16 + length (msg_payload m)
      in le_bytes 4 l @ le_bytes 2 (msg_type m) @ msg_rest m @ msg_payload m
         @ replicate (NLMSG_ALIGN l - l) 0)"

text \<open>\<open>msg_rest\<close> is flags, sequence number and port; a datagram fits the buffer of 4096 bytes.\<close>

definition msg_ok :: "nlmsg \<Rightarrow> bool" where
  "msg_ok m \<longleftrightarrow> length (msg_rest m) = 10 \<and> msg_type m < 2 ^ 16 \<and> length (msg_payload m) < 4096"

text \<open>A route message before the end marker.\<close>

fun route_announced :: "nlmsg list \<Rightarrow> bool" where
  "route_announced [] = False"
| "route_announced (m # ms) =
     (if msg_type m = 3 then False else msg_type m = 24 \<or> route_announced ms)"

lemma length_le_bytes [simp]: "length (le_bytes n v) = n"
  by (simp add: le_bytes_def)

lemma bytes_int_le_bytes: "v < 256 ^ n \<Longrightarrow> bytes_int (le_bytes n v) = int v"
  by (simp add: le_bytes_def bytes_int_digits zmod_int [symmetric] flip: of_nat_power)

lemma length_pack_msg: "msg_ok m \<Longrightarrow> length (pack_msg m) = NLMSG_ALIGN (16 + length (msg_payload m))"
  using NLMSG_ALIGN_ge [of "16 + length (msg_payload m)"] by (simp add: pack_msg_def msg_ok_def Let_def)

lemma nlmsg_len_pack [simp]: "msg_ok m \<Longrightarrow> nlmsg_len (pack_msg m @ xs) = 16 + length (msg_payload m)"
  by (simp add: nlmsg_len_def pack_msg_def msg_ok_def Let_def bytes_int_le_bytes)

lemma nlmsg_type_pack [simp]: "msg_ok m \<Longrightarrow> nlmsg_type (pack_msg m @ xs) = int (msg_type m)"
  by (simp add: nlmsg_type_def pack_msg_def msg_ok_def Let_def bytes_int_le_bytes)

lemma NLMSG_OK_pack [simp]: "msg_ok m \<Longrightarrow> NLMSG_OK (pack_msg m @ xs)"
  using NLMSG_ALIGN_ge [of "16 + length (msg_payload m)"] length_pack_msg [of m]
  by (simp add: NLMSG_OK_def)

lemma NLMSG_NEXT_pack [simp]: "msg_ok m \<Longrightarrow> NLMSG_NEXT (pack_msg m @ xs) = xs"
  by (simp add: NLMSG_NEXT_def length_pack_msg)

lemma nlmsg_scan_packed:
  "\<forall>m \<in> set ms. msg_ok m \<Longrightarrow> nlmsg_scan (concat (map pack_msg ms)) = route_announced ms"
proof (induction ms)
  case Nil
  then show ?case by (simp add: nlmsg_scan.simps NLMSG_OK_def)
next
  case (Cons m ms)
  then show ?case by (subst nlmsg_scan.simps) simp
qed

lemma drain_queue_datagrams:
  "\<forall>r \<in> set ds. \<exists>bs. r = Rd bs \<and> bs \<noteq> [] \<Longrightarrow> drain_queue en (ds @ Rd_Err e # rs) = Some (e, rs)"
  by (induction ds) auto

section \<open>Properties\<close>

text \<open>
  A datagram that the kernel packed from netlink messages wakes the daemon exactly when a
  new-route message stands in it before an end marker; then every datagram queued behind it is
  read away, up to the read that finds the queue empty. Otherwise only that datagram is consumed.
\<close>

theorem routeup_process_packed:
  assumes "\<forall>m \<in> set ms. msg_ok m"
    and "\<forall>r \<in> set ds. \<exists>bs. r = Rd bs \<and> bs \<noteq> []"
  shows "routeup_process en (Rd (concat (map pack_msg ms)) # ds @ Rd_Err EAGAIN # rs) =
     (if route_announced ms then Some (0, EAGAIN, rs)
      else Some (1, en, ds @ Rd_Err EAGAIN # rs))"
  using assms by (simp add: routeup_process_def nlmsg_scan_packed drain_queue_datagrams)

theorem routeup_process_packed_witness:
  "let m = \<lparr>msg_type = 24, msg_rest = replicate 10 0, msg_payload = [7, 7, 7]\<rparr>
   in routeup_process 0 [Rd (concat (map pack_msg [m\<lparr>msg_type := 16\<rparr>, m])), Rd [1], Rd_Err EAGAIN] =
        Some (0, EAGAIN, [])"
  using routeup_process_packed [of "[\<lparr>msg_type = 16, msg_rest = replicate 10 0, msg_payload = [7, 7, 7]\<rparr>,
        \<lparr>msg_type = 24, msg_rest = replicate 10 0, msg_payload = [7, 7, 7]\<rparr>]" "[Rd [1]]" 0 "[]"]
  by (simp add: msg_ok_def)

text \<open>
  Waiting for a route reports what it promises: without a timeout the listener never
  reports one, and it reports a route change only if some datagram it read announces a route.
\<close>

theorem routeup_once_result:
  assumes "routeup_once timeout en xs rs = Some (ret, en', xs', rs')"
  shows "ret \<in> {-1, 0, 1} \<and> (ret = 1 \<longrightarrow> timeout \<noteq> 0) \<and>
     (ret = 0 \<longrightarrow> (\<exists>pre buf post. rs = pre @ Rd buf # post \<and> nlmsg_scan buf))"
  using assms
proof (induction timeout en xs rs rule: routeup_once.induct)
  case (2 timeout en x xs rs)
  have zero: "\<exists>pre buf post. rs = pre @ Rd buf # post \<and> nlmsg_scan buf"
    if "routeup_process en rs = Some (0, e, q)" for e q
    using that by (force simp: routeup_process_def split: list.splits read_res.splits if_splits option.splits)
  have one: "\<exists>r. rs = r # q"
    if "routeup_process en rs = Some (1, e, q)" for e q
    using that by (auto simp: routeup_process_def split: list.splits read_res.splits if_splits option.splits)
  have rng: "r \<in> {-1, 0, 1}" if "routeup_process en rs = Some (r, e, q)" for r e q
    using that by (auto simp: routeup_process_def split: list.splits read_res.splits if_splits option.splits)
  show ?case
  proof (cases "sel_ret x < 0 \<or> timeout \<noteq> 0 \<and> rem_sec x = 0 \<and> rem_usec x = 0")
    case True
    then show ?thesis using 2(2) by (auto split: if_splits)
  next
    case False
    with 2(2) obtain r e q where p: "routeup_process en rs = Some (r, e, q)"
      by (auto split: option.splits if_splits)
    show ?thesis
    proof (cases "r = 1")
      case True
      then have "ret \<in> {-1, 0, 1} \<and> (ret = 1 \<longrightarrow> timeout \<noteq> 0) \<and>
          (ret = 0 \<longrightarrow> (\<exists>pre buf post. q = pre @ Rd buf # post \<and> nlmsg_scan buf))"
        using 2 False p by (auto split: if_splits)
      with one [of e q] True p show ?thesis by (metis append_Cons)
    next
      case r: False
      then show ?thesis using 2(2) False p zero rng by (auto split: if_splits)
    qed
  qed
qed simp

theorem routeup_once_result_witness:
  "\<exists>pre buf post. [Rd (pack_msg \<lparr>msg_type = 24, msg_rest = replicate 10 0, msg_payload = []\<rparr>), Rd_Err EAGAIN]
      = pre @ Rd buf # post \<and> nlmsg_scan buf"
  using routeup_once_result [of 0 0 "[\<lparr>sel_ret = 1, rem_sec = 0, rem_usec = 0\<rparr>]"
      "[Rd (pack_msg \<lparr>msg_type = 24, msg_rest = replicate 10 0, msg_payload = []\<rparr>), Rd_Err EAGAIN]" 0 EAGAIN "[]" "[]"]
    nlmsg_scan_packed [of "[\<lparr>msg_type = 24, msg_rest = replicate 10 0, msg_payload = []\<rparr>]"]
  by (simp add: routeup_process_def msg_ok_def)

end
