(* ===== verification/Events.thy ===== *)
theory Events
  imports Monitor Routeup
begin

text \<open>
  The event handlers of the daemon, \<^verbatim>\<open>src/events/*.c\<close>, one definition per handler. A handler
  takes the event library, what the system calls it makes return, and the state; it returns
  the state afterwards or how the process stops. The calls by which it acts on the outside are
  appended to \<open>outs\<close>. Results of reads and writes are those after \<^verbatim>\<open>IGNORE_EINTR\<close>, which repeats
  a call that was interrupted.
\<close>

section \<open>System call results\<close>

text \<open>The clocks and the random source of one handler call, \<open>None\<close> being a failing call, and which of
  the three D-Bus library calls of an announcement succeed.\<close>

record inputs =
  in_real :: "time_t option"
  in_mono :: "time_t option"
  in_now :: time_t
  in_rand :: "uint32 option"
  in_bus :: "bool \<times> bool \<times> bool"

datatype write_res = Wrote nat | Wr_Err int

record siginfo =
  si_pid :: pid_t
  si_status :: int
  si_code :: int

text \<open>One \<^verbatim>\<open>waitid\<close> call; with \<^verbatim>\<open>WNOHANG\<close> a \<open>si_pid\<close> of 0 says that no child is ready. The second
  component is the error number of the \<^verbatim>\<open>kill\<close> that may follow, 0 when it succeeds.\<close>

datatype wait_res = Wait_Err int | Wait_Ok siginfo
type_synonym wait_script = "(wait_res \<times> int) list"

definition EPERM :: int where [simp]: "EPERM = 1"
definition EPIPE :: int where [simp]: "EPIPE = 32"

section \<open>check\_continuity.c\<close>

definition check_continuity :: "time_t option \<Rightarrow> time_t option \<Rightarrow> time_t \<Rightarrow> int \<times> time_t" where
  "check_continuity real raw delta =
     (case real of None \<Rightarrow> (-1, delta)
      | Some r \<Rightarrow> (case raw of None \<Rightarrow> (-1, delta)
         | Some m \<Rightarrow>
             (let new_delta = r - m
              in if delta \<noteq> 0 \<and> (new_delta < delta - CONTINUITY_INTERVAL \<or> new_delta > delta + CONTINUITY_INTERVAL)
                 then (1, new_delta)
                 else (0, new_delta))))"

text \<open>Creating an event, giving it a priority and entering it in the table of events.\<close>

definition install_event :: "'ev evlib \<Rightarrow> event_id \<Rightarrow> int \<Rightarrow> evflag set \<Rightarrow> callback \<Rightarrow> int \<Rightarrow>
    'ev state \<Rightarrow> bool \<times> 'ev state" where
  "install_event L i fd fl cb pri s =
     (case event_new L fd fl cb (base s) of
        (None, b) \<Rightarrow> (False, s\<lparr>base := b, events := (events s)(i := None)\<rparr>)
      | (Some h, b) \<Rightarrow> (True, s\<lparr>base := event_priority_set L h pri b, events := (events s)(i := Some h)\<rparr>))"

text \<open>An event the code keeps no pointer to.\<close>

definition anonymous_event :: "'ev evlib \<Rightarrow> int \<Rightarrow> evflag set \<Rightarrow> callback \<Rightarrow> int \<Rightarrow> int option \<Rightarrow>
    'ev state \<Rightarrow> int option \<times> 'ev state" where
  "anonymous_event L fd fl cb pri tv s =
     (case event_new L fd fl cb (base s) of
        (None, b) \<Rightarrow> (None, s\<lparr>base := b\<rparr>)
      | (Some h, b) \<Rightarrow>
          (let (r, b') = event_add L h tv (event_priority_set L h pri b) in (Some r, s\<lparr>base := b'\<rparr>)))"

definition add_event :: "'ev evlib \<Rightarrow> event_id \<Rightarrow> int option \<Rightarrow> 'ev state \<Rightarrow> int \<times> 'ev state" where
  "add_event L i tv s =
     (case events s i of None \<Rightarrow> (-1, s)
      | Some h \<Rightarrow> (let (r, b) = event_add L h tv (base s) in (r, s\<lparr>base := b\<rparr>)))"

definition setup_event_timer_continuity :: "'ev evlib \<Rightarrow> 'ev state \<Rightarrow> int \<times> 'ev state" where
  "setup_event_timer_continuity L s =
     (case anonymous_event L (-1) {EV_TIMEOUT, EV_PERSIST} CB_kickoff_time_sync PRI_WAKE
             (Some (continuity_interval (opts s))) s of
        (None, s') \<Rightarrow> (1, s')
      | (Some r, s') \<Rightarrow> (r, s'))"

section \<open>kickoff\_time\_sync.c\<close>

text \<open>\<^verbatim>\<open>abs\<close> on 32 bits: the most negative number is its own absolute value.\<close>

definition abs32 :: "int \<Rightarrow> int" where
  "abs32 n = (if n = - (2 ^ 31) then n else \<bar>n\<bar>)"

definition add_jitter :: "uint32 option \<Rightarrow> int \<Rightarrow> int \<Rightarrow> int result" where
  "add_jitter rnd b jitter =
     (if jitter = 0 then Inr b
      else (case rnd of None \<Rightarrow> Inl (Exit 1)
            | Some n \<Rightarrow> Inr (b + c_mod (abs32 (sint n)) (2 * jitter) - jitter)))"

definition invalidate_time :: "time_t \<Rightarrow> 'ev state \<Rightarrow> 'ev state" where
  "invalidate_time now s = s\<lparr>last_sync_type := SYNC_TYPE_RTC, last_time := now\<rparr>"

text \<open>The first part of \<^verbatim>\<open>action_kickoff_time_sync\<close>: the jitter, and the state without a trust in a
  clock that jumped.\<close>

definition detect_desync :: "inputs \<Rightarrow> 'ev state \<Rightarrow> (int \<times> 'ev state) result" where
  "detect_desync I s =
     (if fst (check_continuity (in_real I) (in_mono I) (clock_delta s)) > 0
      then bind_res (if clock_delta s \<noteq> 0 then add_jitter (in_rand I) 30 30 else Inr 0)
             (\<lambda>jitter. Inr (jitter, invalidate_time (in_now I) (s\<lparr>clock_delta := 0\<rparr>)))
      else Inr (0, s))"

definition action_kickoff_time_sync :: "'ev evlib \<Rightarrow> inputs \<Rightarrow> 'ev state \<Rightarrow> 'ev state result" where
  "action_kickoff_time_sync L I s0 =
     bind_res (detect_desync I s0) (\<lambda>(jitter, s).
       if last_sync_type s = SYNC_TYPE_NET then Inr s
       else if tries s > 0 then Inr (s\<lparr>tries := tries s - 1\<rparr>)
       else bind_res (ev_get s E_TLSDATE) (\<lambda>h.
         if event_pending L h {EV_TIMEOUT} (base s) then Inr s
         else if events s E_RESOLVER = None then Inr (trigger_event L E_TLSDATE jitter s)
         else Inr (trigger_event L E_RESOLVER jitter
                     (trigger_event L E_TLSDATE (jitter + RESOLVER_TIMEOUT) s))))"

definition action_invalidate_time :: "'ev evlib \<Rightarrow> inputs \<Rightarrow> 'ev state \<Rightarrow> 'ev state result" where
  "action_invalidate_time L I s =
     bind_res (if last_sync_type s = SYNC_TYPE_RTC
               then bind_res (ev_get s E_TLSDATE) (\<lambda>h. Inr (event_pending L h {EV_TIMEOUT} (base s)))
               else Inr False)
       (\<lambda>acquiring. if acquiring then Inr s
          else action_kickoff_time_sync L I (invalidate_time (in_now I) s))"

definition setup_event_timer_sync :: "'ev evlib \<Rightarrow> uint32 option \<Rightarrow> 'ev state \<Rightarrow> (int \<times> 'ev state) result" where
  "setup_event_timer_sync L rnd s =
     bind_res (add_jitter rnd (steady_state_interval (opts s)) (opt_jitter (opts s))) (\<lambda>wait_time.
       case install_event L E_STEADYSTATE (-1) {EV_TIMEOUT, EV_PERSIST} CB_invalidate_time PRI_ANY s of
         (False, s') \<Rightarrow> Inr (1, s')
       | (True, s') \<Rightarrow> Inr (add_event L E_STEADYSTATE (Some wait_time) s'))"

section \<open>run\_tlsdate.c\<close>

text \<open>\<open>pid\<close> is the result of the \<^verbatim>\<open>fork\<close> in \<^verbatim>\<open>tlsdate\<close>.\<close>

definition action_run_tlsdate :: "'ev evlib \<Rightarrow> pid_t \<Rightarrow> 'ev state \<Rightarrow> 'ev state result" where
  "action_run_tlsdate L pid s0 =
     (if last_sync_type s0 = SYNC_TYPE_NET then Inr s0
      else
        let s = s0\<lparr>resolving := False\<rparr>;
            initial_backoff = word_of_int (wait_between_tries (opts s)) in
        if running s then
          (if tries s > 0 then Inr (s\<lparr>tries := tries s - 1, backoff := initial_backoff\<rparr>) else Inr s)
        else if \<not> tries s < max_tries (opts s) then
          Inr (s\<lparr>tries := 0, backoff := initial_backoff\<rparr>)
        else
          (let s1 = s\<lparr>tries := tries s + 1, running := True\<rparr>;
               s2 = trigger_event L E_TLSDATE_TIMEOUT (subprocess_wait_between_tries (opts s1)) s1;
               s3 = trigger_event L E_TLSDATE_STATUS (-1) s2;
               (ret, s4) = tlsdate pid s3
           in if ret \<noteq> 0 then event_del_id L E_TLSDATE_TIMEOUT (s4\<lparr>running := False, tries := 0\<rparr>)
              else Inr s4))"

section \<open>save.c\<close>

text \<open>
  \<open>rd\<close>: whether the event reports the pipe readable; \<open>ws\<close>: the result of the first, second, ...
  \<^verbatim>\<open>write\<close>. A message is the eight bytes of a \<^verbatim>\<open>time_t\<close>. On shutdown the handler calls itself to
  send the message 0.
\<close>

function action_sync_and_save :: "bool \<Rightarrow> (nat \<Rightarrow> write_res) \<Rightarrow> 'ev state \<Rightarrow> 'ev state result" where
  "action_sync_and_save rd ws s =
     (let t = (if last_sync_type s \<noteq> SYNC_TYPE_NET then - last_time s else last_time s)
      in if rd then Inr s
         else (case ws 0 of
             Wr_Err e \<Rightarrow> (if e = EPIPE then Inr s else if e = EAGAIN then Inr s else Inl (Exit 1))
           | Wrote n \<Rightarrow>
               (if n \<noteq> 8 then Inl (Exit 1)
                else let s' = emit (Pipe_Write t) s
                     in if exitting s' \<and> t \<noteq> 0
                        then action_sync_and_save rd (\<lambda>k. ws (Suc k)) (s'\<lparr>last_time := 0\<rparr>)
                        else Inr s')))"
  by pat_completeness auto
termination
  by (relation "measure (\<lambda>(rd, ws, s). if last_time s = 0 then 0 else 1)") (auto simp: emit_def split: if_splits)

declare action_sync_and_save.simps [simp del]

section \<open>sigchld.c\<close>

text \<open>\<^verbatim>\<open>report_setter_error\<close> of \<^verbatim>\<open>src/tlsdate-setter.c\<close>: 1, 2, 3 are exited, killed and dumped.\<close>

definition report_setter_error :: "siginfo \<Rightarrow> 'ev state \<Rightarrow> 'ev state" where
  "report_setter_error info s =
     (if si_code info \<in> {1, 2, 3} then s else emit (Kill (si_pid info) SIGKILL) s)"

definition retry_tlsdate :: "'ev evlib \<Rightarrow> 'ev state \<Rightarrow> 'ev state" where
  "retry_tlsdate L s0 =
     (let s = (if backoff s0 < MAX_SANE_BACKOFF then s0\<lparr>backoff := backoff s0 * 2\<rparr> else s0)
      in if events s E_RESOLVER = None then trigger_event L E_TLSDATE (sint (backoff s)) s
         else trigger_event L E_RESOLVER (sint (backoff s))
                (trigger_event L E_TLSDATE (sint (word_of_int RESOLVER_TIMEOUT + backoff s)) s))"

definition handle_child_death :: "'ev evlib \<Rightarrow> wait_res \<Rightarrow> 'ev state \<Rightarrow> (bool \<times> 'ev state) result" where
  "handle_child_death L w s =
     (case w of
        Wait_Err _ \<Rightarrow> Inr (False, s)
      | Wait_Ok info \<Rightarrow>
          (if si_pid info = 0 then Inr (False, s)
           else if si_pid info = setter_pid s then Inr (True, emit Loopbreak (report_setter_error info s))
           else if si_pid info \<noteq> tlsdate_pid s then Inr (True, s)
           else bind_res (event_del_id L E_TLSDATE_TIMEOUT s) (\<lambda>s1.
             let s2 = s1\<lparr>running := False, tlsdate_pid := 0\<rparr>
             in if si_status info = 0 then Inr (True, s2) else Inr (True, retry_tlsdate L s2))))"

definition handle_child_stop :: "wait_res \<Rightarrow> int \<Rightarrow> 'ev state \<Rightarrow> (bool \<times> 'ev state) result" where
  "handle_child_stop w kill_errno s =
     (case w of
        Wait_Err _ \<Rightarrow> Inr (False, s)
      | Wait_Ok info \<Rightarrow>
          (if si_pid info = 0 then Inr (False, s)
           else if kill_errno = EPERM then Inl (Exit 1)
           else Inr (True, emit (Kill (si_pid info) SIGKILL) s)))"

text \<open>The answer to the next \<^verbatim>\<open>waitid\<close>. After the script no child is ready.\<close>

definition no_child :: siginfo where
  "no_child = \<lparr>si_pid = 0, si_status = 0, si_code = 0\<rparr>"

definition next_wait :: "wait_script \<Rightarrow> wait_res \<times> int" where
  "next_wait ws = (case ws of [] \<Rightarrow> (Wait_Ok no_child, 0) | w # _ \<Rightarrow> w)"

text \<open>\<^verbatim>\<open>handle_child_death (state) || handle_child_stop (state)\<close>\<close>

definition reap_child :: "'ev evlib \<Rightarrow> wait_script \<Rightarrow> 'ev state \<Rightarrow> (bool \<times> wait_script \<times> 'ev state) result" where
  "reap_child L ws s =
     bind_res (handle_child_death L (fst (next_wait ws)) s) (\<lambda>(died, s1).
       if died then Inr (True, tl ws, s1)
       else bind_res (handle_child_stop (fst (next_wait (tl ws))) (snd (next_wait (tl ws))) s1)
              (\<lambda>(stopped, s2). Inr (stopped, tl (tl ws), s2)))"

lemma reap_child_consumes:
  assumes "reap_child L ws s = Inr (True, ws', s')"
  shows "length ws' < length ws"
  using assms
  by (cases ws; cases "tl ws")
     (auto simp: reap_child_def next_wait_def no_child_def handle_child_death_def handle_child_stop_def
       split: if_splits)

function sigchld_loop :: "'ev evlib \<Rightarrow> wait_script \<Rightarrow> 'ev state \<Rightarrow> 'ev state result" where
  "sigchld_loop L ws s =
     (case reap_child L ws s of
        Inl e \<Rightarrow> Inl e
      | Inr (handled, ws', s') \<Rightarrow> if handled then sigchld_loop L ws' s' else Inr s')"
  by pat_completeness auto
termination
  by (relation "measure (\<lambda>(L, ws, s). length ws)") (auto intro: reap_child_consumes)

declare sigchld_loop.simps [simp del]

definition action_sigchld :: "'ev evlib \<Rightarrow> wait_script \<Rightarrow> 'ev state \<Rightarrow> 'ev state result" where
  "action_sigchld L ws s = bind_res (reap_child L ws s) (\<lambda>(_, ws', s'). sigchld_loop L ws' s')"

definition setup_sigchld_event :: "'ev evlib \<Rightarrow> bool \<Rightarrow> 'ev state \<Rightarrow> int \<times> 'ev state" where
  "setup_sigchld_event L persist s =
     (case install_event L E_SIGCHLD 17 (if persist then {EV_SIGNAL, EV_PERSIST} else {EV_SIGNAL})
             CB_sigchld PRI_NET s of
        (False, s') \<Rightarrow> (1, s')
      | (True, s') \<Rightarrow> (0, snd (add_event L E_SIGCHLD None s')))"

section \<open>sigterm.c\<close>

definition action_sigterm :: "'ev evlib \<Rightarrow> time_t option \<Rightarrow> 'ev state \<Rightarrow> 'ev state result" where
  "action_sigterm L tv s =
     (case tv of None \<Rightarrow> Inl (Exit 1)
      | Some t \<Rightarrow> Inr (trigger_event L E_SAVE (-1) (s\<lparr>exitting := True, last_time := t\<rparr>)))"

section \<open>time\_set.c\<close>

text \<open>
  \<^verbatim>\<open>dbus_announce\<close> of \<^verbatim>\<open>src/dbus.c\<close>. It reads \<^verbatim>\<open>state->dbus->conn\<close> without asking whether there is a bus;
  \<open>oks\<close>: allocating the signal, appending its argument, sending it.
\<close>

definition dbus_announce :: "bool \<times> bool \<times> bool \<Rightarrow> 'ev state \<Rightarrow> 'ev state result" where
  "dbus_announce oks s =
     (if \<not> dbus s then Inl Null_Deref
      else case oks of (new_ok, append_ok, send_ok) \<Rightarrow>
        Inr (if \<not> new_ok then s else if \<not> append_ok then s else if \<not> send_ok then s
             else emit (Announce (sync_type_str (last_sync_type s))) s))"

definition handle_time_setter :: "inputs \<Rightarrow> int \<Rightarrow> 'ev state \<Rightarrow> 'ev state result" where
  "handle_time_setter I status s =
     (if status = SETTER_BAD_TIME then
        Inr (s\<lparr>last_sync_type := SYNC_TYPE_RTC, last_time := in_now I\<rparr>)
      else if status = SETTER_TIME_SET then
        (let s1 = (if last_sync_type s = SYNC_TYPE_NET
                   then s\<lparr>clock_delta := snd (check_continuity (in_real I) (in_mono I) 0),
                          opts := (opts s)\<lparr>cur_source := None\<rparr>\<rparr>
                   else s)
         in if should_dbus (opts s1) then dbus_announce (in_bus I) s1 else Inr s1)
      else if status \<in> {SETTER_NO_SBOX, SETTER_EXIT, SETTER_SET_ERR, SETTER_NO_RTC, SETTER_NO_SAVE, SETTER_READ_ERR}
      then Inr s
      else Inl (Exit status))"

definition bytes_int32 :: "byte list \<Rightarrow> int" where
  "bytes_int32 bs = sint (word_of_int (bytes_int bs) :: 32 word)"

definition action_time_set :: "inputs \<Rightarrow> int \<Rightarrow> read_res \<Rightarrow> 'ev state \<Rightarrow> 'ev state result" where
  "action_time_set I fd r s =
     (case r of
        Rd_Err e \<Rightarrow> if e = EAGAIN then Inr s else Inr (emit (Close_Fd fd) s)
      | Rd bs \<Rightarrow> if length bs \<noteq> 4 then Inr (emit (Close_Fd fd) s)
               else handle_time_setter I (bytes_int32 bs) s)"

text \<open>
  The parent's side of \<^verbatim>\<open>setup_time_setter\<close>; \<open>to_fds\<close>, \<open>from_fds\<close> are the two pipes and \<open>pid\<close> the
  result of \<^verbatim>\<open>fork\<close>. The third component is whether the child half of the function runs.
\<close>

definition close_all :: "int list \<Rightarrow> 'ev state \<Rightarrow> 'ev state" where
  "close_all fds s = fold (\<lambda>fd. emit (Close_Fd fd)) fds s"

definition setup_time_setter :: "'ev evlib \<Rightarrow> (int \<times> int) option \<Rightarrow> (int \<times> int) option \<Rightarrow> bool \<Rightarrow> bool \<Rightarrow> pid_t \<Rightarrow>
    'ev state \<Rightarrow> int \<times> 'ev state" where
  "setup_time_setter L to_fds from_fds notify_nb save_nb pid s =
     (case to_fds of None \<Rightarrow> (1, s)
      | Some (to0, to1) \<Rightarrow>
     (case from_fds of None \<Rightarrow> (1, close_all [to0, to1] s)
      | Some (from0, from1) \<Rightarrow>
        (let s1 = s\<lparr>setter_save_fd := to1, setter_notify_fd := from0\<rparr>;
             close_and_fail = (\<lambda>s. (1, close_all [to0, to1, from0, from1] s))
         in if \<not> notify_nb then close_and_fail s1
            else if \<not> save_nb then close_and_fail s1
            else (case anonymous_event L from0 {EV_READ, EV_PERSIST} CB_time_set PRI_NET None s1 of
                    (None, s2) \<Rightarrow> close_and_fail s2
                  | (Some _, s2) \<Rightarrow>
                      (let s3 = s2\<lparr>setter_pid := pid\<rparr>
                       in if pid < 0 then close_and_fail s3 else (0, close_all [from1, to0] s3))))))"

section \<open>tlsdate\_status.c\<close>

definition read_tlsdate_response :: "read_res \<Rightarrow> int \<times> time_t" where
  "read_tlsdate_response r =
     (case r of
        Rd_Err e \<Rightarrow> (if e = EAGAIN then 1 else -1, 0)
      | Rd bs \<Rightarrow> if length bs \<noteq> 4 then (-1, 0) else (0, bytes_int bs))"

definition action_tlsdate_timeout :: "'ev state \<Rightarrow> 'ev state" where
  "action_tlsdate_timeout s = (if tlsdate_pid s \<noteq> 0 then emit (Kill (tlsdate_pid s) SIGKILL) s else s)"

definition action_tlsdate_status :: "build \<Rightarrow> 'ev evlib \<Rightarrow> read_res \<Rightarrow> 'ev state \<Rightarrow> 'ev state" where
  "action_tlsdate_status B L r s =
     (let (ret, t) = read_tlsdate_response r
      in if ret < 0 then trigger_event L E_TLSDATE_TIMEOUT 0 s
         else if ret \<noteq> 0 then trigger_event L E_TLSDATE_STATUS (-1) s
         else
           (let s1 = (if is_sane_time B t
                      then trigger_event L E_SAVE (-1) (s\<lparr>last_sync_type := SYNC_TYPE_NET, last_time := t\<rparr>)
                      else s)
            in s1\<lparr>tries := 0, backoff := word_of_int (wait_between_tries (opts s1))\<rparr>))"

definition setup_tlsdate_status :: "'ev evlib \<Rightarrow> (int \<times> int) option \<Rightarrow> bool \<Rightarrow> 'ev state \<Rightarrow> int \<times> 'ev state" where
  "setup_tlsdate_status L fds fcntl_ok s =
     (case fds of None \<Rightarrow> (-1, s)
      | Some (fd0, fd1) \<Rightarrow>
        (let s1 = s\<lparr>tlsdate_monitor_fd := fd1\<rparr>
         in if \<not> fcntl_ok then (1, s1)
            else (case install_event L E_TLSDATE_STATUS fd0 {EV_READ} CB_tlsdate_status PRI_NET s1 of
                    (False, s2) \<Rightarrow> (1, s2)
                  | (True, s2) \<Rightarrow>
                     (case install_event L E_TLSDATE_TIMEOUT (-1) {EV_TIMEOUT} CB_tlsdate_timeout PRI_SAVE s2 of
                        (False, s3) \<Rightarrow> (1, s3)
                      | (True, s3) \<Rightarrow> (0, s3)))))"

section \<open>route\_up.c\<close>

definition action_stdin_wakeup :: "'ev evlib \<Rightarrow> inputs \<Rightarrow> evflag set \<Rightarrow> read_res \<Rightarrow> 'ev state \<Rightarrow> 'ev state result" where
  "action_stdin_wakeup L I what r s =
     (if what \<noteq> {EV_READ} then Inr s
      else (case r of
              Rd bs \<Rightarrow> if length bs = 1 then action_kickoff_time_sync L I s else event_del_id L E_ROUTEUP s
            | Rd_Err _ \<Rightarrow> event_del_id L E_ROUTEUP s))"

text \<open>\<open>None\<close>: the handler is still reading when the script of reads ends.\<close>

definition action_netlink_ready :: "'ev evlib \<Rightarrow> inputs \<Rightarrow> evflag set \<Rightarrow> int \<Rightarrow> read_res list \<Rightarrow> 'ev state \<Rightarrow>
    'ev state result option" where
  "action_netlink_ready L I what en rs s =
     (if EV_READ \<notin> what then Some (Inr s)
      else map_option (\<lambda>(ret, _, _). if ret = 0 then action_kickoff_time_sync L I s else Inr s)
             (routeup_process en rs))"

definition setup_event_route_up :: "'ev evlib \<Rightarrow> int \<Rightarrow> bool \<Rightarrow> bool \<Rightarrow> 'ev state \<Rightarrow> int \<times> 'ev state" where
  "setup_event_route_up L sock bind_ok fcntl_ok s =
     (case (if should_netlink (opts s)
            then map_option (\<lambda>fd. (fd, CB_netlink_ready)) (snd (routeup_setup sock bind_ok fcntl_ok))
            else if fcntl_ok then Some (0, CB_stdin_wakeup) else None) of
        None \<Rightarrow> (1, s)
      | Some (fd, handler) \<Rightarrow>
          (case install_event L E_ROUTEUP fd {EV_READ, EV_PERSIST} handler PRI_WAKE s of
             (False, s1) \<Rightarrow> (1, if should_netlink (opts s) then emit (Close_Fd fd) s1 else s1)
           | (True, s1) \<Rightarrow> (0, snd (add_event L E_ROUTEUP None s1))))"


section \<open>Facts\<close>

lemma add_jitter_range:
  assumes "add_jitter (Some n) b jitter = Inr r" and "0 < jitter" and "sint n \<noteq> - (2 ^ 31)"
  shows "b - jitter \<le> r \<and> r < b + jitter"
proof -
  have "r = b + \<bar>sint n\<bar> mod (2 * jitter) - jitter"
    using assms by (simp add: add_jitter_def abs32_def c_mod_nonneg)
  moreover have "0 \<le> \<bar>sint n\<bar> mod (2 * jitter)" "\<bar>sint n\<bar> mod (2 * jitter) < 2 * jitter"
    using assms(2) by simp_all
  ultimately show ?thesis by simp
qed

lemma check_continuity_jump:
  "fst (check_continuity r m d) > 0 \<longleftrightarrow>
     (\<exists>x y. r = Some x \<and> m = Some y \<and> d \<noteq> 0 \<and> \<bar>x - y - d\<bar> > CONTINUITY_INTERVAL)"
  by (auto simp: check_continuity_def Let_def CONTINUITY_INTERVAL_def split: option.splits)

lemma event_del_id_eq_Inr [simp]:
  "event_del_id L i s = Inr s' \<longleftrightarrow> (\<exists>h. events s i = Some h \<and> s' = s\<lparr>base := event_del L h (base s)\<rparr>)"
  by (auto simp: event_del_id_def ev_get_eq_Inr)

lemma retry_tlsdate_fields [simp]:
  "opts (retry_tlsdate L s) = opts s" "events (retry_tlsdate L s) = events s"
  "clock_delta (retry_tlsdate L s) = clock_delta s" "last_sync_type (retry_tlsdate L s) = last_sync_type s"
  "last_time (retry_tlsdate L s) = last_time s" "tlsdate_pid (retry_tlsdate L s) = tlsdate_pid s"
  "setter_pid (retry_tlsdate L s) = setter_pid s" "tries (retry_tlsdate L s) = tries s"
  "running (retry_tlsdate L s) = running s" "exitting (retry_tlsdate L s) = exitting s"
  "outs (retry_tlsdate L s) = outs s" "dbus (retry_tlsdate L s) = dbus s" "resolving (retry_tlsdate L s) = resolving s"
  "dynamic_proxy (retry_tlsdate L s) = dynamic_proxy s" "timestamp_path (retry_tlsdate L s) = timestamp_path s"
  by (simp_all add: retry_tlsdate_def Let_def)

lemma retry_tlsdate_backoff:
  "backoff (retry_tlsdate L s) = (if backoff s < MAX_SANE_BACKOFF then backoff s * 2 else backoff s)"
  by (simp add: retry_tlsdate_def Let_def)

lemma sync_and_save_no_write:
  "\<not> (\<exists>n. ws 0 = Wrote n) \<or> rd \<Longrightarrow> action_sync_and_save rd ws s = Inr s' \<Longrightarrow> s' = s"
  by (subst (asm) action_sync_and_save.simps) (auto simp: Let_def split: write_res.splits if_splits)

lemma sync_and_save_shutdown:
  "last_time s = 0 \<Longrightarrow> ws 0 = Wrote 8 \<Longrightarrow> action_sync_and_save False ws s = Inr (emit (Pipe_Write 0) s)"
  by (subst action_sync_and_save.simps) (simp add: Let_def)

lemma reap_child_death:
  "reap_child L ((Wait_Ok info, e) # ws) s = Inr (True, ws, s1)"
  if "handle_child_death L (Wait_Ok info) s = Inr (True, s1)"
  using that by (simp add: reap_child_def next_wait_def)

lemma handle_child_death_handles:
  "handle_child_death L (Wait_Ok info) s = Inr (d, s1) \<Longrightarrow> si_pid info \<noteq> 0 \<Longrightarrow> d"
  by (auto simp: handle_child_death_def Let_def split: if_splits)

text \<open>What the death of one child does to the bookkeeping of children.\<close>

definition tlsdate_hit :: "pid_t set \<Rightarrow> 'ev state \<Rightarrow> bool" where
  "tlsdate_hit pids s \<longleftrightarrow> tlsdate_pid s \<in> pids \<and> tlsdate_pid s \<noteq> setter_pid s"

definition reaped :: "pid_t set \<Rightarrow> 'ev state \<Rightarrow> 'ev state \<Rightarrow> bool" where
  "reaped pids s s' \<longleftrightarrow>
     setter_pid s' = setter_pid s \<and>
     running s' = (running s \<and> \<not> tlsdate_hit pids s) \<and>
     tlsdate_pid s' = (if tlsdate_hit pids s then 0 else tlsdate_pid s) \<and>
     (Loopbreak \<in> set (outs s') \<longleftrightarrow> Loopbreak \<in> set (outs s) \<or> setter_pid s \<in> pids)"

lemma reaped_none: "reaped {} s s"
  by (simp add: reaped_def tlsdate_hit_def)

lemma reaped_trans:
  assumes "reaped A s s1" and "reaped B s1 s2" and "0 \<notin> B"
  shows "reaped (A \<union> B) s s2"
proof (cases "tlsdate_hit A s")
  case True
  with assms have "\<not> tlsdate_hit B s1" "tlsdate_hit (A \<union> B) s"
    by (simp_all add: reaped_def tlsdate_hit_def)
  with True assms(1,2) show ?thesis by (simp add: reaped_def)
next
  case False
  with assms have "tlsdate_hit (A \<union> B) s = tlsdate_hit B s1"
    by (auto simp: reaped_def tlsdate_hit_def)
  with False assms(1,2) show ?thesis by (simp add: reaped_def)
qed

lemma handle_child_death_tlsdate:
  assumes "si_pid info \<noteq> 0" and "si_pid info \<noteq> setter_pid s" and "si_pid info = tlsdate_pid s"
  shows "handle_child_death L (Wait_Ok info) s =
     bind_res (event_del_id L E_TLSDATE_TIMEOUT s) (\<lambda>s1.
       Inr (True, if si_status info = 0 then s1\<lparr>running := False, tlsdate_pid := 0\<rparr>
                  else retry_tlsdate L (s1\<lparr>running := False, tlsdate_pid := 0\<rparr>)))"
  using assms by (auto simp: handle_child_death_def Let_def intro!: arg_cong [where f = "bind_res _"])

lemma handle_child_death_reaped:
  assumes "handle_child_death L (Wait_Ok info) s = Inr (d, s1)" and "si_pid info \<noteq> 0"
  shows "reaped {si_pid info} s s1"
proof -
  consider "si_pid info = setter_pid s" | "si_pid info \<noteq> setter_pid s" "si_pid info \<noteq> tlsdate_pid s"
    | "si_pid info \<noteq> setter_pid s" "si_pid info = tlsdate_pid s"
    by blast
  then show ?thesis
  proof cases
    case 1
    then have "s1 = emit Loopbreak (report_setter_error info s)"
      using assms by (simp add: handle_child_death_def)
    with 1 show ?thesis by (simp add: reaped_def tlsdate_hit_def report_setter_error_def)
  next
    case 2
    then have "s1 = s" using assms by (simp add: handle_child_death_def)
    with 2 show ?thesis by (simp add: reaped_def tlsdate_hit_def)
  next
    case 3
    then obtain s2 where del: "event_del_id L E_TLSDATE_TIMEOUT s = Inr s2"
      and s1: "s1 = (if si_status info = 0 then s2\<lparr>running := False, tlsdate_pid := 0\<rparr>
                     else retry_tlsdate L (s2\<lparr>running := False, tlsdate_pid := 0\<rparr>))"
      using assms handle_child_death_tlsdate [OF assms(2), of s L]
      by (cases "event_del_id L E_TLSDATE_TIMEOUT s") auto
    from del have "setter_pid s2 = setter_pid s" "outs s2 = outs s" by auto
    moreover have "tlsdate_hit {si_pid info} s" using 3 by (simp add: tlsdate_hit_def)
    ultimately show ?thesis using 3 by (simp add: s1 reaped_def)
  qed
qed

lemma reap_child_empty: "reap_child L [] s = Inr (False, [], s)"
  by (simp add: reap_child_def next_wait_def no_child_def handle_child_death_def handle_child_stop_def)

lemma sigchld_loop_reaped:
  assumes "sigchld_loop L (map (\<lambda>i. (Wait_Ok i, 0)) ds) s = Inr s'"
    and "0 \<notin> si_pid ` set ds"
  shows "reaped (si_pid ` set ds) s s'"
  using assms
proof (induction ds arbitrary: s)
  case Nil
  then show ?case by (simp add: sigchld_loop.simps [of L "[]"] reap_child_empty reaped_none)
next
  case (Cons i ds)
  show ?case
  proof (cases "handle_child_death L (Wait_Ok i) s")
    case (Inl e)
    then show ?thesis
      using Cons.prems by (simp add: sigchld_loop.simps [of L "_ # _"] reap_child_def next_wait_def)
  next
    case (Inr p)
    then obtain s1 where h: "handle_child_death L (Wait_Ok i) s = Inr (True, s1)"
      using Cons.prems(2) handle_child_death_handles [of L i s "fst p" "snd p"] by (cases p) auto
    have "sigchld_loop L (map (\<lambda>i. (Wait_Ok i, 0)) ds) s1 = Inr s'"
      using Cons.prems by (simp add: sigchld_loop.simps [of L "_ # _"] reap_child_death [OF h])
    with Cons have "reaped (si_pid ` set ds) s1 s'" by simp
    moreover have "reaped {si_pid i} s s1"
      using handle_child_death_reaped [OF h] Cons.prems by simp
    ultimately have "reaped ({si_pid i} \<union> si_pid ` set ds) s s'"
      using Cons.prems by (intro reaped_trans) auto
    then show ?thesis by simp
  qed
qed

lemma action_sigchld_is_loop:
  assumes "ds \<noteq> []" and "0 \<notin> si_pid ` set ds"
  shows "action_sigchld L (map (\<lambda>i. (Wait_Ok i, 0)) ds) s = sigchld_loop L (map (\<lambda>i. (Wait_Ok i, 0)) ds) s"
proof -
  obtain i ds' where ds: "ds = i # ds'" using assms(1) by (cases ds) auto
  show ?thesis
  proof (cases "handle_child_death L (Wait_Ok i) s")
    case (Inl e)
    then show ?thesis
      by (simp add: ds action_sigchld_def sigchld_loop.simps [of L "_ # _"] reap_child_def next_wait_def)
  next
    case (Inr p)
    then have "handle_child_death L (Wait_Ok i) s = Inr (True, snd p)"
      using assms(2) handle_child_death_handles [of L i s "fst p" "snd p"] by (cases p) (auto simp: ds)
    then show ?thesis
      by (simp add: ds action_sigchld_def sigchld_loop.simps [of L "_ # _"] reap_child_death)
  qed
qed

section \<open>Properties\<close>

text \<open>
  Jitter stays in its window: for a positive jitter and any random number but the most
  negative 32-bit integer, the delay lies within the jitter of the base, the upper end excluded.
\<close>

theorem add_jitter_bounds:
  assumes "0 < jitter" and "sint n \<noteq> - (2 ^ 31)"
  shows "\<exists>r. add_jitter (Some n) b jitter = Inr r \<and> b - jitter \<le> r \<and> r < b + jitter"
proof -
  obtain r where "add_jitter (Some n) b jitter = Inr r"
    using assms by (auto simp: add_jitter_def)
  with add_jitter_range [OF this assms] show ?thesis by blast
qed

theorem add_jitter_bounds_witness:
  "\<exists>r. add_jitter (Some 7) 30 30 = Inr r \<and> 30 - 30 \<le> r \<and> r < 30 + 30"
  using add_jitter_bounds [of 30 7 30] by simp

text \<open>
  The exception is real: on that one random number the delay before the next run of tlsdate
  after a clock jump is negative, which \<^verbatim>\<open>trigger_event\<close> takes as no timeout at all, so the
  run is never due.
\<close>

theorem add_jitter_int_min:
  "add_jitter (Some (2 ^ 31)) 30 30 = Inr (-8) \<and>
   (\<forall>s. events s E_TLSDATE = Some h \<longrightarrow>
      \<not> event_pending table_lib h {EV_TIMEOUT} (base (trigger_event table_lib E_TLSDATE (-8) s)))"
proof -
  have "sint (2 ^ 31 :: uint32) = - (2 ^ 31)"
    by (simp add: sint_uint)
  then show ?thesis
    by (auto simp: add_jitter_def abs32_def smod_int_alt_def signed_divide_int_def trigger_event_def table_lib_def Let_def)
qed

theorem add_jitter_int_min_witness:
  "\<not> event_pending table_lib 1 {EV_TIMEOUT} (base (trigger_event table_lib E_TLSDATE (-8) sample_state))"
  using add_jitter_int_min [of 1] by (simp add: sample_state_def sample_handles_def)

text \<open>
  C26. What a wake-up does that leaves the daemon without network time. If no attempt is counted, the
  tlsdate event is pending with a timeout afterwards, whether or not a proxy resolver is installed,
  unless the random number for the jitter is the most negative integer (\<open>add_jitter_int_min\<close>). If attempts
  are counted, the wake-up takes one off and schedules nothing. libevent can add events.
\<close>

theorem kickoff_schedules_tlsdate:
  assumes "evlib_ok L" and "event_add_succeeds L"
    and "events s E_TLSDATE = Some h" and "\<forall>h2. events s E_RESOLVER = Some h2 \<longrightarrow> h2 \<noteq> h"
    and "action_kickoff_time_sync L I s = Inr s'" and "last_sync_type s' \<noteq> SYNC_TYPE_NET"
  shows "(tries s \<le> 0 \<and> in_rand I \<noteq> Some (2 ^ 31) \<longrightarrow> event_pending L h {EV_TIMEOUT} (base s')) \<and>
     (0 < tries s \<longrightarrow> tries s' = tries s - 1 \<and> base s' = base s)"
proof (cases "0 < tries s")
  case True
  then show ?thesis
    using assms(5,6) by (auto simp: action_kickoff_time_sync_def detect_desync_def invalidate_time_def split: if_splits)
next
  case False
  obtain j s1 where d: "detect_desync I s = Inr (j, s1)"
    using assms(5) by (auto simp: action_kickoff_time_sync_def)
  have f: "events s1 = events s" "tries s1 = tries s"
    using d by (auto simp: detect_desync_def invalidate_time_def split: if_splits)
  have "event_pending L h {EV_TIMEOUT} (base s')" if rnd: "in_rand I \<noteq> Some (2 ^ 31)"
  proof -
    have "sint n \<noteq> - (2 ^ 31)" if "in_rand I = Some n" for n :: uint32
    proof -
      have "n \<noteq> 2 ^ 31" using rnd that by auto
      moreover have "sint (2 ^ 31 :: uint32) = - (2 ^ 31)" by (simp add: sint_uint)
      ultimately show ?thesis by (metis signed_word_eqI)
    qed
    then have "0 \<le> j"
      using d add_jitter_range [of _ 30 30 j]
      by (cases "in_rand I") (auto simp: detect_desync_def add_jitter_def split: if_splits)
    moreover from this have "event_pending L h {EV_TIMEOUT} (base (trigger_event L E_TLSDATE (j + RESOLVER_TIMEOUT) s1))"
      using assms(1-3) f by (intro trigger_event_pending) (simp_all add: RESOLVER_TIMEOUT_def)
    ultimately show ?thesis
      using assms(5,6) False d f assms(1-4)
      by (auto simp: action_kickoff_time_sync_def trigger_event_pending trigger_event_other split: if_splits)
  qed
  with False show ?thesis by simp
qed

theorem kickoff_schedules_tlsdate_witness:
  "\<exists>s'. action_kickoff_time_sync table_lib \<lparr>in_real = Some 5, in_mono = Some 1, in_now = 5, in_rand = None, in_bus = (True, True, True)\<rparr>
          sample_state = Inr s' \<and> event_pending table_lib 1 {EV_TIMEOUT} (base s')"
proof -
  let ?I = "\<lparr>in_real = Some 5, in_mono = Some 1, in_now = 5, in_rand = None, in_bus = (True, True, True)\<rparr> :: inputs"
  obtain s' where s': "action_kickoff_time_sync table_lib ?I sample_state = Inr s'" "last_sync_type s' = SYNC_TYPE_RTC"
    by (simp add: action_kickoff_time_sync_def detect_desync_def check_continuity_def sample_state_def
        sample_handles_def zero_state_def table_lib_def)
  then show ?thesis
    using kickoff_schedules_tlsdate [OF table_lib_ok table_lib_adds, of sample_state 1 ?I s']
    by (simp add: sample_state_def sample_handles_def zero_state_def)
qed

text \<open>
  Shutdown is announced to the time setter: when the daemon is exiting and the pipe takes the
  messages, saving sends the time and then the message 0 that asks the setter to exit; outside of
  shutdown exactly one message goes out. The time is sent negated unless it came from the network.
\<close>

theorem sync_and_save_messages:
  assumes "ws 0 = Wrote 8" and "ws (Suc 0) = Wrote 8" and "last_time s \<noteq> 0"
  shows "\<exists>s'. action_sync_and_save False ws s = Inr s' \<and>
     outs s' = outs s @ Pipe_Write (if last_sync_type s = SYNC_TYPE_NET then last_time s else - last_time s)
                 # (if exitting s then [Pipe_Write 0] else [])"
proof -
  let ?t = "if last_sync_type s \<noteq> SYNC_TYPE_NET then - last_time s else last_time s"
  have "action_sync_and_save False (\<lambda>k. ws (Suc k)) ((emit (Pipe_Write ?t) s)\<lparr>last_time := 0\<rparr>) =
      Inr (emit (Pipe_Write 0) ((emit (Pipe_Write ?t) s)\<lparr>last_time := 0\<rparr>))"
    using assms(2) by (intro sync_and_save_shutdown) simp_all
  then show ?thesis
    using assms by (subst action_sync_and_save.simps) (auto simp: Let_def)
qed

theorem sync_and_save_messages_witness:
  "\<exists>s'. action_sync_and_save False (\<lambda>_. Wrote 8) (sample_state\<lparr>exitting := True, last_time := 5\<rparr>) = Inr s' \<and>
     outs s' = [Pipe_Write (-5), Pipe_Write 0]"
  using sync_and_save_messages [of "\<lambda>_. Wrote 8" "sample_state\<lparr>exitting := True, last_time := 5\<rparr>"]
  by (simp add: sample_state_def zero_state_def)

text \<open>
  C27. A failed run of tlsdate is retried: after its death with a non-zero status the child is
  forgotten, the backoff is doubled below ten minutes and kept above, and the tlsdate event is
  pending with a timeout.
\<close>

theorem handle_child_death_retries:
  assumes "evlib_ok L" and "event_add_succeeds L"
    and "events s E_TLSDATE = Some h" and "events s E_TLSDATE_TIMEOUT = Some ht"
    and "\<forall>h2. events s E_RESOLVER = Some h2 \<longrightarrow> h2 \<noteq> h"
    and "si_pid info = tlsdate_pid s" and "tlsdate_pid s \<noteq> 0" and "tlsdate_pid s \<noteq> setter_pid s"
    and "si_status info \<noteq> 0" and "backoff s \<le> 2 * MAX_SANE_BACKOFF"
  shows "\<exists>s'. handle_child_death L (Wait_Ok info) s = Inr (True, s') \<and> \<not> running s' \<and> tlsdate_pid s' = 0 \<and>
     unat (backoff s') = (if unat (backoff s) < 600 then 2 * unat (backoff s) else unat (backoff s)) \<and>
     event_pending L h {EV_TIMEOUT} (base s')"
proof -
  let ?s = "s\<lparr>base := event_del L ht (base s), running := False, tlsdate_pid := 0\<rparr>"
  let ?b = "if backoff s < MAX_SANE_BACKOFF then backoff s * 2 else backoff s"
  have step: "handle_child_death L (Wait_Ok info) s = Inr (True, retry_tlsdate L ?s)"
    using assms by (simp add: handle_child_death_def event_del_id_def Let_def)
  have le: "unat (backoff s) \<le> 1200"
    using assms(10) by (simp add: MAX_SANE_BACKOFF_def word_le_nat_alt)
  have b: "unat ?b = (if unat (backoff s) < 600 then 2 * unat (backoff s) else unat (backoff s))"
    by (simp add: MAX_SANE_BACKOFF_def word_less_nat_alt unat_word_ariths)
  have "0 \<le> sint ?b" and "0 \<le> sint (word_of_int RESOLVER_TIMEOUT + ?b)"
  proof -
    have "unat ?b \<le> 1200" using b le by (simp split: if_splits)
    then have "unat ?b < 2 ^ 31" and "unat (30 + ?b) < 2 ^ 31"
      by (simp_all add: unat_word_ariths del: if_split)
    then show "0 \<le> sint ?b" and "0 \<le> sint (word_of_int RESOLVER_TIMEOUT + ?b)"
      by (simp_all add: sint_small RESOLVER_TIMEOUT_def del: if_split)
  qed
  then have "event_pending L h {EV_TIMEOUT} (base (retry_tlsdate L ?s))"
    using assms(1-5)
    by (auto simp: retry_tlsdate_def Let_def trigger_event_pending trigger_event_other)
  moreover have "backoff (retry_tlsdate L ?s) = ?b" by (simp add: retry_tlsdate_backoff)
  ultimately show ?thesis using step b by (simp del: if_split)
qed

theorem handle_child_death_retries_witness:
  "\<exists>s'. handle_child_death table_lib (Wait_Ok \<lparr>si_pid = 77, si_status = 9, si_code = 2\<rparr>)
           (sample_state\<lparr>tlsdate_pid := 77, running := True\<rparr>) = Inr (True, s') \<and>
        unat (backoff s') = 20 \<and> event_pending table_lib 1 {EV_TIMEOUT} (base s')"
  using handle_child_death_retries [OF table_lib_ok table_lib_adds,
      of "sample_state\<lparr>tlsdate_pid := 77, running := True\<rparr>" 1 3 "\<lparr>si_pid = 77, si_status = 9, si_code = 2\<rparr>"]
  by (auto simp: sample_state_def sample_handles_def zero_state_def MAX_SANE_BACKOFF_def)

text \<open>
  C28. No death is lost: however many children died before the signal was handled, in any order,
  one call of the handler books every one. If tlsdate is among them it is no longer running, else
  its state is untouched; if the time setter is among them the event loop is told to stop, else not.
\<close>

theorem action_sigchld_reaps_all:
  assumes "action_sigchld L (map (\<lambda>i. (Wait_Ok i, 0)) ds) s = Inr s'"
    and "ds \<noteq> []" and "0 \<notin> si_pid ` set ds" and "Loopbreak \<notin> set (outs s)"
    and "tlsdate_pid s \<noteq> setter_pid s"
  shows "(if tlsdate_pid s \<in> si_pid ` set ds then \<not> running s' \<and> tlsdate_pid s' = 0
          else running s' = running s \<and> tlsdate_pid s' = tlsdate_pid s) \<and>
         (Loopbreak \<in> set (outs s') \<longleftrightarrow> setter_pid s \<in> si_pid ` set ds)"
proof -
  have "reaped (si_pid ` set ds) s s'"
    using assms by (intro sigchld_loop_reaped) (simp_all add: action_sigchld_is_loop)
  then show ?thesis using assms(4,5) by (simp add: reaped_def tlsdate_hit_def)
qed

theorem action_sigchld_reaps_all_witness:
  "\<exists>s'. action_sigchld table_lib
           [(Wait_Ok \<lparr>si_pid = 5, si_status = 0, si_code = 1\<rparr>, 0), (Wait_Ok \<lparr>si_pid = 77, si_status = 0, si_code = 1\<rparr>, 0)]
           (sample_state\<lparr>tlsdate_pid := 77, running := True, setter_pid := 5\<rparr>) = Inr s' \<and>
        \<not> running s' \<and> Loopbreak \<in> set (outs s')"
proof -
  let ?ds = "[\<lparr>si_pid = 5, si_status = 0, si_code = 1\<rparr>, \<lparr>si_pid = 77, si_status = 0, si_code = 1\<rparr>]"
  let ?s = "sample_state\<lparr>tlsdate_pid := 77, running := True, setter_pid := 5\<rparr>"
  obtain s' where s': "action_sigchld table_lib (map (\<lambda>i. (Wait_Ok i, 0)) ?ds) ?s = Inr s'"
    unfolding action_sigchld_def
    by (simp add: sigchld_loop.simps reap_child_def next_wait_def handle_child_death_def
        handle_child_stop_def no_child_def report_setter_error_def event_del_id_def ev_get_def Let_def
        sample_state_def sample_handles_def zero_state_def emit_def)
  then show ?thesis
    using action_sigchld_reaps_all [of table_lib ?ds ?s s']
    by (simp add: sample_state_def zero_state_def)
qed

end
