(* ===== verification/Dbus.thy ===== *)
theory Dbus
  imports Events
begin

text \<open>
  The D-Bus service of the daemon, \<^verbatim>\<open>src/dbus.c\<close>: which watch flags libevent is asked for, the
  three methods and their dispatcher. A message is the data that the D-Bus library hands to the
  service: its type, interface and member, and its arguments. Whether each library call that
  builds or sends a reply succeeds is an explicit input.
\<close>

section \<open>Messages\<close>

datatype dbus_arg =
    D_Int64 int
  | D_String string
  | D_Path string
  | D_Variant dbus_arg
  | D_Other

datatype dbus_type = METHOD_CALL | METHOD_RETURN | ERROR | SIGNAL

record dbus_msg =
  dm_type :: dbus_type
  dm_interface :: "string option"
  dm_member :: "string option"
  dm_path :: "string option"
  dm_error :: "string option"
  dm_reply_serial :: uint32
  dm_args :: "dbus_arg list"

datatype dbus_result = HANDLED | NOT_YET_HANDLED

definition SET_TIME_OK :: int where [simp]: "SET_TIME_OK = 0"
definition SET_TIME_INVALID :: int where [simp]: "SET_TIME_INVALID = 1"
definition SET_TIME_NOT_ALLOWED :: int where [simp]: "SET_TIME_NOT_ALLOWED = 2"
definition SET_TIME_BAD_CALL :: int where [simp]: "SET_TIME_BAD_CALL = 3"

definition kServiceInterface :: string where "kServiceInterface = ''org.torproject.tlsdate''"
definition kServiceSetTime :: string where "kServiceSetTime = ''SetTime''"
definition kServiceCanSetTime :: string where "kServiceCanSetTime = ''CanSetTime''"
definition kServiceLastSyncInfo :: string where "kServiceLastSyncInfo = ''LastSyncInfo''"

section \<open>Watch flags\<close>

datatype watch_flag = DBUS_WATCH_READABLE | DBUS_WATCH_WRITABLE | DBUS_WATCH_ERROR | DBUS_WATCH_HANGUP

definition dbus_to_event :: "watch_flag set \<Rightarrow> evflag set" where
  "dbus_to_event flags =
     (if DBUS_WATCH_READABLE \<in> flags then {EV_READ} else {}) \<union>
     (if DBUS_WATCH_WRITABLE \<in> flags then {EV_WRITE} else {})"

definition event_to_dbus :: "evflag set \<Rightarrow> watch_flag set" where
  "event_to_dbus evs =
     (if EV_READ \<in> evs then {DBUS_WATCH_READABLE} else {}) \<union>
     (if EV_WRITE \<in> evs then {DBUS_WATCH_WRITABLE} else {})"

section \<open>Replies\<close>

text \<open>Which library calls succeed: allocating the reply, setting its serial, appending each
  argument, sending.\<close>

record reply_env =
  re_new :: bool
  re_serial :: bool
  re_append :: "bool list"
  re_send :: bool

definition reply_ok :: "nat \<Rightarrow> reply_env \<Rightarrow> bool" where
  "reply_ok n env \<longleftrightarrow> re_new env \<and> re_serial env \<and> (\<forall>i < n. i < length (re_append env) \<and> re_append env ! i) \<and> re_send env"

definition send_reply :: "nat \<Rightarrow> reply_env \<Rightarrow> effect \<Rightarrow> 'ev state \<Rightarrow> dbus_result \<times> 'ev state" where
  "send_reply n env e s = (if reply_ok n env then (HANDLED, emit e s) else (NOT_YET_HANDLED, s))"

definition send_time_reply :: "reply_env \<Rightarrow> int \<Rightarrow> 'ev state \<Rightarrow> dbus_result \<times> 'ev state" where
  "send_time_reply env code s = send_reply 1 env (Reply_Time code) s"

definition send_can_reply :: "reply_env \<Rightarrow> bool \<Rightarrow> 'ev state \<Rightarrow> dbus_result \<times> 'ev state" where
  "send_can_reply env allowed s = send_reply 1 env (Reply_Can allowed) s"

section \<open>Methods\<close>

definition can_set_time :: "inputs \<Rightarrow> 'ev state \<Rightarrow> bool \<times> 'ev state" where
  "can_set_time I s0 =
     (let s = (if fst (check_continuity (in_real I) (in_mono I) (clock_delta s0)) > 0
               then invalidate_time (in_now I) (s0\<lparr>clock_delta := 0\<rparr>) else s0)
      in (clock_delta s = 0, s))"

definition handle_set_time :: "build \<Rightarrow> 'ev evlib \<Rightarrow> inputs \<Rightarrow> reply_env \<Rightarrow> dbus_msg \<Rightarrow> 'ev state \<Rightarrow>
    (dbus_result \<times> 'ev state) result" where
  "handle_set_time B L I env m s =
     (case dm_args m of
        D_Int64 requested_time # _ \<Rightarrow>
          (if \<not> is_sane_time B requested_time then Inr (send_time_reply env SET_TIME_INVALID s)
           else let (can, s1) = can_set_time I s
                in if \<not> can then Inr (send_time_reply env SET_TIME_NOT_ALLOWED s1)
                   else bind_res
                     (action_kickoff_time_sync L I
                        (trigger_event L E_SAVE (-1) (s1\<lparr>last_time := requested_time, last_sync_type := SYNC_TYPE_PLATFORM\<rparr>)))
                     (\<lambda>s2. Inr (send_time_reply env SET_TIME_OK s2)))
      | _ \<Rightarrow> Inr (send_time_reply env SET_TIME_BAD_CALL s))"

definition handle_can_set_time :: "inputs \<Rightarrow> reply_env \<Rightarrow> 'ev state \<Rightarrow> dbus_result \<times> 'ev state" where
  "handle_can_set_time I env s = (let (can, s1) = can_set_time I s in send_can_reply env can s1)"

definition handle_last_sync_info :: "reply_env \<Rightarrow> 'ev state \<Rightarrow> dbus_result \<times> 'ev state" where
  "handle_last_sync_info env s =
     send_reply 3 env (Reply_Info (clock_delta s \<noteq> 0) (sync_type_str (last_sync_type s)) (last_time s)) s"

definition service_dispatch :: "build \<Rightarrow> 'ev evlib \<Rightarrow> inputs \<Rightarrow> reply_env \<Rightarrow> dbus_msg \<Rightarrow> 'ev state \<Rightarrow>
    (dbus_result \<times> 'ev state) result" where
  "service_dispatch B L I env m s =
     (if dm_type m \<noteq> METHOD_CALL then Inr (NOT_YET_HANDLED, s)
      else (case (dm_interface m, dm_member m) of
              (Some interface, Some method) \<Rightarrow>
                (if interface \<noteq> kServiceInterface then Inr (HANDLED, s)
                 else if method = kServiceSetTime then handle_set_time B L I env m s
                 else if method = kServiceCanSetTime then Inr (handle_can_set_time I env s)
                 else if method = kServiceLastSyncInfo then Inr (handle_last_sync_info env s)
                 else Inr (NOT_YET_HANDLED, s))
            | _ \<Rightarrow> Inr (HANDLED, s)))"

section \<open>Facts\<close>

lemma send_reply_state: "snd (send_reply n env e s) = (if reply_ok n env then emit e s else s)"
  by (simp add: send_reply_def)

lemmas reply_defs = send_time_reply_def send_can_reply_def handle_last_sync_info_def send_reply_def

text \<open>The result of SetTime on every branch.\<close>

lemma handle_set_time_exact:
  assumes "handle_set_time B L I env m s = Inr (r, s')"
    and "old = (last_time s, last_sync_type s, clock_delta s)"
    and "jump \<longleftrightarrow> fst (check_continuity (in_real I) (in_mono I) (clock_delta s)) > 0"
    and "(new, code) =
      (case dm_args m of
         D_Int64 t # _ \<Rightarrow> if \<not> is_sane_time B t then (old, SET_TIME_INVALID)
                        else if clock_delta s = 0 \<or> jump then ((t, SYNC_TYPE_PLATFORM, 0), SET_TIME_OK)
                        else (old, SET_TIME_NOT_ALLOWED)
       | _ \<Rightarrow> (old, SET_TIME_BAD_CALL))"
  shows "(last_time s', last_sync_type s', clock_delta s') = new \<and>
     (if reply_ok 1 env then r = HANDLED \<and> last (outs s') = Reply_Time code else r = NOT_YET_HANDLED)"
proof (cases "\<exists>t rest. dm_args m = D_Int64 t # rest \<and> is_sane_time B t")
  case False
  then show ?thesis
    using assms(1,2,4) by (auto simp: handle_set_time_def reply_defs split: list.splits dbus_arg.splits if_splits)
next
  case True
  then obtain t rest where t: "dm_args m = D_Int64 t # rest" "is_sane_time B t" by blast
  show ?thesis
  proof (cases "clock_delta s = 0 \<or> jump")
    case False
    then have "can_set_time I s = (False, s)" using assms(3) by (simp add: can_set_time_def)
    then show ?thesis using assms(1,2,4) t False by (auto simp: handle_set_time_def reply_defs split: if_splits)
  next
    case allowed: True
    then obtain s1 where s1: "can_set_time I s = (True, s1)" "clock_delta s1 = 0"
      using assms(3) by (cases jump) (auto simp: can_set_time_def invalidate_time_def)
    then obtain s2 where k: "action_kickoff_time_sync L I
        (trigger_event L E_SAVE (-1) (s1\<lparr>last_time := t, last_sync_type := SYNC_TYPE_PLATFORM\<rparr>)) = Inr s2"
      and r: "send_time_reply env SET_TIME_OK s2 = (r, s')"
      using assms(1) t by (auto simp: handle_set_time_def)
    have "last_time s2 = t \<and> last_sync_type s2 = SYNC_TYPE_PLATFORM \<and> clock_delta s2 = 0"
      using k s1(2) by (auto simp: action_kickoff_time_sync_def detect_desync_def check_continuity_jump split: if_splits)
    then show ?thesis using assms(4) allowed t r by (auto simp: reply_defs split: if_splits)
  qed
qed

section \<open>Properties\<close>

text \<open>
  C31. What a bus client can do to the pending time, exactly. SetTime replaces it, and marks it as a
  platform time, if and only if the requested time is sane and either the daemon has no clock delta
  or the clock has jumped since it was taken; the answer is then OK. Otherwise time, source and clock
  delta stay as they are and the answer says why. So a network time is protected once the setter
  has reported it, which is when the clock delta is taken, and until the clock jumps. It is not
  before that report, nor when the clocks could not be read for the clock delta.
\<close>

theorem handle_set_time_guarded:
  assumes "handle_set_time B L I env m s = Inr (r, s')"
    and "old = (last_time s, last_sync_type s, clock_delta s)"
    and "jump \<longleftrightarrow> fst (check_continuity (in_real I) (in_mono I) (clock_delta s)) > 0"
    and "(new, code) =
      (case dm_args m of
         D_Int64 t # _ \<Rightarrow> if \<not> is_sane_time B t then (old, SET_TIME_INVALID)
                        else if clock_delta s = 0 \<or> jump then ((t, SYNC_TYPE_PLATFORM, 0), SET_TIME_OK)
                        else (old, SET_TIME_NOT_ALLOWED)
       | _ \<Rightarrow> (old, SET_TIME_BAD_CALL))"
  shows "(last_time s', last_sync_type s', clock_delta s') = new \<and>
     (if reply_ok 1 env then r = HANDLED \<and> last (outs s') = Reply_Time code else r = NOT_YET_HANDLED)"
  by (rule handle_set_time_exact [OF assms])

text \<open>
  The gap in time: until the setter has answered, the clock delta of a daemon that was never
  synchronised is 0, and a client replaces the network time that is on its way to the setter.
\<close>

theorem set_time_replaces_network_time:
  assumes "last_sync_type s = SYNC_TYPE_NET" and "clock_delta s = 0" and "is_sane_time B t"
    and "dm_args m = D_Int64 t # rest" and "handle_set_time B L I env m s = Inr (r, s')"
  shows "last_time s' = t \<and> last_sync_type s' = SYNC_TYPE_PLATFORM"
  using handle_set_time_exact [OF assms(5) refl refl, of "(t, SYNC_TYPE_PLATFORM, 0)" SET_TIME_OK] assms(2-4) by simp

theorem handle_set_time_guarded_witness:
  "\<exists>r s'. handle_set_time sample_build table_lib \<lparr>in_real = Some 5, in_mono = Some 1, in_now = 5, in_rand = None, in_bus = (True, True, True)\<rparr>
            \<lparr>re_new = True, re_serial = True, re_append = [True], re_send = True\<rparr>
            \<lparr>dm_type = METHOD_CALL, dm_interface = None, dm_member = None, dm_path = None, dm_error = None,
              dm_reply_serial = 0, dm_args = [D_Int64 1400000000]\<rparr> (sample_state\<lparr>clock_delta := 4, last_time := 7\<rparr>) = Inr (r, s') \<and>
     last_time s' = 7 \<and> clock_delta s' = 4 \<and> r = HANDLED \<and> last (outs s') = Reply_Time SET_TIME_NOT_ALLOWED"
proof -
  let ?s = "sample_state\<lparr>clock_delta := 4, last_time := 7\<rparr>"
  let ?I = "\<lparr>in_real = Some 5, in_mono = Some 1, in_now = 5, in_rand = None, in_bus = (True, True, True)\<rparr> :: inputs"
  let ?env = "\<lparr>re_new = True, re_serial = True, re_append = [True], re_send = True\<rparr>"
  let ?m = "\<lparr>dm_type = METHOD_CALL, dm_interface = None, dm_member = None, dm_path = None, dm_error = None,
              dm_reply_serial = 0, dm_args = [D_Int64 1400000000]\<rparr>"
  have sane: "is_sane_time sample_build 1400000000" by (simp add: is_sane_time_def sample_build_def limit_defs)
  have jump: "\<not> fst (check_continuity (in_real ?I) (in_mono ?I) (clock_delta ?s)) > 0"
    by (simp add: check_continuity_def CONTINUITY_INTERVAL_def)
  obtain r s' where h: "handle_set_time sample_build table_lib ?I ?env ?m ?s = Inr (r, s')"
    using sane jump by (cases "handle_set_time sample_build table_lib ?I ?env ?m ?s") (simp_all add: handle_set_time_def can_set_time_def split_paired_all)
  show ?thesis
    using h sane jump handle_set_time_guarded [OF h refl refl, of "(7, last_sync_type ?s, 4)" SET_TIME_NOT_ALLOWED] by (simp add: reply_ok_def)
qed

end
