(* ===== verification/Cros.thy ===== *)
theory Cros
  imports Dbus
begin

text \<open>
  The Chromium OS platform, \<^verbatim>\<open>src/platform-cros.c\<close>: proxy resolution over D-Bus and the wake-ups
  that come from it. \<^verbatim>\<open>platform_init_cros\<close> lets the proxy of a source, and the default proxy, point at
  the buffer \<^verbatim>\<open>dynamic_proxy\<close> of the state; the model keeps which ones do in \<open>platform_state\<close> and
  writes to the buffer through \<open>write_dynamic_proxy\<close>, which updates every alias.
\<close>

section \<open>Proxy strings\<close>

definition MAX_PROXY_URL :: nat where "MAX_PROXY_URL = 255 + 9 + 6 + 1"

text \<open>The loop of \<^verbatim>\<open>get_valid_hostport\<close> after the first character; \<open>host\<close> turns false at the colon.\<close>

fun hostport_scan :: "bool \<Rightarrow> nat \<Rightarrow> string \<Rightarrow> bool \<times> string" where
  "hostport_scan host len [] = (True, [])"
| "hostport_scan host 0 (c # cs) = (True, [])"
| "hostport_scan host (Suc len) (c # cs) =
     (if host then
        (if isalnum c \<or> c = CHR ''-'' \<or> c = CHR ''.''
         then (case hostport_scan True len cs of (ok, out) \<Rightarrow> (ok, c # out))
         else if c = CHR '':'' then (case hostport_scan False len cs of (ok, out) \<Rightarrow> (ok, c # out))
         else (False, []))
      else if isdigit c then (case hostport_scan False len cs of (ok, out) \<Rightarrow> (ok, c # out))
      else (False, []))"

definition get_valid_hostport :: "string \<Rightarrow> nat \<Rightarrow> bool \<times> string" where
  "get_valid_hostport hostport len =
     (case hostport of
        [] \<Rightarrow> (False, [])
      | c # cs \<Rightarrow> if \<not> isalnum c then (False, [])
                 else (case hostport_scan True len cs of (ok, out) \<Rightarrow> (ok, c # out)))"

text \<open>The number of bytes it writes to \<^verbatim>\<open>out\<close>, the terminating NUL included.\<close>

definition hostport_written :: "string \<Rightarrow> nat \<Rightarrow> nat" where
  "hostport_written hostport len = length (snd (get_valid_hostport hostport len)) + 1"

definition HOSTPORT_SIZE :: nat where "HOSTPORT_SIZE = 6 + 255 + 2"

definition canonicalize_pac :: "string \<Rightarrow> nat \<Rightarrow> string" where
  "canonicalize_pac pac_fmt len =
     (if len < 1 then ''''
      else if pac_fmt = ''DIRECT'' then ''''
      else if CHR '' '' \<notin> set pac_fmt then ''''
      else
        let type_len = length (takeWhile (\<lambda>c. c \<noteq> CHR '' '') pac_fmt);
            (ok, hostport) = get_valid_hostport (drop (type_len + 1) pac_fmt) HOSTPORT_SIZE;
            url = (if strneq pac_fmt ''PROXY'' type_len then ''http://'' @ hostport
                   else if strneq pac_fmt ''SOCKS'' type_len then ''socks4://'' @ hostport
                   else if strneq pac_fmt ''SOCKS5'' type_len then ''socks5://'' @ hostport
                   else if strneq pac_fmt ''HTTPS'' type_len then ''https://'' @ hostport
                   else '''')
        in if \<not> ok then '''' else if len \<le> length url then '''' else url)"

section \<open>State\<close>

record platform_state =
  resolve_msg :: "nat \<Rightarrow> bool"
  resolve_network_proxy_serial :: uint32
  default_is_dynamic :: bool

definition write_dynamic_proxy :: "platform_state \<Rightarrow> string \<Rightarrow> 'ev state \<Rightarrow> 'ev state" where
  "write_dynamic_proxy ctx p s =
     s\<lparr>dynamic_proxy := p,
       opts := (opts s)\<lparr>
         sources := map (\<lambda>src. if resolve_msg ctx (nat (src_id src)) then src\<lparr>src_proxy := Some p\<rparr> else src) (sources (opts s)),
         opt_proxy := (if default_is_dynamic ctx then Some p else opt_proxy (opts s))\<rparr>\<rparr>"

text \<open>The source that the next run will use: \<^verbatim>\<open>src\<close> of the handlers.\<close>

definition upcoming_source :: "'ev state \<Rightarrow> source result" where
  "upcoming_source s =
     (if sources (opts s) = [] then Inl Null_Deref
      else Inr (sources (opts s) ! next_source (cur_source (opts s)) (length (sources (opts s)))))"

definition source_url :: "source \<Rightarrow> string" where
  "source_url src = ''https://'' @ src_host src @ '':'' @ src_port src"

section \<open>Signal handlers\<close>

definition handle_service_change :: "'ev evlib \<Rightarrow> inputs \<Rightarrow> dbus_msg \<Rightarrow> 'ev state \<Rightarrow> 'ev state result" where
  "handle_service_change L I m s =
     (case dm_path m of
        None \<Rightarrow> Inr s
      | Some _ \<Rightarrow>
          (case dm_args m of
             D_String pname # D_Variant (D_String _) # _ \<Rightarrow>
               if pname \<noteq> ''ProxyConfig'' then Inr s else action_kickoff_time_sync L I s
           | _ \<Rightarrow> Inr s))"

definition handle_manager_change :: "'ev evlib \<Rightarrow> inputs \<Rightarrow> dbus_msg \<Rightarrow> 'ev state \<Rightarrow> 'ev state result" where
  "handle_manager_change L I m s =
     (case dm_args m of
        D_String pname # D_Variant (D_Path _) # _ \<Rightarrow>
          if pname \<noteq> ''DefaultService'' then Inr s else action_kickoff_time_sync L I s
      | _ \<Rightarrow> Inr s)"

definition handle_suspend_done :: "'ev evlib \<Rightarrow> inputs \<Rightarrow> 'ev state \<Rightarrow> 'ev state result" where
  "handle_suspend_done L I s = action_kickoff_time_sync L I s"

definition handle_proxy_change :: "'ev evlib \<Rightarrow> dbus_msg \<Rightarrow> platform_state \<Rightarrow> 'ev state \<Rightarrow> 'ev state result" where
  "handle_proxy_change L m ctx s =
     (if \<not> resolving s then Inr s
      else (case dm_args m of
          D_String pname # rest \<Rightarrow>
            bind_res (upcoming_source s) (\<lambda>src.
              if pname \<noteq> take (MAX_PROXY_URL - 1) (source_url src) then Inr s
              else (case rest of
                  D_String pval # _ \<Rightarrow>
                    Inr (trigger_event L E_TLSDATE 1
                           (write_dynamic_proxy ctx (canonicalize_pac pval MAX_PROXY_URL) (s\<lparr>resolving := False\<rparr>)))
                | _ \<Rightarrow> Inr s))
        | _ \<Rightarrow> Inr s))"

definition handle_dbus_change :: "'ev evlib \<Rightarrow> inputs \<Rightarrow> dbus_msg \<Rightarrow> 'ev state \<Rightarrow> 'ev state result" where
  "handle_dbus_change L I m s =
     (case dm_args m of
        D_String pname # _ \<Rightarrow>
          if pname \<noteq> ''org.chromium.LibCrosService'' then Inr s else action_kickoff_time_sync L I s
      | _ \<Rightarrow> Inr s)"

text \<open>\<open>sent\<close>: the serial number of the request, or \<open>None\<close> when sending fails, which leaves the
  serial as it was.\<close>

definition action_resolve_proxy :: "'ev evlib \<Rightarrow> uint32 option \<Rightarrow> platform_state \<Rightarrow> 'ev state \<Rightarrow>
    (platform_state \<times> 'ev state) result" where
  "action_resolve_proxy L sent ctx s =
     (if \<not> dbus s then Inl Null_Deref
      else if resolving s \<or> resolve_network_proxy_serial ctx \<noteq> 0 then Inr (ctx, s)
      else
        (let s1 = write_dynamic_proxy ctx '''' s
         in bind_res (upcoming_source s1) (\<lambda>src.
              if \<not> resolve_msg ctx (nat (src_id src)) then Inr (ctx, trigger_event L E_TLSDATE 1 s1)
              else let s2 = s1\<lparr>resolving := True\<rparr>
                   in case sent of
                        None \<Rightarrow> Inr (ctx, s2)
                      | Some serial \<Rightarrow>
                          Inr (ctx\<lparr>resolve_network_proxy_serial := serial\<rparr>, emit (Send_Resolve (nat (src_id src))) s2))))"

definition is_signal :: "dbus_msg \<Rightarrow> string \<Rightarrow> string \<Rightarrow> bool" where
  "is_signal m interface member \<longleftrightarrow>
     dm_type m = SIGNAL \<and> dm_interface m = Some interface \<and> dm_member m = Some member"

text \<open>\<open>self\<close> is the daemon's own process id; 2 is SIGINT.\<close>

definition dbus_filter :: "'ev evlib \<Rightarrow> inputs \<Rightarrow> pid_t \<Rightarrow> dbus_msg \<Rightarrow> platform_state \<Rightarrow> 'ev state \<Rightarrow>
    (dbus_result \<times> platform_state \<times> 'ev state) result" where
  "dbus_filter L I self m ctx s =
     (let handled = (\<lambda>r. bind_res r (\<lambda>s'. Inr (HANDLED, ctx, s')))
      in if is_signal m ''org.freedesktop.DBus.Local'' ''Disconnected'' then handled (Inr (emit (Kill self 2) s))
         else if dm_type m = METHOD_CALL then Inr (NOT_YET_HANDLED, ctx, s)
         else if is_signal m ''org.freedesktop.DBus'' ''NameAcquired'' then handled (Inr s)
         else if is_signal m ''org.chromium.flimflam.Service'' ''PropertyChanged'' then handled (handle_service_change L I m s)
         else if is_signal m ''org.chromium.flimflam.Manager'' ''PropertyChanged'' then handled (handle_manager_change L I m s)
         else if is_signal m ''org.torproject.tlsdate.Resolver'' ''ProxyChange'' then handled (handle_proxy_change L m ctx s)
         else if is_signal m ''org.freedesktop.DBus'' ''NameOwnerChanged'' then handled (handle_dbus_change L I m s)
         else if is_signal m ''org.chromium.PowerManager'' ''SuspendDone'' then handled (handle_suspend_done L I s)
         else if dm_type m = ERROR \<and> dm_error m = Some ''org.freedesktop.DBus.Error.ServiceUnknown'' then
           Inr (HANDLED, ctx\<lparr>resolve_network_proxy_serial := 0\<rparr>, trigger_event L E_TLSDATE 1 (s\<lparr>resolving := False\<rparr>))
         else if dm_type m = METHOD_RETURN then
           (if dm_reply_serial m = resolve_network_proxy_serial ctx
            then Inr (HANDLED, ctx\<lparr>resolve_network_proxy_serial := 0\<rparr>, s)
            else Inr (NOT_YET_HANDLED, ctx, s))
         else Inr (NOT_YET_HANDLED, ctx, s))"

section \<open>Initialisation\<close>

text \<open>Whether a request for a source exists; \<open>new_ok\<close>, \<open>append_ok\<close>: the library calls that build it.\<close>

definition new_resolver_message :: "bool \<Rightarrow> bool \<Rightarrow> source \<Rightarrow> bool result" where
  "new_resolver_message new_ok append_ok src =
     (if src_proxy src \<noteq> Some ''dynamic'' then Inr False
      else if \<not> new_ok then Inr False
      else if MAX_PROXY_URL \<le> length (source_url src) then Inl (Exit 1)
      else if \<not> append_ok then Inl (Exit 1)
      else Inr True)"

text \<open>The loop over the sources: the sources with their proxies redirected, and the table of requests.\<close>

fun init_sources :: "bool \<Rightarrow> bool \<Rightarrow> nat \<Rightarrow> (nat \<Rightarrow> bool) \<Rightarrow> source list \<Rightarrow> (source list \<times> (nat \<Rightarrow> bool)) result" where
  "init_sources new_ok append_ok n tab [] = Inr ([], tab)"
| "init_sources new_ok append_ok n tab (src # srcs) =
     (if int n \<le> src_id src then Inl (Exit 1)
      else bind_res (new_resolver_message new_ok append_ok src) (\<lambda>made.
        bind_res (init_sources new_ok append_ok n (tab(nat (src_id src) := made)) srcs) (\<lambda>(rest, tab').
          Inr ((if made then src\<lparr>src_proxy := Some ''''\<rparr> else src) # rest, tab'))))"

text \<open>
  A match rule of the bus. \<open>add_match\<close> writes it into a buffer of 1024 bytes and refuses one that
  does not fit; \<open>accepts\<close> says which rules libdbus takes.
\<close>

definition quoted :: "string \<Rightarrow> string" where
  "quoted x = [CHR 0x27] @ x @ [CHR 0x27]"

definition match_rule :: "string \<Rightarrow> string \<Rightarrow> string option \<Rightarrow> string" where
  "match_rule interface member arg0 =
     ''interface='' @ quoted interface @ '',member='' @ quoted member @
     (case arg0 of None \<Rightarrow> [] | Some a \<Rightarrow> '',arg0='' @ quoted a)"

definition add_match :: "(string \<Rightarrow> bool) \<Rightarrow> string \<Rightarrow> string \<Rightarrow> string option \<Rightarrow> int" where
  "add_match accepts interface member arg0 =
     (if length (match_rule interface member arg0) \<ge> 1024 then 1
      else if \<not> accepts (match_rule interface member arg0) then 1 else 0)"

definition watched_signals :: "(string \<times> string \<times> string option) list" where
  "watched_signals =
     [(''org.chromium.flimflam.Service'', ''PropertyChanged'', Some ''ProxyConfig''),
      (''org.chromium.flimflam.Manager'', ''PropertyChanged'', Some ''DefaultService''),
      (''org.torproject.tlsdate.Resolver'', ''ProxyChange'', None),
      (''org.freedesktop.DBus'', ''NameOwnerChanged'', Some ''org.chromium.LibCrosService''),
      (''org.chromium.PowerManager'', ''SuspendDone'', None)]"

record cros_env =
  ce_alloc :: bool
  ce_match :: "string \<Rightarrow> bool"
  ce_alloc_msgs :: bool
  ce_msg_new :: bool
  ce_msg_append :: bool
  ce_filter :: bool

definition platform_init_cros :: "'ev evlib \<Rightarrow> cros_env \<Rightarrow> 'ev state \<Rightarrow> (int \<times> platform_state option \<times> 'ev state) result" where
  "platform_init_cros L env s =
     (if \<not> dbus s then Inl Null_Deref
      else if \<not> ce_alloc env then Inr (-1, None, s)
      else if \<exists>(interface, member, arg0) \<in> set watched_signals. add_match (ce_match env) interface member arg0 \<noteq> 0
      then Inr (1, None, s)
      else if \<not> ce_alloc_msgs env then Inr (-1, None, s)
      else bind_res (init_sources (ce_msg_new env) (ce_msg_append env) (length (sources (opts s))) (\<lambda>_. False) (sources (opts s)))
        (\<lambda>(srcs, tab).
          let dyn = (opt_proxy (opts s) = Some ''dynamic'');
              s1 = s\<lparr>dynamic_proxy := '''',
                     opts := (opts s)\<lparr>sources := srcs, opt_proxy := (if dyn then Some '''' else opt_proxy (opts s))\<rparr>\<rparr>;
              ctx = \<lparr>resolve_msg = tab, resolve_network_proxy_serial = 0, default_is_dynamic = dyn\<rparr>
          in bind_res
               (if events s1 E_RESOLVER \<noteq> None then Inr s1
                else case install_event L E_RESOLVER (-1) {EV_TIMEOUT} CB_resolve_proxy PRI_NET s1 of
                       (False, _) \<Rightarrow> Inl (Exit 1)
                     | (True, s2) \<Rightarrow> Inr s2)
               (\<lambda>s2. Inr (if ce_filter env then 0 else 1, Some ctx, s2))))"

section \<open>Facts\<close>

text \<open>Each of the five rules fits its buffer, so that only the bus can refuse it.\<close>

lemma watched_signals_fit:
  "(interface, member, arg0) \<in> set watched_signals \<Longrightarrow>
     add_match accepts interface member arg0 = (if accepts (match_rule interface member arg0) then 0 else 1)"
  by (auto simp: watched_signals_def add_match_def match_rule_def quoted_def)

definition hostport_char :: "char \<Rightarrow> bool" where
  "hostport_char c \<longleftrightarrow> isalnum c \<or> c \<in> {CHR ''-'', CHR ''.'', CHR '':''}"

lemma hostport_scan_chars: "c \<in> set (snd (hostport_scan host len cs)) \<Longrightarrow> hostport_char c"
  by (induction host len cs rule: hostport_scan.induct)
     (auto simp: hostport_char_def isalnum_def split: if_splits prod.splits)

lemma hostport_alnum: "isalnum c \<Longrightarrow> hostport_char c"
  by (simp add: hostport_char_def)

lemma hostport_scan_length: "length (snd (hostport_scan host len cs)) \<le> len"
proof (induction len arbitrary: host cs)
  case 0
  then show ?case by (cases cs) simp_all
next
  case (Suc len)
  show ?case
    using Suc [of True "tl cs"] Suc [of False "tl cs"] by (cases cs) (auto split: prod.splits)
qed

lemma hostport_scan_alnum:
  "\<forall>c \<in> set cs. isalnum c \<Longrightarrow> hostport_scan True len cs = (True, take len cs)"
  by (induction True len cs rule: hostport_scan.induct) (auto split: prod.splits)

lemma get_valid_hostport_ok:
  assumes "get_valid_hostport hp len = (True, out)"
  shows "out \<noteq> [] \<and> isalnum (hd out) \<and> (\<forall>c \<in> set out. hostport_char c)"
  using assms hostport_scan_chars [of _ True len "tl hp"]
  by (cases hp) (auto simp: get_valid_hostport_def hostport_alnum split: if_splits prod.splits)

section \<open>Properties\<close>

text \<open>
  C33. What a proxy resolver answers cannot smuggle anything into the command line of tlsdate: the
  proxy string made from it is empty, or one of four schemes followed by a host and port that
  begin with a letter or digit and hold only letters, digits, hyphen, dot and colon, and it fits
  the buffer it is written to.
\<close>

theorem canonicalize_pac_safe:
  assumes "canonicalize_pac pac len \<noteq> ''''"
  shows "length (canonicalize_pac pac len) < len \<and>
     (\<exists>sch hp. canonicalize_pac pac len = sch @ ''://'' @ hp \<and>
        sch \<in> {''http'', ''socks4'', ''socks5'', ''https''} \<and>
        hp \<noteq> [] \<and> isalnum (hd hp) \<and> (\<forall>c \<in> set hp. hostport_char c))"
proof -
  let ?n = "length (takeWhile (\<lambda>c. c \<noteq> CHR '' '') pac)"
  obtain ok hp where g: "get_valid_hostport (drop (?n + 1) pac) HOSTPORT_SIZE = (ok, hp)"
    by (cases "get_valid_hostport (drop (?n + 1) pac) HOSTPORT_SIZE")
  have ok: ok using assms g by (auto simp: canonicalize_pac_def Let_def split: if_splits)
  have "length (canonicalize_pac pac len) < len"
    using assms g by (auto simp: canonicalize_pac_def Let_def split: if_splits)
  moreover have "\<exists>sch. canonicalize_pac pac len = sch @ ''://'' @ hp \<and> sch \<in> {''http'', ''socks4'', ''socks5'', ''https''}"
    using assms g ok by (auto simp: canonicalize_pac_def Let_def split: if_splits)
  moreover have "hp \<noteq> [] \<and> isalnum (hd hp) \<and> (\<forall>c \<in> set hp. hostport_char c)"
    using g ok by (intro get_valid_hostport_ok) simp
  ultimately show ?thesis by blast
qed

theorem canonicalize_pac_safe_witness:
  "length (canonicalize_pac ''PROXY p.example:80'' 271) < 271"
proof -
  have "canonicalize_pac ''PROXY p.example:80'' 271 = ''http://p.example:80''"
    by code_simp
  then show ?thesis using canonicalize_pac_safe [of "''PROXY p.example:80''" 271] by simp
qed

text \<open>
  The copy of the host and port is off by two: it writes at most two bytes more than the size
  it is given, and a long host name makes it do so, so that the buffer of \<^verbatim>\<open>canonicalize_pac\<close>
  overflows by two bytes on a proxy answer that is accepted.
\<close>

theorem hostport_written_bound:
  "hostport_written hp len \<le> len + 2 \<and>
   (\<exists>hp'. fst (get_valid_hostport hp' HOSTPORT_SIZE) \<and> hostport_written hp' HOSTPORT_SIZE = HOSTPORT_SIZE + 2)"
proof
  show "hostport_written hp len \<le> len + 2"
    using hostport_scan_length [of True len "tl hp"]
    by (cases hp) (auto simp: hostport_written_def get_valid_hostport_def split: prod.splits)
  have "get_valid_hostport (replicate 300 CHR ''a'') HOSTPORT_SIZE =
      (True, CHR ''a'' # take HOSTPORT_SIZE (replicate 299 CHR ''a''))"
  proof -
    have "isalnum (CHR ''a'')" by code_simp
    moreover have "replicate 300 CHR ''a'' = CHR ''a'' # replicate 299 CHR ''a''"
      by (simp add: numeral_eq_Suc)
    ultimately show ?thesis by (simp add: get_valid_hostport_def hostport_scan_alnum)
  qed
  then show "\<exists>hp'. fst (get_valid_hostport hp' HOSTPORT_SIZE) \<and> hostport_written hp' HOSTPORT_SIZE = HOSTPORT_SIZE + 2"
    by (intro exI [of _ "replicate 300 CHR ''a''"]) (simp add: hostport_written_def HOSTPORT_SIZE_def)
qed

end
