(* ===== verification/Privs.thy ===== *)
theory Privs
  imports Prelude
begin

text \<open>
  Dropping privileges, \<^verbatim>\<open>drop_privs_to\<close> and \<^verbatim>\<open>no_new_privs\<close> of \<^verbatim>\<open>src/util.c\<close>. The user and group
  databases and the outcome of each system call are explicit inputs.
\<close>

record passwd =
  pw_uid :: int
  pw_gid :: int

text \<open>The identity of the process: user, group, and the supplementary groups it was given.\<close>

record creds =
  c_uid :: int
  c_gid :: int
  c_groups :: "(string \<times> int) option"

record priv_env =
  getpwnam :: "string \<Rightarrow> passwd option"
  getgrnam :: "string \<Rightarrow> int option"
  initgroups_ok :: bool
  setresgid_ok :: bool
  setresuid_ok :: bool

definition drop_privs_to :: "priv_env \<Rightarrow> string \<Rightarrow> string \<Rightarrow> creds \<Rightarrow> creds result" where
  "drop_privs_to E user grp c =
     (if c_uid c \<noteq> 0 then Inr c
      else (case getpwnam E user of
          None \<Rightarrow> Inl (Exit 1)
        | Some pw \<Rightarrow>
            (case getgrnam E grp of
               None \<Rightarrow> Inl (Exit 1)
             | Some gr_gid \<Rightarrow>
                 (if pw_uid pw = 0 then Inl (Exit 1)
                  else if pw_gid pw = 0 \<or> gr_gid = 0 then Inl (Exit 1)
                  else if pw_gid pw \<noteq> gr_gid then Inl (Exit 1)
                  else if \<not> initgroups_ok E then Inl (Exit 1)
                  else if \<not> setresgid_ok E then Inl (Exit 1)
                  else if \<not> setresuid_ok E then Inl (Exit 1)
                  else Inr (c\<lparr>c_groups := Some (user, gr_gid), c_gid := pw_gid pw, c_uid := pw_uid pw\<rparr>)))))"

text \<open>
  On Linux with \<^verbatim>\<open>prctl\<close>; \<open>got\<close> is the answer to \<^verbatim>\<open>PR_GET_NO_NEW_PRIVS\<close> and \<open>set_ret\<close> the return
  value of \<^verbatim>\<open>PR_SET_NO_NEW_PRIVS\<close>. The conditional on the latter has an empty body, so that the
  call of \<^verbatim>\<open>die\<close> after it is unconditional.
\<close>

definition no_new_privs :: "int \<Rightarrow> int \<Rightarrow> unit result" where
  "no_new_privs got set_ret =
     (if got = 0 then bind_res (if set_ret \<noteq> 0 then Inr () else Inr ()) (\<lambda>_. Inl (Exit 1))
      else Inr ())"

section \<open>Properties\<close>

text \<open>
  C32. No process keeps root: if dropping privileges returns at all, the process has a non-zero
  user id; a process that was root then has the user, group and supplementary groups of the
  named account, neither id being 0, and a process that was not root is unchanged.
\<close>

theorem drop_privs_to_not_root:
  assumes "drop_privs_to E user grp c = Inr c'"
  shows "c_uid c' \<noteq> 0 \<and>
     (if c_uid c \<noteq> 0 then c' = c
      else \<exists>pw. getpwnam E user = Some pw \<and> getgrnam E grp = Some (pw_gid pw) \<and>
             c' = c\<lparr>c_uid := pw_uid pw, c_gid := pw_gid pw, c_groups := Some (user, pw_gid pw)\<rparr> \<and> c_gid c' \<noteq> 0)"
  using assms by (auto simp: drop_privs_to_def split: if_splits option.splits)

theorem drop_privs_to_not_root_witness:
  "c_uid (case drop_privs_to \<lparr>getpwnam = (\<lambda>_. Some \<lparr>pw_uid = 99, pw_gid = 98\<rparr>), getgrnam = (\<lambda>_. Some 98),
      initgroups_ok = True, setresgid_ok = True, setresuid_ok = True\<rparr> ''nobody'' ''nogroup''
      \<lparr>c_uid = 0, c_gid = 0, c_groups = None\<rparr> of Inr c \<Rightarrow> c | Inl _ \<Rightarrow> \<lparr>c_uid = 0, c_gid = 0, c_groups = None\<rparr>) \<noteq> 0"
  using drop_privs_to_not_root [of "\<lparr>getpwnam = (\<lambda>_. Some \<lparr>pw_uid = 99, pw_gid = 98\<rparr>), getgrnam = (\<lambda>_. Some 98),
      initgroups_ok = True, setresgid_ok = True, setresuid_ok = True\<rparr>" "''nobody''" "''nogroup''"
      "\<lparr>c_uid = 0, c_gid = 0, c_groups = None\<rparr>" "\<lparr>c_uid = 99, c_gid = 98, c_groups = Some (''nobody'', 98)\<rparr>"]
  by (simp add: drop_privs_to_def)

end
