(* ===== verification/Dbus_Adapters.thy ===== *)
theory Dbus_Adapters
  imports Dbus
begin

text \<open>
  The part of \<^verbatim>\<open>src/dbus.c\<close> that lends the event loop to libdbus: the library asks for file descriptors
  to be watched and for timeouts through callbacks, and each of them gets an event of libevent. What
  matters here is who owns which memory: the block \<^verbatim>\<open>dbus_event_data\<close> belongs to the watch or timeout once
  \<^verbatim>\<open>dbus_watch_set_data\<close> has stored it together with \<^verbatim>\<open>dbus_free\<close>, and is freed by libdbus when the object goes
  or other data is stored; the event belongs to the callbacks. Blocks and events in use are therefore
  part of the state, and a use of either after it has been freed is an abort.
  The operations of libevent are a parameter, and so are the results of the allocator.
\<close>

section \<open>Libraries\<close>

text \<open>The handler an event is created with, with the object it is for.\<close>

datatype bus_callback = CB_watch_handler nat | CB_timeout_handler nat

type_synonym timeval = "int \<times> int"

record 'ev bus_ops =
  bo_new :: "int \<Rightarrow> evflag set \<Rightarrow> bus_callback \<Rightarrow> 'ev \<Rightarrow> nat option \<times> 'ev"
  bo_priority :: "nat \<Rightarrow> int \<Rightarrow> 'ev \<Rightarrow> 'ev"
  bo_add :: "nat \<Rightarrow> timeval option \<Rightarrow> 'ev \<Rightarrow> int \<times> 'ev"
  bo_del :: "nat \<Rightarrow> 'ev \<Rightarrow> 'ev"
  bo_pending :: "nat \<Rightarrow> evflag set \<Rightarrow> 'ev \<Rightarrow> bool"
  bo_get_events :: "nat \<Rightarrow> 'ev \<Rightarrow> evflag set"
  bo_free :: "nat \<Rightarrow> 'ev \<Rightarrow> 'ev"

record dbus_event_data =
  d_state :: nat
  d_event :: "nat option"

record 'ev bus =
  bus_base :: 'ev
  bus_data :: "nat \<rightharpoonup> dbus_event_data"
  bus_events :: "nat set"

record dbus_watch =
  w_fd :: int
  w_flags :: "watch_flag set"
  w_enabled :: bool
  w_data :: "nat option"

record dbus_timeout =
  t_interval :: int
  t_enabled :: bool
  t_data :: "nat option"

section \<open>Memory\<close>

definition dbus_free :: "nat \<Rightarrow> 'ev bus \<Rightarrow> 'ev bus result" where
  "dbus_free p s = (if bus_data s p = None then Inl Abort else Inr (s\<lparr>bus_data := (bus_data s)(p := None)\<rparr>))"

text \<open>Storing data frees what was stored before, as does the end of the object.\<close>

definition drop_data :: "nat option \<Rightarrow> 'ev bus \<Rightarrow> 'ev bus result" where
  "drop_data d s = (case d of None \<Rightarrow> Inr s | Some p \<Rightarrow> dbus_free p s)"

definition load_data :: "nat \<Rightarrow> 'ev bus \<Rightarrow> dbus_event_data result" where
  "load_data p s = (case bus_data s p of None \<Rightarrow> Inl Abort | Some x \<Rightarrow> Inr x)"

text \<open>A call of libevent on an event that must still exist.\<close>

definition on_event :: "nat \<Rightarrow> ('ev \<Rightarrow> 'ev) \<Rightarrow> 'ev bus \<Rightarrow> 'ev bus result" where
  "on_event h f s = (if h \<in> bus_events s then Inr (s\<lparr>bus_base := f (bus_base s)\<rparr>) else Inl Abort)"

definition free_event :: "'ev bus_ops \<Rightarrow> nat \<Rightarrow> 'ev bus \<Rightarrow> 'ev bus result" where
  "free_event L h s =
     bind_res (on_event h (bo_free L h) s) (\<lambda>s1. Inr (s1\<lparr>bus_events := bus_events s1 - {h}\<rparr>))"

section \<open>Callbacks\<close>

text \<open>
  What \<^verbatim>\<open>add_watch\<close> and \<^verbatim>\<open>add_timeout\<close> have in common, from the allocation on: whether the object was
  added, the data it holds afterwards and the state. The results of \<^verbatim>\<open>dbus_malloc0\<close> are an argument.
\<close>

definition add_event_data :: "'ev bus_ops \<Rightarrow> nat \<Rightarrow> nat option \<Rightarrow> int \<Rightarrow> evflag set \<Rightarrow> bus_callback \<Rightarrow> timeval option \<Rightarrow> bool \<Rightarrow>
    nat option \<Rightarrow> 'ev bus \<Rightarrow> (bool \<times> nat option \<times> 'ev bus) result" where
  "add_event_data L st alloc fd flags cb tv enabled d s =
     (case alloc of
        None \<Rightarrow> Inr (False, d, s)
      | Some p \<Rightarrow>
          (case bo_new L fd flags cb (bus_base s) of
             (None, b) \<Rightarrow> Inr (False, d, s\<lparr>bus_base := b\<rparr>)
           | (Some h, b) \<Rightarrow>
               let s1 = s\<lparr>bus_base := bo_priority L h PRI_WAKE b, bus_events := insert h (bus_events s),
                          bus_data := (bus_data s)(p \<mapsto> \<lparr>d_state = st, d_event = Some h\<rparr>)\<rparr>
               in bind_res (drop_data d s1) (\<lambda>s2.
                    if \<not> enabled then Inr (True, Some p, s2)
                    else case bo_add L h tv (bus_base s2) of
                      (r, b') \<Rightarrow>
                        let s3 = s2\<lparr>bus_base := b'\<rparr>
                        in if r \<noteq> 0
                           then bind_res (free_event L h s3) (\<lambda>s4. bind_res (dbus_free p s4) (\<lambda>s5. Inr (False, Some p, s5)))
                           else Inr (True, Some p, s3))))"

definition add_watch :: "'ev bus_ops \<Rightarrow> nat \<Rightarrow> nat option \<Rightarrow> nat \<Rightarrow> dbus_watch \<Rightarrow> 'ev bus \<Rightarrow> (bool \<times> dbus_watch \<times> 'ev bus) result" where
  "add_watch L st alloc i w s =
     bind_res (add_event_data L st alloc (w_fd w) ({EV_PERSIST} \<union> dbus_to_event (w_flags w)) (CB_watch_handler i) None (w_enabled w) (w_data w) s)
       (\<lambda>(ok, d, s'). Inr (ok, w\<lparr>w_data := d\<rparr>, s'))"

definition remove_event :: "'ev bus_ops \<Rightarrow> nat option \<Rightarrow> 'ev bus \<Rightarrow> 'ev bus result" where
  "remove_event L d s =
     (case d of
        None \<Rightarrow> Inr s
      | Some p \<Rightarrow> bind_res (load_data p s) (\<lambda>x.
          case d_event x of
            None \<Rightarrow> Inr s
          | Some h \<Rightarrow> bind_res (on_event h (bo_del L h) s) (free_event L h)))"

definition remove_watch :: "'ev bus_ops \<Rightarrow> dbus_watch \<Rightarrow> 'ev bus \<Rightarrow> 'ev bus result" where
  "remove_watch L w s = remove_event L (w_data w) s"

text \<open>Deleting the event if it is pending for \<open>what\<close>, and adding it again if enabled.\<close>

definition rearm_event :: "'ev bus_ops \<Rightarrow> nat \<Rightarrow> evflag set \<Rightarrow> timeval option \<Rightarrow> bool \<Rightarrow> 'ev bus \<Rightarrow> 'ev bus result" where
  "rearm_event L h what tv enabled s =
     on_event h (\<lambda>b. let b1 = (if bo_pending L h what b then bo_del L h b else b)
                     in if enabled then snd (bo_add L h tv b1) else b1) s"

definition toggle_watch :: "'ev bus_ops \<Rightarrow> dbus_watch \<Rightarrow> 'ev bus \<Rightarrow> 'ev bus result" where
  "toggle_watch L w s =
     (case w_data w of
        None \<Rightarrow> Inr s
      | Some p \<Rightarrow> bind_res (load_data p s) (\<lambda>x.
          case d_event x of
            None \<Rightarrow> Inr s
          | Some h \<Rightarrow> rearm_event L h (dbus_to_event (w_flags w)) None (w_enabled w) s))"

definition interval :: "int \<Rightarrow> timeval" where
  "interval ms = (ms sdiv 1000, (ms smod 1000) * 1000)"

definition add_timeout :: "'ev bus_ops \<Rightarrow> nat \<Rightarrow> nat option \<Rightarrow> nat \<Rightarrow> dbus_timeout \<Rightarrow> 'ev bus \<Rightarrow> (bool \<times> dbus_timeout \<times> 'ev bus) result" where
  "add_timeout L st alloc i t s =
     bind_res (add_event_data L st alloc (-1) {EV_TIMEOUT, EV_PERSIST} (CB_timeout_handler i) (Some (interval (t_interval t))) (t_enabled t) (t_data t) s)
       (\<lambda>(ok, d, s'). Inr (ok, t\<lparr>t_data := d\<rparr>, s'))"

definition remove_timeout :: "'ev bus_ops \<Rightarrow> dbus_timeout \<Rightarrow> 'ev bus \<Rightarrow> 'ev bus result" where
  "remove_timeout L t s = remove_event L (t_data t) s"

text \<open>Neither the data nor its event is compared with NULL here.\<close>

definition toggle_timeout :: "'ev bus_ops \<Rightarrow> dbus_timeout \<Rightarrow> 'ev bus \<Rightarrow> 'ev bus result" where
  "toggle_timeout L t s =
     (case t_data t of
        None \<Rightarrow> Inl Null_Deref
      | Some p \<Rightarrow> bind_res (load_data p s) (\<lambda>x.
          case d_event x of
            None \<Rightarrow> Inl Null_Deref
          | Some h \<Rightarrow> rearm_event L h {EV_TIMEOUT} (Some (interval (t_interval t))) (t_enabled t) s))"

section \<open>Handlers\<close>

datatype dispatch_status = DISPATCH_DATA_REMAINS | DISPATCH_COMPLETE | DISPATCH_NEED_MEMORY

text \<open>How often a call is repeated until its result ends the loop: \<open>None\<close> when no result of the script does.\<close>

fun calls_until :: "('a \<Rightarrow> bool) \<Rightarrow> 'a list \<Rightarrow> nat option" where
  "calls_until done [] = None"
| "calls_until done (r # rs) = (if done r then Some 1 else map_option Suc (calls_until done rs))"

text \<open>
  What the handler of a watch does: the connection state it uses, the flags it passes to
  \<^verbatim>\<open>dbus_watch_handle\<close>, and how often it calls this and \<^verbatim>\<open>dbus_connection_dispatch\<close>.
\<close>

definition watch_handler :: "evflag set \<Rightarrow> bool list \<Rightarrow> dispatch_status list \<Rightarrow> dbus_watch \<Rightarrow> 'ev bus \<Rightarrow>
    (nat \<times> watch_flag set \<times> nat) result option" where
  "watch_handler what handled dispatched w s =
     (case w_data w of
        None \<Rightarrow> Some (Inl Null_Deref)
      | Some p \<Rightarrow>
          (case load_data p s of
             Inl e \<Rightarrow> Some (Inl e)
           | Inr x \<Rightarrow>
               (case (calls_until (\<lambda>r. r) handled, calls_until (\<lambda>r. r \<noteq> DISPATCH_DATA_REMAINS) dispatched) of
                  (Some _, Some n) \<Rightarrow> Some (Inr (d_state x, event_to_dbus what, n))
                | _ \<Rightarrow> None)))"

definition timeout_handler :: "dbus_timeout \<Rightarrow> 'ev bus \<Rightarrow> nat result" where
  "timeout_handler t s =
     (case t_data t of
        None \<Rightarrow> Inl Null_Deref
      | Some p \<Rightarrow> bind_res (load_data p s) (\<lambda>x. Inr (d_state x)))"

section \<open>Start\<close>

text \<open>
  The results of the calls of libdbus in \<^verbatim>\<open>init_dbus\<close>, in their order; a call that also reports an
  error through \<^verbatim>\<open>DBusError\<close> has this as its second result.
\<close>

record bus_env =
  be_calloc :: bool
  be_bus_get :: "bool \<times> bool"
  be_timeout_functions :: bool
  be_watch_functions :: bool
  be_request_name :: "int \<times> bool"
  be_register_path :: bool

text \<open>The status and whether \<^verbatim>\<open>dbus\<close> is set in the state of the daemon.\<close>

definition init_dbus :: "bus_env \<Rightarrow> int \<times> bool" where
  "init_dbus E =
     (if \<not> be_calloc E then (1, False)
      else if \<not> fst (be_bus_get E) \<or> snd (be_bus_get E) then (1, False)
      else if \<not> be_timeout_functions E then (1, False)
      else if \<not> be_watch_functions E then (1, False)
      else if fst (be_request_name E) = 0 \<or> snd (be_request_name E) then (1, False)
      else if \<not> be_register_path E then (1, False)
      else (0, True))"

section \<open>libdbus as the caller\<close>

text \<open>
  The documentation of libdbus says when it calls the callbacks: a new watch or timeout is added; one
  that was added may be enabled or disabled, which is followed by a toggle, and is removed before it
  may be added again or finalised; the last frees its data. \<open>True\<close> marks the objects that are added.
\<close>

datatype item = Watch dbus_watch | Timeout dbus_timeout

primrec item_data :: "item \<Rightarrow> nat option" where
  "item_data (Watch w) = w_data w"
| "item_data (Timeout t) = t_data t"

primrec item_enabled :: "item \<Rightarrow> bool" where
  "item_enabled (Watch w) = w_enabled w"
| "item_enabled (Timeout t) = t_enabled t"

primrec set_enabled :: "bool \<Rightarrow> item \<Rightarrow> item" where
  "set_enabled e (Watch w) = Watch (w\<lparr>w_enabled := e\<rparr>)"
| "set_enabled e (Timeout t) = Timeout (t\<lparr>t_enabled := e\<rparr>)"

text \<open>What an event for the object is to be notified of.\<close>

primrec item_what :: "item \<Rightarrow> evflag set" where
  "item_what (Watch w) = dbus_to_event (w_flags w)"
| "item_what (Timeout t) = {EV_TIMEOUT}"

definition item_flags :: "item \<Rightarrow> evflag set" where
  "item_flags it = insert EV_PERSIST (item_what it)"

primrec add_item :: "'ev bus_ops \<Rightarrow> nat \<Rightarrow> nat option \<Rightarrow> nat \<Rightarrow> item \<Rightarrow> 'ev bus \<Rightarrow> (bool \<times> item \<times> 'ev bus) result" where
  "add_item L st alloc i (Watch w) s = bind_res (add_watch L st alloc i w s) (\<lambda>(ok, w', s'). Inr (ok, Watch w', s'))"
| "add_item L st alloc i (Timeout t) s = bind_res (add_timeout L st alloc i t s) (\<lambda>(ok, t', s'). Inr (ok, Timeout t', s'))"

primrec toggle_item :: "'ev bus_ops \<Rightarrow> item \<Rightarrow> 'ev bus \<Rightarrow> 'ev bus result" where
  "toggle_item L (Watch w) s = toggle_watch L w s"
| "toggle_item L (Timeout t) s = toggle_timeout L t s"

primrec remove_item :: "'ev bus_ops \<Rightarrow> item \<Rightarrow> 'ev bus \<Rightarrow> 'ev bus result" where
  "remove_item L (Watch w) s = remove_watch L w s"
| "remove_item L (Timeout t) s = remove_timeout L t s"

text \<open>The allocators return memory that is not in use.\<close>

definition fresh_results :: "'ev bus_ops \<Rightarrow> nat option \<Rightarrow> 'ev bus \<Rightarrow> bool" where
  "fresh_results L alloc s \<longleftrightarrow> (\<forall>p. alloc = Some p \<longrightarrow> bus_data s p = None) \<and>
     (\<forall>fd fl cb h. fst (bo_new L fd fl cb (bus_base s)) = Some h \<longrightarrow> h \<notin> bus_events s)"

type_synonym 'ev bus_sys = "(nat \<rightharpoonup> item \<times> bool) \<times> 'ev bus"

inductive bus_step :: "'ev bus_ops \<Rightarrow> nat \<Rightarrow> 'ev bus_sys \<Rightarrow> 'ev bus_sys \<Rightarrow> bool" for L st where
  bus_create: "m i = None \<Longrightarrow> item_data it = None \<Longrightarrow> bus_step L st (m, s) (m(i \<mapsto> (it, False)), s)"
| bus_add: "m i = Some (it, False) \<Longrightarrow> fresh_results L alloc s \<Longrightarrow> add_item L st alloc i it s = Inr (ok, it', s') \<Longrightarrow>
    bus_step L st (m, s) (m(i \<mapsto> (it', ok)), s')"
| bus_toggle: "m i = Some (it, True) \<Longrightarrow> toggle_item L (set_enabled e it) s = Inr s' \<Longrightarrow>
    bus_step L st (m, s) (m(i \<mapsto> (set_enabled e it, True)), s')"
| bus_remove: "m i = Some (it, True) \<Longrightarrow> remove_item L it s = Inr s' \<Longrightarrow> bus_step L st (m, s) (m(i \<mapsto> (it, False)), s')"
| bus_finalize: "m i = Some (it, False) \<Longrightarrow> drop_data (item_data it) s = Inr s' \<Longrightarrow> bus_step L st (m, s) (m(i := None), s')"

definition bus_start :: "'ev bus_sys \<Rightarrow> bool" where
  "bus_start = (\<lambda>(m, s). m = Map.empty \<and> bus_data s = Map.empty \<and> bus_events s = {})"

section \<open>What libevent promises\<close>

text \<open>
  A new event has the flags asked for and is not pending; an event that is not pending and is added
  successfully is pending for those of its flags that can occur, and for the timeout if one is given;
  a deleted event is not pending; no call changes the flags of an event or anything of another one.
\<close>

definition same_event :: "'ev bus_ops \<Rightarrow> nat \<Rightarrow> 'ev \<Rightarrow> 'ev \<Rightarrow> bool" where
  "same_event L h b b' \<longleftrightarrow> bo_get_events L h b' = bo_get_events L h b \<and> (\<forall>what. bo_pending L h what b' = bo_pending L h what b)"

definition unarmed :: "'ev bus_ops \<Rightarrow> nat \<Rightarrow> 'ev \<Rightarrow> bool" where
  "unarmed L h b \<longleftrightarrow> (\<forall>what. \<not> bo_pending L h what b)"

definition new_ok :: "'ev bus_ops \<Rightarrow> bool" where
  "new_ok L \<longleftrightarrow> (\<forall>fd fl cb b r b'. bo_new L fd fl cb b = (r, b') \<longrightarrow>
     (\<forall>h. r = Some h \<longrightarrow> bo_get_events L h b' = fl \<and> unarmed L h b') \<and> (\<forall>h. r \<noteq> Some h \<longrightarrow> same_event L h b b'))"

definition add_ok :: "'ev bus_ops \<Rightarrow> bool" where
  "add_ok L \<longleftrightarrow> (\<forall>h tv b. fst (bo_add L h tv b) = 0 \<longrightarrow> unarmed L h b \<longrightarrow>
     bo_get_events L h (snd (bo_add L h tv b)) = bo_get_events L h b \<and>
     (\<forall>what. bo_pending L h what (snd (bo_add L h tv b)) \<longleftrightarrow>
        what \<inter> (bo_get_events L h b \<inter> {EV_READ, EV_WRITE, EV_SIGNAL} \<union> (if tv = None then {} else {EV_TIMEOUT})) \<noteq> {})) \<and>
     (\<forall>h tv b h'. h' \<noteq> h \<longrightarrow> same_event L h' b (snd (bo_add L h tv b)))"

definition del_ok :: "'ev bus_ops \<Rightarrow> bool" where
  "del_ok L \<longleftrightarrow> (\<forall>h b. unarmed L h (bo_del L h b) \<and> bo_get_events L h (bo_del L h b) = bo_get_events L h b \<and>
     (\<forall>h'. h' \<noteq> h \<longrightarrow> same_event L h' b (bo_del L h b) \<and> same_event L h' b (bo_free L h b)) \<and>
     (\<forall>h' p. same_event L h' b (bo_priority L h p b)))"

definition bus_ops_ok :: "'ev bus_ops \<Rightarrow> bool" where
  "bus_ops_ok L \<longleftrightarrow> new_ok L \<and> add_ok L \<and> del_ok L"

definition bus_add_succeeds :: "'ev bus_ops \<Rightarrow> bool" where
  "bus_add_succeeds L \<longleftrightarrow> (\<forall>h tv b. fst (bo_add L h tv b) = 0)"

section \<open>Ownership\<close>

text \<open>The block an object holds and the event an added object has, by the number of the object.\<close>

definition dptr :: "(nat \<rightharpoonup> item \<times> bool) \<Rightarrow> nat \<rightharpoonup> nat" where
  "dptr m i = (case m i of None \<Rightarrow> None | Some (it, r) \<Rightarrow> item_data it)"

definition event_of :: "'ev bus \<Rightarrow> nat option \<Rightarrow> nat option" where
  "event_of s d = (case d of None \<Rightarrow> None | Some p \<Rightarrow> (case bus_data s p of None \<Rightarrow> None | Some x \<Rightarrow> d_event x))"

definition hptr :: "(nat \<rightharpoonup> item \<times> bool) \<Rightarrow> 'ev bus \<Rightarrow> nat \<rightharpoonup> nat" where
  "hptr m s i = (case m i of None \<Rightarrow> None | Some (it, r) \<Rightarrow> if r then event_of s (item_data it) else None)"

definition inj_map :: "(nat \<rightharpoonup> nat) \<Rightarrow> bool" where
  "inj_map f \<longleftrightarrow> (\<forall>i j p. f i = Some p \<longrightarrow> f j = Some p \<longrightarrow> i = j)"

definition armed :: "'ev bus_ops \<Rightarrow> 'ev \<Rightarrow> item \<Rightarrow> nat \<Rightarrow> bool" where
  "armed L b it h \<longleftrightarrow> bo_get_events L h b = item_flags it \<and>
     (\<forall>what. bo_pending L h what b \<longleftrightarrow> item_enabled it \<and> what \<inter> item_what it \<noteq> {})"

text \<open>
  Every block in use belongs to one object and every event in use to one added object; an added
  object has an event that waits for what the object is for, and does so exactly if it is enabled.
\<close>

definition bus_inv :: "'ev bus_ops \<Rightarrow> 'ev bus_sys \<Rightarrow> bool" where
  "bus_inv L = (\<lambda>(m, s). inj_map (dptr m) \<and> dom (bus_data s) = ran (dptr m) \<and>
     inj_map (hptr m s) \<and> bus_events s = ran (hptr m s) \<and>
     (\<forall>i it. m i = Some (it, True) \<longrightarrow> (\<exists>h. hptr m s i = Some h \<and> armed L (bus_base s) it h)))"

lemma inj_map_update: "inj_map f \<Longrightarrow> p \<notin> ran f \<Longrightarrow> inj_map (f(i \<mapsto> p))"
  unfolding inj_map_def by (auto simp: ran_def)

lemma inj_map_remove: "inj_map f \<Longrightarrow> inj_map (f(i := None))"
  unfolding inj_map_def by auto

lemma ran_remove: "inj_map f \<Longrightarrow> f i = Some p \<Longrightarrow> ran (f(i := None)) = ran f - {p}"
  unfolding inj_map_def ran_def by (auto split: if_splits) (metis option.inject)

lemma ran_replace: "inj_map f \<Longrightarrow> f i = Some q \<Longrightarrow> ran (f(i \<mapsto> p)) = insert p (ran f - {q})"
  using ran_map_upd [of "f(i := None)" i p] ran_remove [of f i q] by simp

lemma dptr_update [simp]: "dptr (m(i \<mapsto> (it, r))) = (dptr m)(i := item_data it)" "dptr (m(i := None)) = (dptr m)(i := None)"
  by (auto simp: dptr_def)

lemma hptr_update [simp]:
  "hptr (m(i \<mapsto> (it, r))) s = (hptr m s)(i := if r then event_of s (item_data it) else None)"
  "hptr (m(i := None)) s = (hptr m s)(i := None)"
  by (auto simp: hptr_def)

lemma data_set_enabled [simp]: "item_data (set_enabled e it) = item_data it" "item_what (set_enabled e it) = item_what it"
  "item_enabled (set_enabled e it) = e"
  by (cases it; simp)+

lemma armed_frame: "armed L b it h \<Longrightarrow> same_event L h b b' \<Longrightarrow> armed L b' it h"
  by (simp add: armed_def same_event_def)

text \<open>The events of the other objects when only the block of one changes.\<close>

lemma hptr_frame:
  assumes "inj_map (dptr m)" and "dptr m i = d" and "\<And>p. d \<noteq> Some p \<Longrightarrow> p \<in> ran (dptr m) \<Longrightarrow> bus_data s' p = bus_data s p"
    and "j \<noteq> i"
  shows "hptr m s' j = hptr m s j"
proof (cases "dptr m j")
  case None
  then show ?thesis by (auto simp: hptr_def dptr_def event_of_def split: option.splits)
next
  case (Some p)
  then have "d \<noteq> Some p" using assms(1,2,4) unfolding inj_map_def by metis
  moreover have "p \<in> ran (dptr m)" using Some by (auto simp: ran_def)
  ultimately have "bus_data s' p = bus_data s p" using assms(3) by blast
  with Some show ?thesis by (auto simp: hptr_def dptr_def event_of_def split: option.splits)
qed

section \<open>What the callbacks do\<close>

lemma occurring_flags:
  assumes "flags = insert EV_PERSIST what" "EV_PERSIST \<notin> what" "EV_SIGNAL \<notin> what" "EV_TIMEOUT \<in> what \<longleftrightarrow> tv \<noteq> None"
  shows "flags \<inter> {EV_READ, EV_WRITE, EV_SIGNAL} \<union> (if tv = None then {} else {EV_TIMEOUT}) = what"
proof (intro set_eqI)
  fix x show "x \<in> flags \<inter> {EV_READ, EV_WRITE, EV_SIGNAL} \<union> (if tv = None then {} else {EV_TIMEOUT}) \<longleftrightarrow> x \<in> what"
    using assms by (cases x) auto
qed

lemma item_what_simps [simp]: "EV_PERSIST \<notin> item_what it" "EV_SIGNAL \<notin> item_what it"
  by (cases it; simp add: dbus_to_event_def)+

text \<open>Adding an object either changes nothing or gives it a block and an event of its own, armed as it should be.\<close>

lemma add_event_data_Inr:
  assumes ok: "bus_ops_ok L" "bus_add_succeeds L" "fresh_results L alloc s"
    and live: "\<And>q. d = Some q \<Longrightarrow> bus_data s q \<noteq> None"
    and what: "flags = insert EV_PERSIST what" "EV_PERSIST \<notin> what" "EV_SIGNAL \<notin> what" "EV_TIMEOUT \<in> what \<longleftrightarrow> tv \<noteq> None"
  obtains (refused) s' where "add_event_data L st alloc fd flags cb tv enabled d s = Inr (False, d, s')"
      "bus_data s' = bus_data s" "bus_events s' = bus_events s" "\<forall>h \<in> bus_events s. same_event L h (bus_base s) (bus_base s')"
  | (added) p h s' where "add_event_data L st alloc fd flags cb tv enabled d s = Inr (True, Some p, s')"
      "bus_data s p = None" "h \<notin> bus_events s" "bus_events s' = insert h (bus_events s)"
      "bus_data s' = (case d of None \<Rightarrow> bus_data s | Some q \<Rightarrow> (bus_data s)(q := None))(p \<mapsto> \<lparr>d_state = st, d_event = Some h\<rparr>)"
      "\<forall>h \<in> bus_events s. same_event L h (bus_base s) (bus_base s')" "bo_get_events L h (bus_base s') = flags"
      "\<And>w. bo_pending L h w (bus_base s') \<longleftrightarrow> enabled \<and> w \<inter> what \<noteq> {}"
proof (cases alloc)
  case None
  then show ?thesis by (intro refused [of s]) (simp_all add: add_event_data_def same_event_def)
next
  case (Some p)
  obtain r b where n: "bo_new L fd flags cb (bus_base s) = (r, b)" by (cases "bo_new L fd flags cb (bus_base s)")
  have laws: "new_ok L" "add_ok L" "del_ok L" using ok(1) by (auto simp: bus_ops_ok_def)
  have frame1: "same_event L h (bus_base s) b" if "r \<noteq> Some h" for h using laws(1) n that unfolding new_ok_def by blast
  show ?thesis
  proof (cases r)
    case None
    with Some n frame1 show ?thesis by (intro refused [of "s\<lparr>bus_base := b\<rparr>"]) (simp_all add: add_event_data_def)
  next
    case h: (Some h)
    have p: "bus_data s p = None" using ok(3) Some by (simp add: fresh_results_def)
    have hn: "h \<notin> bus_events s" using ok(3) n h unfolding fresh_results_def by (metis fst_conv)
    define b1 where "b1 = bo_priority L h PRI_WAKE b"
    define b2 where "b2 = (if enabled then snd (bo_add L h tv b1) else b1)"
    define s' where "s' = s\<lparr>bus_base := b2, bus_events := insert h (bus_events s),
      bus_data := (case d of None \<Rightarrow> bus_data s | Some q \<Rightarrow> (bus_data s)(q := None))(p \<mapsto> \<lparr>d_state = st, d_event = Some h\<rparr>)\<rparr>"
    have "same_event L h' b b1" for h' using laws(3) unfolding del_ok_def b1_def by blast
    then have b1: "bo_get_events L h b1 = flags" "unarmed L h b1" "\<And>h'. h' \<noteq> h \<Longrightarrow> same_event L h' (bus_base s) b1"
      using laws(1) n h frame1 unfolding new_ok_def unarmed_def same_event_def by simp_all
    have r0: "fst (bo_add L h tv b1) = 0" using ok(2) by (simp add: bus_add_succeeds_def)
    have b2: "bo_get_events L h b2 = flags"
      "\<And>w. bo_pending L h w b2 \<longleftrightarrow> enabled \<and> w \<inter> (flags \<inter> {EV_READ, EV_WRITE, EV_SIGNAL} \<union> (if tv = None then {} else {EV_TIMEOUT})) \<noteq> {}"
      "\<And>h'. h' \<noteq> h \<Longrightarrow> same_event L h' (bus_base s) b2"
      using laws(2) r0 b1 unfolding add_ok_def b2_def unarmed_def same_event_def by simp_all
    note w = occurring_flags [OF what]
    have q: "q \<noteq> p \<and> (\<exists>x. bus_data s q = Some x)" if "d = Some q" for q using live [OF that] p by auto
    have "add_event_data L st alloc fd flags cb tv enabled d s = Inr (True, Some p, s')"
      using n Some h r0 q unfolding s'_def b2_def b1_def
      by (cases d; cases "bo_add L h tv (bo_priority L h PRI_WAKE b)")
        (auto simp: add_event_data_def Let_def drop_data_def dbus_free_def fun_upd_twist)
    then show ?thesis
    proof (rule added)
      have "\<forall>h' \<in> bus_events s. same_event L h' (bus_base s) b2" using b2(3) hn by metis
      then show "\<forall>h \<in> bus_events s. same_event L h (bus_base s) (bus_base s')" by (simp add: s'_def)
      show "bo_get_events L h (bus_base s') = flags" using b2(1) by (simp add: s'_def)
      show "bo_pending L h x (bus_base s') \<longleftrightarrow> enabled \<and> x \<inter> what \<noteq> {}" for x using b2(2) [of x] unfolding w by (simp add: s'_def)
    qed (use p hn in \<open>simp_all add: s'_def\<close>)
  qed
qed

primrec with_data :: "nat option \<Rightarrow> item \<Rightarrow> item" where
  "with_data d (Watch w) = Watch (w\<lparr>w_data := d\<rparr>)"
| "with_data d (Timeout t) = Timeout (t\<lparr>t_data := d\<rparr>)"

lemma with_data [simp]: "item_data (with_data d it) = d" "item_what (with_data d it) = item_what it"
  "item_enabled (with_data d it) = item_enabled it" "item_flags (with_data d it) = item_flags it"
  by (cases it; simp add: item_flags_def)+

lemma with_own_data [simp]: "with_data (item_data it) it = it"
  by (cases it) simp_all

lemma add_item_eq:
  obtains fd cb tv where "EV_TIMEOUT \<in> item_what it \<longleftrightarrow> tv \<noteq> None"
    "\<And>s. add_item L st alloc i it s =
       bind_res (add_event_data L st alloc fd (item_flags it) cb tv (item_enabled it) (item_data it) s) (\<lambda>(ok, d, s'). Inr (ok, with_data d it, s'))"
proof (cases it)
  case (Watch w)
  then show ?thesis
    by (intro that [of None "w_fd w" "CB_watch_handler i"])
      (auto simp: add_watch_def item_flags_def dbus_to_event_def bind_res_def split: sum.splits)
next
  case (Timeout t)
  then show ?thesis
    by (intro that [of "Some (interval (t_interval t))" "-1" "CB_timeout_handler i"])
      (auto simp: add_timeout_def item_flags_def insert_commute bind_res_def split: sum.splits)
qed

lemma toggle_item_eq:
  assumes "event_of s (item_data it) = Some h"
  obtains tv where "EV_TIMEOUT \<in> item_what it \<longleftrightarrow> tv \<noteq> None" "toggle_item L it s = rearm_event L h (item_what it) tv (item_enabled it) s"
proof (cases it)
  case (Watch w)
  then show ?thesis using assms
    by (intro that [of None]) (auto simp: toggle_watch_def load_data_def event_of_def dbus_to_event_def split: option.splits)
next
  case (Timeout t)
  then show ?thesis using assms
    by (intro that [of "Some (interval (t_interval t))"]) (auto simp: toggle_timeout_def load_data_def event_of_def split: option.splits)
qed

lemma remove_item_eq:
  assumes "event_of s (item_data it) = Some h" and "h \<in> bus_events s"
  shows "remove_item L it s = Inr (s\<lparr>bus_base := bo_free L h (bo_del L h (bus_base s)), bus_events := bus_events s - {h}\<rparr>)"
proof -
  have "remove_item L it s = remove_event L (item_data it) s" by (cases it) (simp_all add: remove_watch_def remove_timeout_def)
  then show ?thesis
    using assms by (auto simp: remove_event_def load_data_def event_of_def on_event_def free_event_def split: option.splits)
qed

lemma rearm_event_Inr:
  assumes "bus_ops_ok L" "bus_add_succeeds L" and "armed L (bus_base s) it h" and "h \<in> bus_events s"
    and "EV_TIMEOUT \<in> item_what it \<longleftrightarrow> tv \<noteq> None"
  obtains b where "rearm_event L h (item_what it) tv e s = Inr (s\<lparr>bus_base := b\<rparr>)" "armed L b (set_enabled e it) h"
    "\<And>h'. h' \<noteq> h \<Longrightarrow> same_event L h' (bus_base s) b"
proof -
  define b1 where "b1 = (if bo_pending L h (item_what it) (bus_base s) then bo_del L h (bus_base s) else bus_base s)"
  define b2 where "b2 = (if e then snd (bo_add L h tv b1) else b1)"
  have laws: "add_ok L" "del_ok L" "fst (bo_add L h tv b1) = 0" using assms(1,2) by (auto simp: bus_ops_ok_def bus_add_succeeds_def)
  have b1: "unarmed L h b1" "bo_get_events L h b1 = item_flags it" "\<And>h'. h' \<noteq> h \<Longrightarrow> same_event L h' (bus_base s) b1"
    using laws(2) assms(3) by (auto simp: b1_def del_ok_def armed_def unarmed_def same_event_def)
  have w: "item_flags it \<inter> {EV_READ, EV_WRITE, EV_SIGNAL} \<union> (if tv = None then {} else {EV_TIMEOUT}) = item_what it"
    by (rule occurring_flags [OF item_flags_def item_what_simps assms(5)])
  have "bo_get_events L h b2 = item_flags it \<and> (\<forall>x. bo_pending L h x b2 \<longleftrightarrow> e \<and> x \<inter> item_what it \<noteq> {})"
    using laws(1,3) b1(1,2) w by (simp add: b2_def add_ok_def unarmed_def)
  then have "armed L b2 (set_enabled e it) h" by (simp add: armed_def item_flags_def)
  moreover have "same_event L h' (bus_base s) b2" if "h' \<noteq> h" for h'
    using laws(1) b1(3) [OF that] that by (simp add: b2_def add_ok_def same_event_def)
  moreover have "rearm_event L h (item_what it) tv e s = Inr (s\<lparr>bus_base := b2\<rparr>)"
    using assms(4) by (simp add: rearm_event_def on_event_def b2_def b1_def Let_def)
  ultimately show ?thesis using that by blast
qed

section \<open>The invariant is kept\<close>

lemma bus_invD:
  assumes "bus_inv L (m, s)"
  shows "inj_map (dptr m)" "dom (bus_data s) = ran (dptr m)" "inj_map (hptr m s)" "bus_events s = ran (hptr m s)"
    and "m i = Some (it, True) \<Longrightarrow> \<exists>h. hptr m s i = Some h \<and> event_of s (item_data it) = Some h \<and> h \<in> bus_events s \<and> armed L (bus_base s) it h"
proof -
  show *: "inj_map (dptr m)" "dom (bus_data s) = ran (dptr m)" "inj_map (hptr m s)" "bus_events s = ran (hptr m s)"
    using assms by (auto simp: bus_inv_def)
  assume i: "m i = Some (it, True)"
  then obtain h where "hptr m s i = Some h" "armed L (bus_base s) it h" using assms unfolding bus_inv_def by blast
  moreover from this(1) i have "event_of s (item_data it) = Some h" by (simp add: hptr_def)
  ultimately show "\<exists>h. hptr m s i = Some h \<and> event_of s (item_data it) = Some h \<and> h \<in> bus_events s \<and> armed L (bus_base s) it h"
    using *(4) ranI [of "hptr m s" i h] by blast
qed

text \<open>The other objects keep their armed events when these are not touched.\<close>

lemma bus_inv_others:
  assumes "bus_inv L (m, s)" and "\<And>j. j \<noteq> i \<Longrightarrow> hptr m s' j = hptr m s j"
    and "\<And>h. h \<in> bus_events s \<Longrightarrow> hptr m s i \<noteq> Some h \<Longrightarrow> same_event L h (bus_base s) (bus_base s')"
    and "m j = Some (it, True)" and "j \<noteq> i"
  shows "\<exists>h. hptr m s' j = Some h \<and> armed L (bus_base s') it h"
proof -
  obtain h where h: "hptr m s j = Some h" "h \<in> bus_events s" "armed L (bus_base s) it h" using bus_invD(5) [OF assms(1,4)] by auto
  then have "hptr m s i \<noteq> Some h" using bus_invD(3) [OF assms(1)] assms(5) unfolding inj_map_def by metis
  with h assms(2) [OF assms(5)] assms(3) armed_frame show ?thesis by fastforce
qed

lemma event_of_data: "bus_data s' = bus_data s \<Longrightarrow> event_of s' = event_of s"
  by (auto simp: event_of_def fun_eq_iff split: option.splits)

lemma hptr_data: "bus_data s' = bus_data s \<Longrightarrow> hptr m s' = hptr m s"
  using event_of_data [of s' s] by (auto simp: hptr_def fun_eq_iff split: option.splits)

lemma bus_inv_frame:
  assumes inv: "bus_inv L (m, s)" and eq: "bus_data s' = bus_data s" "bus_events s' = bus_events s"
    and "\<forall>h \<in> bus_events s. same_event L h (bus_base s) (bus_base s')"
  shows "bus_inv L (m, s')"
proof -
  note h = hptr_data [OF eq(1)]
  have "\<exists>h. hptr m s i = Some h \<and> armed L (bus_base s') it h" if "m i = Some (it, True)" for i it
    using bus_invD(5) [OF inv that] assms(4) armed_frame by meson
  then show ?thesis using bus_invD(1-4) [OF inv] eq by (simp add: bus_inv_def h)
qed

lemma bus_inv_add:
  assumes ok: "bus_ops_ok L" "bus_add_succeeds L" and inv: "bus_inv L (m, s)" and i: "m i = Some (it, False)" and fresh: "fresh_results L alloc s"
  shows "\<exists>ok it' s'. add_item L st alloc i it s = Inr (ok, it', s') \<and> bus_inv L (m(i \<mapsto> (it', ok)), s')"
proof -
  note inv' = bus_invD [OF inv]
  obtain fd cb tv where tv: "EV_TIMEOUT \<in> item_what it \<longleftrightarrow> tv \<noteq> None"
    and eq: "\<And>s. add_item L st alloc i it s =
       bind_res (add_event_data L st alloc fd (item_flags it) cb tv (item_enabled it) (item_data it) s) (\<lambda>(ok, d, s'). Inr (ok, with_data d it, s'))"
    using add_item_eq [of it L st alloc i] by metis
  have d: "dptr m i = item_data it" "hptr m s i = None" using i by (simp_all add: dptr_def hptr_def)
  have live: "bus_data s q \<noteq> None" if "item_data it = Some q" for q
    using inv'(2) that d(1) by (metis domIff ranI)
  note spec = add_event_data_Inr [where st = st and fd = fd and cb = cb and enabled = "item_enabled it" and d = "item_data it",
    OF ok fresh _ item_flags_def item_what_simps tv]
  show ?thesis
  proof (rule spec, goal_cases)
    case (1 q)
    then show ?case by (rule live)
  next
    case (2 s')
    note refused = this
    have m: "m(i \<mapsto> (it, False)) = m" using i by auto
    have "bus_inv L (m, s')" using inv refused(2-4) by (rule bus_inv_frame)
    then show ?thesis using refused(1) by (intro exI [of _ False] exI [of _ it] exI [of _ s']) (simp add: eq m)
  next
    case (3 p h s')
    note added = this
    have p: "p \<notin> ran (dptr m)" using added(2) inv'(2) by auto
    have other: "hptr m s' j = hptr m s j" if "j \<noteq> i" for j
      by (rule hptr_frame [OF inv'(1) d(1) _ that]) (use added(5) p in \<open>auto split: option.splits\<close>)
    have hp: "(hptr m s')(i \<mapsto> h) = (hptr m s)(i \<mapsto> h)" using other by auto
    have ev: "event_of s' (Some p) = Some h" using added(5) by (simp add: event_of_def)
    have dom: "dom (bus_data s') = ran ((dptr m)(i \<mapsto> p))"
    proof (cases "item_data it")
      case None
      then show ?thesis using added(5) inv'(2) d(1) by simp
    next
      case (Some q)
      then show ?thesis using added(5) inv'(2) ran_replace [OF inv'(1), of i q p] d(1) by auto
    qed
    have arm: "armed L (bus_base s') (with_data (Some p) it) h" using added(7,8) by (simp add: armed_def)
    have "\<exists>h'. hptr m s' j = Some h' \<and> armed L (bus_base s') it' h'" if "m j = Some (it', True)" "j \<noteq> i" for j it'
      using that bus_inv_others [OF inv, of i s' j it'] other added(6) by auto
    then have "bus_inv L (m(i \<mapsto> (with_data (Some p) it, True)), s')"
      using inj_map_update [OF inv'(1) p] dom inj_map_update [OF inv'(3), of h i] added(3,4) inv'(4) d(2) hp ev arm by (auto simp: bus_inv_def)
    then show ?thesis using added(1) by (intro exI [of _ True] exI [of _ "with_data (Some p) it"] exI [of _ s']) (simp add: eq)
  qed
qed

lemma bus_inv_toggle:
  assumes ok: "bus_ops_ok L" "bus_add_succeeds L" and inv: "bus_inv L (m, s)" and i: "m i = Some (it, True)"
  shows "\<exists>s'. toggle_item L (set_enabled e it) s = Inr s' \<and> bus_inv L (m(i \<mapsto> (set_enabled e it, True)), s')"
proof -
  note inv' = bus_invD [OF inv]
  obtain h where h: "hptr m s i = Some h" "event_of s (item_data it) = Some h" "h \<in> bus_events s" "armed L (bus_base s) it h"
    using inv'(5) [OF i] by blast
  obtain tv where tv: "EV_TIMEOUT \<in> item_what it \<longleftrightarrow> tv \<noteq> None" "toggle_item L (set_enabled e it) s = rearm_event L h (item_what it) tv e s"
    using toggle_item_eq [of s "set_enabled e it" h L] h(2) by auto
  obtain b where b: "rearm_event L h (item_what it) tv e s = Inr (s\<lparr>bus_base := b\<rparr>)" "armed L b (set_enabled e it) h"
    "\<And>h'. h' \<noteq> h \<Longrightarrow> same_event L h' (bus_base s) b"
    using rearm_event_Inr [OF ok h(4,3) tv(1)] by metis
  have frame: "event_of (s\<lparr>bus_base := b\<rparr>) = event_of s" by (rule event_of_data) simp
  have hp: "hptr m (s\<lparr>bus_base := b\<rparr>) = hptr m s" "(hptr m s)(i \<mapsto> h) = hptr m s" "(dptr m)(i := item_data it) = dptr m"
    using h(1) i hptr_data [of "s\<lparr>bus_base := b\<rparr>" s m] by (auto simp: dptr_def fun_eq_iff)
  have "\<exists>h'. hptr m s j = Some h' \<and> armed L b it' h'" if "m j = Some (it', True)" "j \<noteq> i" for j it'
    using that h(1) bus_inv_others [OF inv, of i "s\<lparr>bus_base := b\<rparr>" j it'] b(3) hp(1) by auto
  then have "bus_inv L (m(i \<mapsto> (set_enabled e it, True)), s\<lparr>bus_base := b\<rparr>)"
    using inv'(1-4) h(1,2) b(2) by (auto simp: bus_inv_def hp frame)
  then show ?thesis using tv(2) b(1) by auto
qed

lemma bus_inv_remove:
  assumes ok: "bus_ops_ok L" and inv: "bus_inv L (m, s)" and i: "m i = Some (it, True)"
  shows "\<exists>s'. remove_item L it s = Inr s' \<and> bus_inv L (m(i \<mapsto> (it, False)), s')"
proof -
  note inv' = bus_invD [OF inv]
  obtain h where h: "hptr m s i = Some h" "event_of s (item_data it) = Some h" "h \<in> bus_events s"
    using inv'(5) [OF i] by blast
  define s' where "s' = s\<lparr>bus_base := bo_free L h (bo_del L h (bus_base s)), bus_events := bus_events s - {h}\<rparr>"
  have hp: "hptr m s' = hptr m s" "(dptr m)(i := item_data it) = dptr m"
    using i hptr_data [of s' s m] by (auto simp: s'_def dptr_def fun_eq_iff)
  have frame: "same_event L h' (bus_base s) (bus_base s')" if "h' \<noteq> h" for h'
    using ok that by (simp add: s'_def bus_ops_ok_def del_ok_def same_event_def)
  have "\<exists>h'. hptr m s j = Some h' \<and> armed L (bus_base s') it' h'" if "m j = Some (it', True)" "j \<noteq> i" for j it'
    using that bus_inv_others [OF inv, of i s' j it'] frame h(1) hp(1) by auto
  then have "bus_inv L (m(i \<mapsto> (it, False)), s')"
    using inv'(1,2,4) inj_map_remove [OF inv'(3)] ran_remove [OF inv'(3) h(1)] by (simp add: bus_inv_def hp) (simp add: s'_def)
  then show ?thesis using remove_item_eq [OF h(2,3)] by (simp add: s'_def)
qed

lemma bus_inv_finalize:
  assumes inv: "bus_inv L (m, s)" and i: "m i = Some (it, False)"
  shows "\<exists>s'. drop_data (item_data it) s = Inr s' \<and> bus_inv L (m(i := None), s')"
proof -
  note inv' = bus_invD [OF inv]
  have d: "dptr m i = item_data it" "hptr m s i = None" using i by (simp_all add: dptr_def hptr_def)
  define s' where "s' = (case item_data it of None \<Rightarrow> s | Some q \<Rightarrow> s\<lparr>bus_data := (bus_data s)(q := None)\<rparr>)"
  have eqs: "bus_base s' = bus_base s" "bus_events s' = bus_events s" by (simp_all add: s'_def split: option.splits)
  have "bus_data s q \<noteq> None" if "item_data it = Some q" for q using inv'(2) that d(1) by (metis domIff ranI)
  then have "drop_data (item_data it) s = Inr s'" by (cases "item_data it") (auto simp: drop_data_def dbus_free_def s'_def)
  moreover have other: "hptr m s' j = hptr m s j" if "j \<noteq> i" for j
    by (rule hptr_frame [OF inv'(1) d(1) _ that]) (auto simp: s'_def split: option.splits)
  then have "(hptr m s')(i := None) = (hptr m s)(i := None)" "(hptr m s)(i := None) = hptr m s" using d(2) by auto
  moreover have "dom (bus_data s') = ran ((dptr m)(i := None))"
    using inv'(2) d(1) ran_remove [OF inv'(1), of i] by (cases "item_data it") (auto simp: s'_def fun_upd_idem)
  moreover have "\<exists>h. hptr m s' j = Some h \<and> armed L (bus_base s') it' h" if "m j = Some (it', True)" "j \<noteq> i" for j it'
    using bus_inv_others [OF inv other _ that] by (simp add: eqs same_event_def)
  ultimately show ?thesis
    using inj_map_remove [OF inv'(1)] inv'(3,4) other by (simp add: bus_inv_def eqs)
qed

lemma bus_step_inv:
  assumes "bus_ops_ok L" "bus_add_succeeds L" and "bus_inv L c" and "bus_step L st c c'"
  shows "bus_inv L c'"
  using assms(4)
proof cases
  case (bus_create m i it s)
  then have d: "(dptr m)(i := item_data it) = dptr m" "(hptr m s)(i := None) = hptr m s" by (auto simp: dptr_def hptr_def)
  have "bus_inv L (m, s)" using assms(3) bus_create(1) by simp
  then have "bus_inv L (m(i \<mapsto> (it, False)), s)" using bus_create(3) by (auto simp: bus_inv_def d)
  then show ?thesis using bus_create(2) by simp
next
  case (bus_add m i it alloc s ok it' s')
  then show ?thesis using assms(3) bus_inv_add [OF assms(1,2), of m s i it alloc st] by auto
next
  case (bus_toggle m i it e s s')
  then show ?thesis using assms(3) bus_inv_toggle [OF assms(1,2), of m s i it e] by auto
next
  case (bus_remove m i it s s')
  then show ?thesis using assms(3) bus_inv_remove [OF assms(1), of m s i it] by auto
next
  case (bus_finalize m i it s s')
  then show ?thesis using assms(3) bus_inv_finalize [of L m s i it] by auto
qed

lemma bus_reachable_inv:
  assumes "bus_ops_ok L" "bus_add_succeeds L" and "reachable bus_start (bus_step L st) c"
  shows "bus_inv L c"
proof -
  have "bus_inv L c" if "bus_start c" for c
    using that by (auto simp: bus_start_def bus_inv_def inj_map_def dptr_def hptr_def ran_def)
  then have "invariant_system bus_start (bus_step L st) (bus_inv L)"
    using bus_step_inv [OF assms(1,2)] by unfold_locales
  from invariant_system.reachable_inv [OF this assms(3)] show ?thesis .
qed

section \<open>Properties\<close>

text \<open>An event table: flags and what each event is pending for, and the number of the next one.\<close>

type_synonym bus_table = "(nat \<Rightarrow> evflag set \<times> evflag set) \<times> nat"

definition table_bus :: "bus_table bus_ops" where
  "table_bus =
     \<lparr>bo_new = (\<lambda>fd fl cb (f, n). (Some n, (f(n := (fl, {})), Suc n))),
      bo_priority = (\<lambda>h p b. b),
      bo_add = (\<lambda>h tv (f, n). (0, (f(h := (fst (f h), fst (f h) \<inter> {EV_READ, EV_WRITE, EV_SIGNAL} \<union> (if tv = None then {} else {EV_TIMEOUT}))), n))),
      bo_del = (\<lambda>h (f, n). (f(h := (fst (f h), {})), n)),
      bo_pending = (\<lambda>h what (f, n). what \<inter> snd (f h) \<noteq> {}),
      bo_get_events = (\<lambda>h (f, n). fst (f h)),
      bo_free = (\<lambda>h b. b)\<rparr>"

lemma table_bus_ok: "bus_ops_ok table_bus" "bus_add_succeeds table_bus"
  by (auto simp: bus_ops_ok_def new_ok_def add_ok_def del_ok_def bus_add_succeeds_def same_event_def unarmed_def table_bus_def split: prod.splits)

text \<open>
  C30. The adapters own their memory: as long as libevent can add events, in every state that
  libdbus can reach by creating, adding, toggling, removing and finalising any number of watches and
  timeouts, no callback uses or frees anything that has been freed; every added object has an event of
  its own, which is pending for what the object is for exactly if the object is enabled; and
  neither events nor blocks are left when the objects are gone.
\<close>

theorem bus_adapters_safe:
  assumes "bus_ops_ok L" "bus_add_succeeds L" and "reachable bus_start (bus_step L st) (m, s)"
  shows "(\<forall>i it alloc. m i = Some (it, False) \<longrightarrow> fresh_results L alloc s \<longrightarrow> (\<exists>r. add_item L st alloc i it s = Inr r)) \<and>
     (\<forall>i it e. m i = Some (it, True) \<longrightarrow> (\<exists>s'. toggle_item L (set_enabled e it) s = Inr s') \<and> (\<exists>s'. remove_item L it s = Inr s')) \<and>
     (\<forall>i it. m i = Some (it, False) \<longrightarrow> (\<exists>s'. drop_data (item_data it) s = Inr s')) \<and>
     (\<forall>i it. m i = Some (it, True) \<longrightarrow> (\<exists>h. event_of s (item_data it) = Some h \<and> h \<in> bus_events s \<and>
        (\<forall>what. bo_pending L h what (bus_base s) \<longleftrightarrow> item_enabled it \<and> what \<inter> item_what it \<noteq> {}))) \<and>
     ((\<forall>i it. m i \<noteq> Some (it, True)) \<longrightarrow> bus_events s = {}) \<and> (m = Map.empty \<longrightarrow> bus_data s = Map.empty)"
proof -
  have inv: "bus_inv L (m, s)" by (rule bus_reachable_inv [OF assms])
  note inv' = bus_invD [OF inv]
  have "bus_events s = {}" if "\<forall>i it. m i \<noteq> Some (it, True)"
    using inv'(4) that by (auto simp: hptr_def ran_def split: option.splits if_splits)
  moreover have "bus_data s = Map.empty" if "m = Map.empty"
    using inv'(2) that by (simp add: dptr_def ran_def)
  moreover have "\<exists>h. event_of s (item_data it) = Some h \<and> h \<in> bus_events s \<and>
        (\<forall>what. bo_pending L h what (bus_base s) \<longleftrightarrow> item_enabled it \<and> what \<inter> item_what it \<noteq> {})" if "m i = Some (it, True)" for i it
    using inv'(5) [OF that] unfolding armed_def by blast
  moreover have "\<exists>r. add_item L st alloc i it s = Inr r" if "m i = Some (it, False)" "fresh_results L alloc s" for i it alloc
    using bus_inv_add [OF assms(1,2) inv that, of st] by blast
  moreover have "\<exists>s'. toggle_item L (set_enabled e it) s = Inr s'" if "m i = Some (it, True)" for i it e
    using bus_inv_toggle [OF assms(1,2) inv that, of e] by blast
  moreover have "\<exists>s'. remove_item L it s = Inr s'" if "m i = Some (it, True)" for i it
    using bus_inv_remove [OF assms(1) inv that] by blast
  moreover have "\<exists>s'. drop_data (item_data it) s = Inr s'" if "m i = Some (it, False)" for i it
    using bus_inv_finalize [OF inv that] by blast
  ultimately show ?thesis by (intro conjI allI impI)
qed

definition sample_watch :: dbus_watch where
  "sample_watch = \<lparr>w_fd = 5, w_flags = {DBUS_WATCH_READABLE}, w_enabled = True, w_data = None\<rparr>"

definition empty_bus :: "bus_table bus" where
  "empty_bus = \<lparr>bus_base = (\<lambda>_. ({}, {}), 0), bus_data = Map.empty, bus_events = {}\<rparr>"

theorem bus_adapters_safe_witness:
  "\<exists>s h. add_watch table_bus 1 (Some 9) 0 sample_watch empty_bus = Inr (True, sample_watch\<lparr>w_data := Some 9\<rparr>, s) \<and>
     event_of s (Some 9) = Some h \<and> bo_pending table_bus h {EV_READ} (bus_base s) \<and> \<not> bo_pending table_bus h {EV_WRITE} (bus_base s) \<and>
     (\<exists>s'. remove_watch table_bus (sample_watch\<lparr>w_data := Some 9\<rparr>) s = Inr s')"
proof -
  let ?w = "sample_watch\<lparr>w_data := Some 9\<rparr>"
  obtain s where s: "add_watch table_bus 1 (Some 9) 0 sample_watch empty_bus = Inr (True, ?w, s)"
    by (simp add: add_watch_def add_event_data_def table_bus_def sample_watch_def empty_bus_def Let_def drop_data_def)
  have "reachable bus_start (bus_step table_bus 1) (Map.empty, empty_bus)"
    by (rule reach_start) (simp add: bus_start_def empty_bus_def)
  then have "reachable bus_start (bus_step table_bus 1) ([0 \<mapsto> (Watch sample_watch, False)], empty_bus)"
    by (rule reach_step) (simp add: bus_create sample_watch_def)
  then have "reachable bus_start (bus_step table_bus 1) ([0 \<mapsto> (Watch sample_watch, False), 0 \<mapsto> (Watch ?w, True)], s)"
    by (rule reach_step) (rule bus_add, use s in \<open>auto simp: fresh_results_def empty_bus_def\<close>)
  then have r: "reachable bus_start (bus_step table_bus 1) ([0 \<mapsto> (Watch ?w, True)], s)" by simp
  have i: "[0 \<mapsto> (Watch ?w, True)] 0 = Some (Watch ?w, True)" by simp
  obtain h where "event_of s (Some 9) = Some h"
    "\<forall>what. bo_pending table_bus h what (bus_base s) \<longleftrightarrow> what \<inter> {EV_READ} \<noteq> {}" "\<exists>s'. remove_item table_bus (Watch ?w) s = Inr s'"
    using bus_adapters_safe [OF table_bus_ok r, THEN conjunct2, THEN conjunct1, rule_format, OF i]
      bus_adapters_safe [OF table_bus_ok r, THEN conjunct2, THEN conjunct2, THEN conjunct2, THEN conjunct1, rule_format, OF i]
    by (auto simp: sample_watch_def dbus_to_event_def)
  with s show ?thesis by auto
qed

text \<open>
  What happens when libevent cannot add the event of an enabled watch: \<^verbatim>\<open>add_watch\<close> frees the block it has
  already handed to the watch together with \<^verbatim>\<open>dbus_free\<close>, so that the end of the watch frees it again.
\<close>

theorem add_watch_double_free:
  assumes "bo_new L (w_fd w) ({EV_PERSIST} \<union> dbus_to_event (w_flags w)) (CB_watch_handler i) (bus_base s) = (Some h, b)"
    and "w_enabled w" "w_data w = None" and "fst (bo_add L h None (bo_priority L h PRI_WAKE b)) \<noteq> 0"
  shows "\<exists>w' s'. add_watch L st (Some p) i w s = Inr (False, w', s') \<and> w_data w' = Some p \<and> drop_data (w_data w') s' = Inl Abort"
proof -
  obtain r b' where add: "bo_add L h None (bo_priority L h PRI_WAKE b) = (r, b')" "r \<noteq> 0" using assms(4) by (metis prod.collapse)
  let ?s = "s\<lparr>bus_base := bo_free L h b', bus_events := bus_events s - {h}, bus_data := (bus_data s)(p := None)\<rparr>"
  have "add_watch L st (Some p) i w s = Inr (False, w\<lparr>w_data := Some p\<rparr>, ?s)"
    using assms(1-3) add by (simp add: add_watch_def add_event_data_def Let_def drop_data_def free_event_def on_event_def dbus_free_def)
  then show ?thesis by (simp add: drop_data_def dbus_free_def)
qed

text \<open>The conversion of an interval loses nothing, and the start succeeds only if every call of libdbus does.\<close>

lemma interval_value:
  assumes "0 \<le> ms"
  shows "1000 * fst (interval ms) + snd (interval ms) div 1000 = ms" "0 \<le> snd (interval ms)" "snd (interval ms) < 1000000"
  using assms by (auto simp: interval_def signed_divide_int_def signed_modulo_int_def sgn_if)

lemma init_dbus_ok: "fst (init_dbus E) = 0 \<longleftrightarrow> snd (init_dbus E)"
  by (simp add: init_dbus_def)

end
