(* ===== verification/Daemon.thy ===== *)
theory Daemon
  imports Cros Privs Dbus_Adapters
begin

text \<open>
  The daemon as a whole: \<^verbatim>\<open>main\<close> of \<^verbatim>\<open>src/tlsdated.c\<close> from the configured options to the event loop,
  the event loop as a step relation with one rule per handler, and \<^verbatim>\<open>cleanup_main\<close>. The loop
  may call any handler at any time with any results of its system calls; every run of the
  program is among those runs, so what holds of all of them holds of it.
\<close>

section \<open>Start-up\<close>

record start_env =
  se_rtc :: bool
  se_to :: "(int \<times> int) option"
  se_from :: "(int \<times> int) option"
  se_notify_nb :: bool
  se_save_nb :: bool
  se_setter_pid :: pid_t
  se_priv :: priv_env
  se_creds :: creds
  se_dbus :: bus_env
  se_pipe :: "(int \<times> int) option"
  se_pipe_nb :: bool
  se_now :: time_t
  se_disk :: "string \<Rightarrow> byte list option"
  se_cros :: "cros_env option"
  se_sock :: int
  se_bind :: bool
  se_fcntl :: bool
  se_rand :: "uint32 option"
  se_kick :: inputs

text \<open>Which time the daemon starts from: the system clock, the time on disk, or the build date.\<close>

definition initial_time :: "build \<Rightarrow> bool \<Rightarrow> time_t \<Rightarrow> time_t option \<Rightarrow> int \<times> time_t" where
  "initial_time B load now disk =
     (let (ty, t) = (case (if load then disk else None) of
            Some disk_time \<Rightarrow> if \<not> is_sane_time B now \<or> now < disk_time then (SYNC_TYPE_DISK, disk_time)
                             else (SYNC_TYPE_RTC, now)
          | None \<Rightarrow> (SYNC_TYPE_RTC, now))
      in if \<not> is_sane_time B t then (SYNC_TYPE_BUILD, RECENT_COMPILE_DATE B + 1) else (ty, t))"

text \<open>Leaving through \<^verbatim>\<open>out\<close>, or entering the event loop.\<close>

datatype 'ev startup = Out "'ev state" | Loop "platform_state option" "'ev state"

text \<open>The steps of \<^verbatim>\<open>main\<close> up to the privilege drop, and those after it.\<close>

definition start_setter :: "'ev evlib \<Rightarrow> start_env \<Rightarrow> opts \<Rightarrow> string \<Rightarrow> 'ev \<Rightarrow> bool \<times> 'ev state" where
  "start_setter L E o1 path b =
     (let s0 = (zero_state o1 b)\<lparr>timestamp_path := path, backoff := word_of_int (wait_between_tries o1)\<rparr>;
          s1 = (if should_sync_hwclock o1 \<and> \<not> se_rtc E then s0\<lparr>opts := o1\<lparr>should_sync_hwclock := False\<rparr>\<rparr> else s0);
          (r1, s2) = setup_sigchld_event L True s1
      in if r1 \<noteq> 0 then (False, s2)
         else let (r2, s3) = setup_time_setter L (se_to E) (se_from E) (se_notify_nb E) (se_save_nb E) (se_setter_pid E) s2
              in (r2 = 0, s3))"

definition register_sigterm :: "'ev evlib \<Rightarrow> 'ev state \<Rightarrow> 'ev state result" where
  "register_sigterm L s =
     (if should_save_disk (opts s)
      then (case anonymous_event L 15 {EV_SIGNAL, EV_PERSIST} CB_sigterm PRI_SAVE None s of
              (None, _) \<Rightarrow> Inl (Exit 1)
            | (Some _, s') \<Rightarrow> Inr s')
      else Inr s)"

definition register_sync :: "build \<Rightarrow> 'ev evlib \<Rightarrow> start_env \<Rightarrow> 'ev state \<Rightarrow> bool \<times> 'ev state" where
  "register_sync B L E s1 =
     (let (ok2, s2) = install_event L E_TLSDATE (-1) {EV_TIMEOUT} CB_run_tlsdate PRI_NET s1
      in if \<not> ok2 then (False, s2)
         else let (r3, s3) = setup_tlsdate_status L (se_pipe E) (se_pipe_nb E) s2
              in if r3 \<noteq> 0 then (False, s3)
                 else let (ok4, s4) = install_event L E_SAVE (setter_save_fd s3) {EV_READ, EV_WRITE}
                                        CB_sync_and_save PRI_SAVE s3
                      in if \<not> ok4 then (False, s4)
                         else let (ty, t) = initial_time B (should_load_disk (opts s4)) (se_now E)
                                              (load_disk_timestamp B (se_disk E) (timestamp_path s4))
                              in (True, trigger_event L E_SAVE (-1) (s4\<lparr>last_sync_type := ty, last_time := t\<rparr>)))"

definition register_events :: "build \<Rightarrow> 'ev evlib \<Rightarrow> start_env \<Rightarrow> 'ev state \<Rightarrow> (bool \<times> 'ev state) result" where
  "register_events B L E s =
     bind_res (register_sigterm L s) (\<lambda>s1.
       if should_dbus (opts s1) \<and> fst (init_dbus (se_dbus E)) \<noteq> 0 then Inr (False, s1)
       else Inr (register_sync B L E (if should_dbus (opts s1) then s1\<lparr>dbus := snd (init_dbus (se_dbus E))\<rparr> else s1)))"

definition start_loop :: "'ev evlib \<Rightarrow> start_env \<Rightarrow> 'ev state \<Rightarrow> 'ev startup result" where
  "start_loop L E s0 =
     bind_res (case se_cros E of None \<Rightarrow> Inr (0, None, s0) | Some ce \<Rightarrow> platform_init_cros L ce s0) (\<lambda>(r1, ctx, s1).
       if r1 \<noteq> 0 then Inr (Out s1)
       else let (r2, s2) = setup_event_route_up L (se_sock E) (se_bind E) (se_fcntl E) s1
            in if r2 \<noteq> 0 then Inr (Out s2)
               else bind_res (setup_event_timer_sync L (se_rand E) s2) (\<lambda>(r3, s3).
                 if r3 \<noteq> 0 then Inr (Out s3)
                 else let (r4, s4) = setup_event_timer_continuity L s3
                      in if r4 \<noteq> 0 then Inr (Out s4)
                         else bind_res (action_kickoff_time_sync L (se_kick E) s4) (\<lambda>s5. Inr (Loop ctx s5))))"

definition tlsdated_main :: "build \<Rightarrow> 'ev evlib \<Rightarrow> start_env \<Rightarrow> opts \<Rightarrow> string \<Rightarrow> 'ev \<Rightarrow> 'ev startup result" where
  "tlsdated_main B L E o1 path b =
     (let (ok, s1) = start_setter L E o1 path b
      in if \<not> ok then Inr (Out s1)
         else bind_res (drop_privs_to (se_priv E) (opt_user (opts s1)) (opt_group (opts s1)) (se_creds E)) (\<lambda>_.
           bind_res (register_events B L E s1) (\<lambda>(ok, s2).
             if \<not> ok then Inr (Out s2) else start_loop L E s2)))"

section \<open>Clean-up\<close>

text \<open>The events in the order of \<^verbatim>\<open>enum event_id_t\<close>.\<close>

definition all_events :: "event_id list" where
  "all_events = [E_RESOLVER, E_TLSDATE, E_TLSDATE_STATUS, E_TLSDATE_TIMEOUT, E_SAVE, E_SIGCHLD, E_SIGTERM,
     E_STEADYSTATE, E_ROUTEUP]"

definition free_event :: "'ev evlib \<Rightarrow> event_id \<Rightarrow> 'ev state \<Rightarrow> 'ev state" where
  "free_event L i s =
     (case events s i of
        None \<Rightarrow> s
      | Some h \<Rightarrow>
          (let fd = event_get_fd L h (base s);
               s1 = (if 0 \<le> fd \<and> EV_SIGNAL \<notin> event_get_events L h (base s) then emit (Close_Fd fd) s else s)
           in s1\<lparr>base := event_free L h (base s1)\<rparr>))"

text \<open>The state is cleared at the end; what remains is what the process did.\<close>

definition cleanup_main :: "'ev evlib \<Rightarrow> 'ev state \<Rightarrow> effect list" where
  "cleanup_main L s0 =
     (let s1 = fold (free_event L) all_events s0;
          s2 = emit (Close_Fd (tlsdate_monitor_fd s1)) s1;
          s3 = (if tlsdate_pid s2 \<noteq> 0 then emit (Kill (tlsdate_pid s2) SIGKILL) s2 else s2);
          s4 = emit (Close_Fd (setter_save_fd s3)) (emit (Close_Fd (setter_notify_fd s3)) s3);
          s5 = (if setter_pid s4 \<noteq> 0 then emit (Kill (setter_pid s4) SIGKILL) s4 else s4)
      in outs s5)"

section \<open>The event loop\<close>

type_synonym 'ev daemon = "platform_state option \<times> 'ev state"

text \<open>What the environment promises: clocks that count from the epoch, and \<^verbatim>\<open>fork\<close> returning a
  positive process id or -1 to the parent.\<close>

definition inputs_ok :: "inputs \<Rightarrow> bool" where
  "inputs_ok I \<longleftrightarrow> 0 \<le> in_now I"

definition fork_ok :: "pid_t \<Rightarrow> bool" where
  "fork_ok pid \<longleftrightarrow> pid = -1 \<or> 0 < pid"

inductive step :: "build \<Rightarrow> 'ev evlib \<Rightarrow> 'ev daemon \<Rightarrow> 'ev daemon \<Rightarrow> bool" for B L where
  step_kickoff: "inputs_ok I \<Longrightarrow> action_kickoff_time_sync L I s = Inr s' \<Longrightarrow> step B L (ctx, s) (ctx, s')"
| step_invalidate: "inputs_ok I \<Longrightarrow> action_invalidate_time L I s = Inr s' \<Longrightarrow> step B L (ctx, s) (ctx, s')"
| step_run: "fork_ok pid \<Longrightarrow> action_run_tlsdate L pid s = Inr s' \<Longrightarrow> step B L (ctx, s) (ctx, s')"
| step_save: "action_sync_and_save rd ws s = Inr s' \<Longrightarrow> step B L (ctx, s) (ctx, s')"
| step_sigchld: "action_sigchld L ws s = Inr s' \<Longrightarrow> step B L (ctx, s) (ctx, s')"
| step_sigterm: "action_sigterm L tv s = Inr s' \<Longrightarrow> step B L (ctx, s) (ctx, s')"
| step_time_set: "inputs_ok I \<Longrightarrow> action_time_set I fd r s = Inr s' \<Longrightarrow> step B L (ctx, s) (ctx, s')"
| step_timeout: "step B L (ctx, s) (ctx, action_tlsdate_timeout s)"
| step_status: "step B L (ctx, s) (ctx, action_tlsdate_status B L r s)"
| step_stdin: "inputs_ok I \<Longrightarrow> action_stdin_wakeup L I what r s = Inr s' \<Longrightarrow> step B L (ctx, s) (ctx, s')"
| step_netlink: "inputs_ok I \<Longrightarrow> action_netlink_ready L I what en rs s = Some (Inr s') \<Longrightarrow> step B L (ctx, s) (ctx, s')"
| step_method: "inputs_ok I \<Longrightarrow> service_dispatch B L I env m s = Inr (r, s') \<Longrightarrow> step B L (ctx, s) (ctx, s')"
| step_filter: "inputs_ok I \<Longrightarrow> dbus_filter L I self m ctx s = Inr (r, ctx', s') \<Longrightarrow> step B L (Some ctx, s) (Some ctx', s')"
| step_resolve: "action_resolve_proxy L sent ctx s = Inr (ctx', s') \<Longrightarrow> step B L (Some ctx, s) (Some ctx', s')"

definition started :: "build \<Rightarrow> 'ev evlib \<Rightarrow> opts \<Rightarrow> 'ev daemon \<Rightarrow> bool" where
  "started B L o1 = (\<lambda>(ctx, s). \<exists>E path b. 0 < se_setter_pid E \<and> inputs_ok (se_kick E) \<and> tlsdated_main B L E o1 path b = Inr (Loop ctx s))"

end
