(* ===== verification/Daemon_Inv.thy ===== *)
theory Daemon_Inv
  imports Daemon
begin

text \<open>
  The invariant of the event loop and what it gives: every handler keeps it, start-up
  establishes it, and so the interface \<open>invariant_system\<close> is interpreted on the daemon.
\<close>

section \<open>The invariant\<close>

text \<open>Attempts: tries stay within their maximum, and the daemon believes a child is running exactly
  when it knows its process id.\<close>

definition attempts_ok :: "'ev state \<Rightarrow> bool" where
  "attempts_ok s \<longleftrightarrow> 0 \<le> tries s \<and> tries s \<le> max 0 (max_tries (opts s)) \<and>
     (running s \<longleftrightarrow> tlsdate_pid s \<noteq> 0) \<and> 0 \<le> tlsdate_pid s"

text \<open>The backoff never exceeds twice ten minutes, or the configured delay if that is more.\<close>

definition backoff_ok :: "'ev state \<Rightarrow> bool" where
  "backoff_ok s \<longleftrightarrow> unat (backoff s) \<le> max 1198 (unat (word_of_int (wait_between_tries (opts s)) :: uint32))"

text \<open>Time: a network time is sane until shutdown, and so is every positive message to the setter.\<close>

definition time_ok :: "build \<Rightarrow> 'ev state \<Rightarrow> bool" where
  "time_ok B s \<longleftrightarrow>
     last_sync_type s \<in> {SYNC_TYPE_BUILD, SYNC_TYPE_DISK, SYNC_TYPE_RTC, SYNC_TYPE_PLATFORM, SYNC_TYPE_NET} \<and>
     (\<not> exitting s \<longrightarrow> (if last_sync_type s = SYNC_TYPE_NET then is_sane_time B (last_time s) else 0 \<le> last_time s)) \<and>
     (\<forall>t. Pipe_Write t \<in> set (outs s) \<longrightarrow> 0 < t \<longrightarrow> is_sane_time B t \<or> exitting s)"

text \<open>Sources: the list of hosts and ports \<open>H\<close> is fixed, none is ever marked as current, and every
  command line names the first.\<close>

definition names_first :: "(string \<times> string) list \<Rightarrow> string list \<Rightarrow> string list \<Rightarrow> bool" where
  "names_first H argv av \<longleftrightarrow> (\<exists>rest. av = argv @ [''-H'', fst (hd H), ''-p'', snd (hd H)] @ rest)"

definition source_ok :: "(string \<times> string) list \<Rightarrow> string list \<Rightarrow> 'ev state \<Rightarrow> bool" where
  "source_ok H argv s \<longleftrightarrow>
     cur_source (opts s) = None \<and> H \<noteq> [] \<and> map (\<lambda>x. (src_host x, src_port x)) (sources (opts s)) = H \<and>
     base_argv (opts s) = argv \<and>
     (\<forall>pid av. Spawn pid (Some av) \<in> set (outs s) \<longrightarrow> names_first H argv av)"

text \<open>Every event that a handler uses without a check is installed.\<close>

definition events_ok :: "'ev state \<Rightarrow> bool" where
  "events_ok s \<longleftrightarrow> (\<forall>i \<in> {E_TLSDATE, E_TLSDATE_STATUS, E_TLSDATE_TIMEOUT, E_SAVE, E_ROUTEUP}. events s i \<noteq> None)"

definition state_ok :: "build \<Rightarrow> (string \<times> string) list \<Rightarrow> string list \<Rightarrow> 'ev state \<Rightarrow> bool" where
  "state_ok B H argv s \<longleftrightarrow> attempts_ok s \<and> backoff_ok s \<and> time_ok B s \<and> source_ok H argv s \<and> events_ok s"

text \<open>The bus: what a handler never changes, and that one who announces has one.\<close>

definition bus_state :: "'ev state \<Rightarrow> bool \<times> bool" where
  [simp]: "bus_state s = (should_dbus (opts s), dbus s)"

definition bus_ok :: "platform_state option \<Rightarrow> 'ev state \<Rightarrow> bool" where
  "bus_ok ctx s \<longleftrightarrow> (should_dbus (opts s) \<or> ctx \<noteq> None \<longrightarrow> dbus s)"

lemma bus_ok_cong: "bus_state s' = bus_state s \<Longrightarrow> (ctx' = None \<longleftrightarrow> ctx = None) \<Longrightarrow> bus_ok ctx' s' = bus_ok ctx s"
  by (simp add: bus_ok_def)

definition daemon_inv :: "build \<Rightarrow> (string \<times> string) list \<Rightarrow> string list \<Rightarrow> 'ev daemon \<Rightarrow> bool" where
  "daemon_inv B H argv = (\<lambda>(ctx, s). state_ok B H argv s \<and> bus_ok ctx s)"

lemmas ok_defs = state_ok_def attempts_ok_def backoff_ok_def time_ok_def source_ok_def events_ok_def

section \<open>Handlers keep it\<close>

text \<open>The invariant reads the state through these fields only.\<close>

lemma state_ok_cong:
  assumes "opts s' = opts s" "last_sync_type s' = last_sync_type s" "last_time s' = last_time s"
    "tries s' = tries s" "running s' = running s" "tlsdate_pid s' = tlsdate_pid s" "backoff s' = backoff s"
    "exitting s' = exitting s" "outs s' = outs s" "events s' = events s"
  shows "state_ok B H argv s' = state_ok B H argv s"
  using assms by (simp add: ok_defs)

lemma state_ok_trigger [simp]: "state_ok B H argv (trigger_event L i sec s) = state_ok B H argv s"
  by (rule state_ok_cong) simp_all

lemma state_ok_base [simp]: "state_ok B H argv (s\<lparr>base := b\<rparr>) = state_ok B H argv s"
  by (rule state_ok_cong) simp_all

lemma state_ok_resolving [simp]: "state_ok B H argv (s\<lparr>resolving := r\<rparr>) = state_ok B H argv s"
  by (rule state_ok_cong) simp_all

lemma state_ok_clock_delta [simp]: "state_ok B H argv (s\<lparr>clock_delta := d\<rparr>) = state_ok B H argv s"
  by (rule state_ok_cong) simp_all

definition silent :: "effect \<Rightarrow> bool" where
  "silent e \<longleftrightarrow> (\<forall>t. e \<noteq> Pipe_Write t) \<and> (\<forall>p av. e \<noteq> Spawn p av)"

lemma state_ok_emit [simp]: "silent e \<Longrightarrow> state_ok B H argv (emit e s) = state_ok B H argv s"
proof -
  assume e: "silent e"
  have "time_ok B (emit e s) = time_ok B s" and "source_ok H argv (emit e s) = source_ok H argv s"
    using e by (auto simp: time_ok_def source_ok_def silent_def)
  then show ?thesis by (simp add: state_ok_def attempts_ok_def backoff_ok_def events_ok_def)
qed

lemma silent_simps [simp]:
  "silent (Kill p n)" "silent Loopbreak" "silent (Close_Fd fd)" "silent (Announce x)" "silent (Reply_Time c)"
  "silent (Reply_Can b)" "silent (Reply_Info b x t)" "silent (Send_Resolve k)"
  by (simp_all add: silent_def)

lemma state_ok_retry [simp]: "state_ok B H argv s \<Longrightarrow> state_ok B H argv (retry_tlsdate L s)"
proof -
  assume ok: "state_ok B H argv s"
  have "unat (backoff s * 2) \<le> 1198" if "backoff s < MAX_SANE_BACKOFF"
    using that by (simp add: MAX_SANE_BACKOFF_def word_less_nat_alt unat_word_ariths)
  then have "backoff_ok (retry_tlsdate L s)"
    using ok by (auto simp: state_ok_def backoff_ok_def retry_tlsdate_backoff)
  then show ?thesis using ok by (simp add: ok_defs)
qed

lemma state_ok_invalidate:
  "state_ok B H argv s \<Longrightarrow> 0 \<le> now \<Longrightarrow> state_ok B H argv (invalidate_time now s)"
  by (simp add: ok_defs invalidate_time_def)

lemma state_ok_fewer_tries:
  "state_ok B H argv s \<Longrightarrow> 0 < tries s \<Longrightarrow> state_ok B H argv (s\<lparr>tries := tries s - 1\<rparr>)"
  by (simp add: ok_defs)

lemma detect_desync_ok:
  "state_ok B H argv s \<Longrightarrow> inputs_ok I \<Longrightarrow> detect_desync I s = Inr (j, s') \<Longrightarrow> state_ok B H argv s'"
  by (auto simp: detect_desync_def inputs_ok_def intro: state_ok_invalidate split: if_splits)

lemma kickoff_ok:
  assumes "state_ok B H argv s" and "inputs_ok I" and "action_kickoff_time_sync L I s = Inr s'"
  shows "state_ok B H argv s'"
proof -
  obtain j s1 where d: "detect_desync I s = Inr (j, s1)"
    using assms(3) by (auto simp: action_kickoff_time_sync_def)
  have "state_ok B H argv s1" using detect_desync_ok assms(1,2) d by blast
  then show ?thesis
    using assms(3) d by (auto simp: action_kickoff_time_sync_def state_ok_fewer_tries split: if_splits)
qed

lemma detect_desync_dbus: "detect_desync I s = Inr (j, s') \<Longrightarrow> bus_state s' = bus_state s"
  by (auto simp: detect_desync_def invalidate_time_def split: if_splits)

lemma kickoff_dbus:
  assumes "action_kickoff_time_sync L I s = Inr s'"
  shows "bus_state s' = bus_state s"
proof -
  obtain j s1 where d: "detect_desync I s = Inr (j, s1)"
    using assms by (auto simp: action_kickoff_time_sync_def)
  then have "bus_state s' = bus_state s1"
    using assms by (auto simp: action_kickoff_time_sync_def split: if_splits)
  with detect_desync_dbus [OF d] show ?thesis by simp
qed

lemma invalidate_ok:
  "state_ok B H argv s \<Longrightarrow> inputs_ok I \<Longrightarrow> action_invalidate_time L I s = Inr s' \<Longrightarrow> state_ok B H argv s'"
  by (auto simp: action_invalidate_time_def inputs_ok_def split: if_splits
      intro: kickoff_ok state_ok_invalidate)

lemma names_first_child:
  assumes "source_ok H argv s" and "child_argv (opts s) = Some av"
  shows "names_first H argv av"
proof -
  have "sources (opts s) \<noteq> []" and hd: "hd H = (src_host (sources (opts s) ! 0), src_port (sources (opts s) ! 0))"
    using assms(1) by (cases "sources (opts s)"; auto simp: source_ok_def)+
  then show ?thesis
    using assms
    by (auto simp: names_first_def source_ok_def child_argv_def tlsdate_child_def build_argv_def next_source_def
        Let_def split: if_splits)
qed

text \<open>The three ways the state changes around an attempt.\<close>

lemma state_ok_reset_backoff:
  "state_ok B H argv s \<Longrightarrow> 0 \<le> n \<Longrightarrow> n \<le> tries s \<Longrightarrow>
     state_ok B H argv (s\<lparr>tries := n, backoff := word_of_int (wait_between_tries (opts s))\<rparr>)"
  by (simp add: ok_defs)

lemma state_ok_spawned:
  assumes "state_ok B H argv s" and "\<not> running s" and "tries s < max_tries (opts s)" and "0 < pid"
  shows "state_ok B H argv (emit (Spawn pid (child_argv (opts s))) (s\<lparr>tries := tries s + 1, running := True, tlsdate_pid := pid\<rparr>))"
proof -
  have "names_first H argv av" if "child_argv (opts s) = Some av" for av
    using that assms(1) by (intro names_first_child) (simp_all add: state_ok_def)
  then have "source_ok H argv (emit (Spawn pid (child_argv (opts s))) s)"
    using assms(1) by (auto simp: state_ok_def source_ok_def)
  then show ?thesis using assms by (simp add: ok_defs)
qed

lemma state_ok_not_spawned:
  "state_ok B H argv s \<Longrightarrow> \<not> running s \<Longrightarrow> state_ok B H argv (s\<lparr>tries := 0, running := False\<rparr>)"
  by (simp add: ok_defs)

lemma run_tlsdate_ok:
  assumes ok: "state_ok B H argv s" and "fork_ok pid" and run: "action_run_tlsdate L pid s = Inr s'"
  shows "state_ok B H argv s'"
proof -
  let ?s = "s\<lparr>resolving := False\<rparr>"
  have ok1: "state_ok B H argv ?s" using ok by simp
  have tr: "0 \<le> tries s" using ok by (simp add: ok_defs)
  consider "last_sync_type s = SYNC_TYPE_NET \<or> running s \<or> \<not> tries s < max_tries (opts s)"
    | "last_sync_type s \<noteq> SYNC_TYPE_NET" "\<not> running s" "tries s < max_tries (opts s)" "pid = -1"
    | "last_sync_type s \<noteq> SYNC_TYPE_NET" "\<not> running s" "tries s < max_tries (opts s)" "pid \<noteq> -1" "0 < pid"
    using assms(2) by (auto simp: fork_ok_def)
  then show ?thesis
  proof cases
    case 1
    let ?b = "word_of_int (wait_between_tries (opts s))"
    have "action_run_tlsdate L pid s =
        Inr (if last_sync_type s = SYNC_TYPE_NET then s
             else if running s then (if 0 < tries s then ?s\<lparr>tries := tries s - 1, backoff := ?b\<rparr> else ?s)
             else ?s\<lparr>tries := 0, backoff := ?b\<rparr>)"
      using 1 by (auto simp: action_run_tlsdate_def Let_def)
    then show ?thesis
      using run ok ok1 tr state_ok_reset_backoff [OF ok1, of 0] state_ok_reset_backoff [OF ok1, of "tries s - 1"]
      by (auto simp del: state_ok_resolving)
  next
    case 2
    let ?s1 = "?s\<lparr>tries := tries s + 1, running := True\<rparr>"
    let ?t = "trigger_event L E_TLSDATE_STATUS (-1) (trigger_event L E_TLSDATE_TIMEOUT (subprocess_wait_between_tries (opts s)) ?s1)"
    have "event_del_id L E_TLSDATE_TIMEOUT (?t\<lparr>running := False, tries := 0\<rparr>) = Inr s'"
      using run 2 by (simp add: action_run_tlsdate_def tlsdate_def Let_def del: event_del_id_eq_Inr)
    then obtain b where "s' = ?t\<lparr>running := False, tries := 0, base := b\<rparr>"
      by auto
    moreover have "state_ok B H argv (?t\<lparr>running := False, tries := 0, base := b\<rparr>) =
        state_ok B H argv (?s\<lparr>tries := 0, running := False\<rparr>)"
      by (rule state_ok_cong) simp_all
    ultimately show ?thesis using state_ok_not_spawned [OF ok1] 2 by simp
  next
    case 3
    let ?s1 = "?s\<lparr>tries := tries s + 1, running := True\<rparr>"
    let ?t = "trigger_event L E_TLSDATE_STATUS (-1) (trigger_event L E_TLSDATE_TIMEOUT (subprocess_wait_between_tries (opts s)) ?s1)"
    have "s' = emit (Spawn pid (child_argv (opts s))) (?t\<lparr>tlsdate_pid := pid\<rparr>)"
      using run 3 by (simp add: action_run_tlsdate_def tlsdate_def Let_def)
    moreover have "state_ok B H argv (emit (Spawn pid (child_argv (opts s))) (?t\<lparr>tlsdate_pid := pid\<rparr>)) =
        state_ok B H argv (emit (Spawn pid (child_argv (opts s))) (?s1\<lparr>tlsdate_pid := pid\<rparr>))"
      by (rule state_ok_cong) simp_all
    ultimately show ?thesis using state_ok_spawned [OF ok1, of pid] 3 by simp
  qed
qed

lemma state_ok_pipe_write:
  assumes "state_ok B H argv s"
  shows "state_ok B H argv (emit (Pipe_Write (if last_sync_type s \<noteq> SYNC_TYPE_NET then - last_time s else last_time s)) s)"
proof -
  let ?t = "if last_sync_type s \<noteq> SYNC_TYPE_NET then - last_time s else last_time s"
  have "time_ok B (emit (Pipe_Write ?t) s)"
    using assms by (auto simp: state_ok_def time_ok_def)
  then show ?thesis
    using assms by (simp add: state_ok_def source_ok_def attempts_ok_def backoff_ok_def events_ok_def)
qed

lemma state_ok_exitting_time:
  "state_ok B H argv s \<Longrightarrow> exitting s \<Longrightarrow> state_ok B H argv (s\<lparr>last_time := t\<rparr>)"
  by (simp add: ok_defs)

lemma sync_and_save_cases:
  assumes "action_sync_and_save rd ws s = Inr s'"
  obtains "s' = s"
  | t where "t = (if last_sync_type s \<noteq> SYNC_TYPE_NET then - last_time s else last_time s)"
      "s' = emit (Pipe_Write t) s"
  | t where "t = (if last_sync_type s \<noteq> SYNC_TYPE_NET then - last_time s else last_time s)"
      "exitting s" "last_time s \<noteq> 0"
      "action_sync_and_save rd (\<lambda>k. ws (Suc k)) ((emit (Pipe_Write t) s)\<lparr>last_time := 0\<rparr>) = Inr s'"
  using assms
  by (subst (asm) action_sync_and_save.simps) (simp add: Let_def split: write_res.splits if_splits)

lemma sync_and_save_ok:
  assumes "state_ok B H argv s" and "action_sync_and_save rd ws s = Inr s'"
  shows "state_ok B H argv s'"
proof -
  have zero: "state_ok B H argv s2"
    if "state_ok B H argv s1" "last_time s1 = 0" "action_sync_and_save rd ws1 s1 = Inr s2" for s1 s2 :: "'a state" and ws1
    using that(3)
  proof (cases rule: sync_and_save_cases)
    case (2 t)
    then show ?thesis using state_ok_pipe_write [OF that(1)] by simp
  qed (use that in simp_all)
  show ?thesis
    using assms(2)
  proof (cases rule: sync_and_save_cases)
    case 1
    then show ?thesis using assms(1) by simp
  next
    case (2 t)
    then show ?thesis using state_ok_pipe_write [OF assms(1)] by simp
  next
    case (3 t)
    then have "state_ok B H argv ((emit (Pipe_Write t) s)\<lparr>last_time := 0\<rparr>)"
      using state_ok_pipe_write [OF assms(1)] by (intro state_ok_exitting_time) simp_all
    then show ?thesis by (rule zero [OF _ _ 3(4)]) simp
  qed
qed

lemma child_death_cases:
  assumes "handle_child_death L w s = Inr (d, s')"
  obtains "s' = s"
  | info where "s' = emit Loopbreak (report_setter_error info s)"
  | b where "s' = s\<lparr>base := b, running := False, tlsdate_pid := 0\<rparr>"
  | b where "s' = retry_tlsdate L (s\<lparr>base := b, running := False, tlsdate_pid := 0\<rparr>)"
proof (cases w)
  case (Wait_Err e)
  then show ?thesis using assms that(1) by (simp add: handle_child_death_def)
next
  case (Wait_Ok info)
  consider "si_pid info = 0 \<or> si_pid info \<noteq> tlsdate_pid s \<and> si_pid info \<noteq> setter_pid s"
    | "si_pid info \<noteq> 0" "si_pid info = setter_pid s"
    | "si_pid info \<noteq> 0" "si_pid info \<noteq> setter_pid s" "si_pid info = tlsdate_pid s"
    by blast
  then show ?thesis
  proof cases
    case 1
    then have "s' = s" using assms Wait_Ok by (elim disjE conjE) (simp_all add: handle_child_death_def split: if_splits)
    then show ?thesis by (rule that(1))
  next
    case 2
    then have "s' = emit Loopbreak (report_setter_error info s)"
      using assms Wait_Ok by (simp add: handle_child_death_def)
    then show ?thesis by (rule that(2))
  next
    case 3
    then obtain h where "s' = (if si_status info = 0 then s\<lparr>base := event_del L h (base s), running := False, tlsdate_pid := 0\<rparr>
        else retry_tlsdate L (s\<lparr>base := event_del L h (base s), running := False, tlsdate_pid := 0\<rparr>))"
      using assms handle_child_death_tlsdate [OF 3, of L] Wait_Ok by auto
    then show ?thesis by (cases "si_status info = 0") (simp_all, (erule that)+)
  qed
qed

lemma child_death_ok:
  assumes "state_ok B H argv s" and "handle_child_death L w s = Inr (d, s')"
  shows "state_ok B H argv s'"
proof -
  have "state_ok B H argv (s\<lparr>base := b, running := False, tlsdate_pid := 0\<rparr>)" for b
    using assms(1) by (simp add: ok_defs)
  then show ?thesis
    using assms by (elim child_death_cases) (simp_all add: report_setter_error_def)
qed

lemma child_stop_ok:
  "state_ok B H argv s \<Longrightarrow> handle_child_stop w e s = Inr (d, s') \<Longrightarrow> state_ok B H argv s'"
  by (auto simp: handle_child_stop_def split: wait_res.splits if_splits)

lemma reap_child_ok:
  "state_ok B H argv s \<Longrightarrow> reap_child L ws s = Inr (d, ws', s') \<Longrightarrow> state_ok B H argv s'"
  by (auto simp: reap_child_def split: if_splits dest: child_death_ok child_stop_ok)

lemma sigchld_loop_ok:
  "state_ok B H argv s \<Longrightarrow> sigchld_loop L ws s = Inr s' \<Longrightarrow> state_ok B H argv s'"
proof (induction L ws s arbitrary: s' rule: sigchld_loop.induct)
  case (1 L ws s)
  then obtain d ws1 s1 where r: "reap_child L ws s = Inr (d, ws1, s1)"
    by (subst (asm) (2) sigchld_loop.simps) (auto split: sum.splits)
  have ok: "state_ok B H argv s1" using 1(2) r by (rule reap_child_ok)
  show ?case
  proof (cases d)
    case True
    then have "sigchld_loop L ws1 s1 = Inr s'"
      using 1(3) r by (subst (asm) sigchld_loop.simps) simp
    then show ?thesis using 1(1) [of "(d, ws1, s1)" d "(ws1, s1)" ws1 s1] r True ok by simp
  next
    case False
    then show ?thesis using 1(3) r ok by (subst (asm) sigchld_loop.simps) simp
  qed
qed

lemma sigchld_ok: "state_ok B H argv s \<Longrightarrow> action_sigchld L ws s = Inr s' \<Longrightarrow> state_ok B H argv s'"
  by (auto simp: action_sigchld_def dest: reap_child_ok sigchld_loop_ok)

lemma sigterm_ok: "state_ok B H argv s \<Longrightarrow> action_sigterm L tv s = Inr s' \<Longrightarrow> state_ok B H argv s'"
proof -
  assume ok: "state_ok B H argv s" and "action_sigterm L tv s = Inr s'"
  then obtain t where "s' = trigger_event L E_SAVE (-1) (s\<lparr>exitting := True, last_time := t\<rparr>)"
    by (auto simp: action_sigterm_def split: option.splits)
  moreover have "state_ok B H argv (s\<lparr>exitting := True, last_time := t\<rparr>)"
    using ok by (simp add: state_ok_def source_ok_def attempts_ok_def backoff_ok_def events_ok_def time_ok_def)
  ultimately show ?thesis by simp
qed

lemma announce_state:
  assumes "dbus_announce x s = Inr s'"
  shows "state_ok B H argv s' = state_ok B H argv s" "bus_state s' = bus_state s"
  using assms by (auto simp: dbus_announce_def split: prod.splits if_splits)

lemma time_setter_ok:
  assumes "state_ok B H argv s" and "inputs_ok I" and "handle_time_setter I status s = Inr s'"
  shows "state_ok B H argv s'"
proof -
  have "state_ok B H argv (s\<lparr>clock_delta := d, opts := (opts s)\<lparr>cur_source := None\<rparr>\<rparr>)" for d
    using assms(1) by (simp add: state_ok_def source_ok_def attempts_ok_def backoff_ok_def events_ok_def time_ok_def)
  moreover have "state_ok B H argv (s\<lparr>last_sync_type := SYNC_TYPE_RTC, last_time := in_now I\<rparr>)"
    using state_ok_invalidate [of B H argv s "in_now I"] assms(1,2) by (simp add: invalidate_time_def inputs_ok_def)
  ultimately show ?thesis
    using assms(1,3) by (auto simp: handle_time_setter_def Let_def announce_state split: if_splits)
qed

lemma time_set_ok:
  assumes "state_ok B H argv s" and "inputs_ok I" and "action_time_set I fd r s = Inr s'"
  shows "state_ok B H argv s'"
  using assms by (auto simp: action_time_set_def intro: time_setter_ok split: read_res.splits if_splits)

lemma timeout_ok: "state_ok B H argv s \<Longrightarrow> state_ok B H argv (action_tlsdate_timeout s)"
  by (simp add: action_tlsdate_timeout_def)

lemma status_ok: "state_ok B H argv s \<Longrightarrow> state_ok B H argv (action_tlsdate_status B L r s)"
proof -
  assume ok: "state_ok B H argv s"
  have "state_ok B H argv (s1\<lparr>tries := 0, backoff := word_of_int (wait_between_tries (opts s1))\<rparr>)"
    if "state_ok B H argv s1" for s1 :: "'a state"
    using that by (intro state_ok_reset_backoff) (simp_all add: ok_defs)
  moreover have "state_ok B H argv (s\<lparr>last_sync_type := SYNC_TYPE_NET, last_time := t\<rparr>)" if "is_sane_time B t" for t
    using ok that by (simp add: ok_defs)
  ultimately show ?thesis using ok by (auto simp: action_tlsdate_status_def Let_def split: prod.splits)
qed

lemma stdin_ok:
  "state_ok B H argv s \<Longrightarrow> inputs_ok I \<Longrightarrow> action_stdin_wakeup L I what r s = Inr s' \<Longrightarrow> state_ok B H argv s'"
  by (auto simp: action_stdin_wakeup_def split: read_res.splits if_splits intro: kickoff_ok)

lemma netlink_ok:
  "state_ok B H argv s \<Longrightarrow> inputs_ok I \<Longrightarrow> action_netlink_ready L I what en rs s = Some (Inr s') \<Longrightarrow> state_ok B H argv s'"
  by (auto simp: action_netlink_ready_def split: if_splits intro: kickoff_ok)

lemma state_ok_reply [simp]:
  "silent e \<Longrightarrow> state_ok B H argv (snd (send_reply n env e s)) = state_ok B H argv s"
  by (simp add: send_reply_state)

lemma dbus_reply [simp]: "dbus (snd (send_reply n env e s)) = dbus s" "should_dbus (opts (snd (send_reply n env e s))) = should_dbus (opts s)"
  by (simp_all add: send_reply_state)

lemma can_set_time_ok:
  "state_ok B H argv s \<Longrightarrow> inputs_ok I \<Longrightarrow> state_ok B H argv (snd (can_set_time I s))"
  by (simp add: can_set_time_def inputs_ok_def Let_def state_ok_invalidate)

lemma can_set_time_dbus [simp]: "dbus (snd (can_set_time I s)) = dbus s" "should_dbus (opts (snd (can_set_time I s))) = should_dbus (opts s)"
  by (simp_all add: can_set_time_def invalidate_time_def Let_def)

lemma handle_set_time_cases:
  assumes "handle_set_time B L I env m s = Inr (r, s')"
  obtains code where "s' = snd (send_time_reply env code s)"
  | code where "s' = snd (send_time_reply env code (snd (can_set_time I s)))"
  | t s2 where "is_sane_time B t"
      "action_kickoff_time_sync L I (trigger_event L E_SAVE (-1)
         ((snd (can_set_time I s))\<lparr>last_time := t, last_sync_type := SYNC_TYPE_PLATFORM\<rparr>)) = Inr s2"
      "s' = snd (send_time_reply env SET_TIME_OK s2)"
  using assms
  by (auto simp: handle_set_time_def split: list.splits dbus_arg.splits if_splits prod.splits) (metis snd_conv)+

lemma handle_set_time_ok:
  assumes "state_ok B H argv s" and "inputs_ok I" and "0 \<le> RECENT_COMPILE_DATE B"
    and "handle_set_time B L I env m s = Inr (r, s')"
  shows "state_ok B H argv s' \<and> bus_state s' = bus_state s"
  using assms(4)
proof (cases rule: handle_set_time_cases)
  case (1 code)
  then show ?thesis using assms(1) by (simp add: send_time_reply_def)
next
  case (2 code)
  then show ?thesis using can_set_time_ok [OF assms(1,2)] by (simp add: send_time_reply_def)
next
  case (3 t s2)
  let ?s = "(snd (can_set_time I s))\<lparr>last_time := t, last_sync_type := SYNC_TYPE_PLATFORM\<rparr>"
  have "state_ok B H argv ?s"
    using can_set_time_ok [OF assms(1,2)] 3(1) assms(3)
    by (simp add: state_ok_def source_ok_def attempts_ok_def backoff_ok_def events_ok_def time_ok_def is_sane_time_def)
  then have "state_ok B H argv s2" using kickoff_ok [OF _ assms(2) 3(2)] by simp
  then show ?thesis using 3(3) kickoff_dbus [OF 3(2)] by (simp add: send_time_reply_def)
qed

lemma dispatch_ok:
  assumes "state_ok B H argv s" and "inputs_ok I" and "0 \<le> RECENT_COMPILE_DATE B"
    and "service_dispatch B L I env m s = Inr (r, s')"
  shows "state_ok B H argv s' \<and> bus_state s' = bus_state s"
proof -
  consider "s' = s" | "handle_set_time B L I env m s = Inr (r, s')"
    | "s' = snd (handle_can_set_time I env s)" | "s' = snd (handle_last_sync_info env s)"
    using assms(4)
    by (simp add: service_dispatch_def split: if_splits option.splits)
  then show ?thesis
  proof cases
    case 2
    then show ?thesis by (rule handle_set_time_ok [OF assms(1-3)])
  next
    case 3
    then have "s' = snd (send_can_reply env (fst (can_set_time I s)) (snd (can_set_time I s)))"
      by (simp add: handle_can_set_time_def split_beta Let_def)
    then show ?thesis using can_set_time_ok [OF assms(1,2)] by (simp add: send_can_reply_def)
  qed (use assms(1) in \<open>simp_all add: handle_last_sync_info_def\<close>)
qed

lemma state_ok_dynamic [simp]:
  "state_ok B H argv s \<Longrightarrow> state_ok B H argv (write_dynamic_proxy ctx p s)"
proof -
  assume ok: "state_ok B H argv s"
  have srcs: "map (\<lambda>x. (src_host x, src_port x)) (sources (opts (write_dynamic_proxy ctx p s))) =
      map (\<lambda>x. (src_host x, src_port x)) (sources (opts s))"
    by (simp add: write_dynamic_proxy_def)
  have "source_ok H argv (write_dynamic_proxy ctx p s)"
    using ok srcs by (simp add: state_ok_def source_ok_def) (simp add: write_dynamic_proxy_def)
  then show ?thesis
    using ok by (simp add: write_dynamic_proxy_def state_ok_def attempts_ok_def backoff_ok_def events_ok_def time_ok_def)
qed

lemma dbus_dynamic [simp]: "dbus (write_dynamic_proxy ctx p s) = dbus s" "should_dbus (opts (write_dynamic_proxy ctx p s)) = should_dbus (opts s)"
  by (simp_all add: write_dynamic_proxy_def)

lemma kickoff_wakeups_ok:
  assumes "state_ok B H argv s" and "inputs_ok I"
    and "handle_service_change L I m s = Inr s' \<or> handle_manager_change L I m s = Inr s' \<or>
      handle_dbus_change L I m s = Inr s' \<or> handle_suspend_done L I s = Inr s'"
  shows "state_ok B H argv s' \<and> bus_state s' = bus_state s"
proof -
  have "s' = s \<or> action_kickoff_time_sync L I s = Inr s'"
    using assms(3)
    by (elim disjE) (auto simp: handle_service_change_def handle_manager_change_def handle_dbus_change_def
        handle_suspend_done_def split: option.splits list.splits dbus_arg.splits if_splits)
  then show ?thesis using kickoff_ok [OF assms(1,2)] kickoff_dbus assms(1) by blast
qed

lemma proxy_change_ok:
  "state_ok B H argv s \<Longrightarrow> handle_proxy_change L m ctx s = Inr s' \<Longrightarrow> state_ok B H argv s' \<and> bus_state s' = bus_state s"
  by (auto simp: handle_proxy_change_def split: if_splits list.splits dbus_arg.splits)

lemma filter_ok:
  assumes "state_ok B H argv s" and "inputs_ok I" and "dbus_filter L I self m ctx s = Inr (r, ctx', s')"
  shows "state_ok B H argv s' \<and> bus_state s' = bus_state s"
proof -
  consider "s' = s \<or> s' = emit (Kill self 2) s \<or> s' = trigger_event L E_TLSDATE 1 (s\<lparr>resolving := False\<rparr>)"
    | "handle_service_change L I m s = Inr s' \<or> handle_manager_change L I m s = Inr s' \<or>
      handle_dbus_change L I m s = Inr s' \<or> handle_suspend_done L I s = Inr s'"
    | "handle_proxy_change L m ctx s = Inr s'"
    using assms(3) by (simp add: dbus_filter_def Let_def split: if_splits) blast+
  then show ?thesis
  proof cases
    case 1
    then show ?thesis using assms(1) by auto
  next
    case 2
    then show ?thesis by (rule kickoff_wakeups_ok [OF assms(1,2)])
  next
    case 3
    then show ?thesis by (rule proxy_change_ok [OF assms(1)])
  qed
qed

lemma resolve_ok:
  "state_ok B H argv s \<Longrightarrow> action_resolve_proxy L sent ctx s = Inr (ctx', s') \<Longrightarrow> state_ok B H argv s' \<and> bus_state s' = bus_state s"
  by (auto simp: action_resolve_proxy_def Let_def split: if_splits option.splits)

section \<open>Start-up establishes it\<close>

text \<open>What setting up an event, or closing a descriptor, leaves alone.\<close>

definition same_core :: "'ev state \<Rightarrow> 'ev state \<Rightarrow> bool" where
  "same_core s s' \<longleftrightarrow>
     opts s' = opts s \<and> last_sync_type s' = last_sync_type s \<and> last_time s' = last_time s \<and> tries s' = tries s \<and>
     running s' = running s \<and> tlsdate_pid s' = tlsdate_pid s \<and> backoff s' = backoff s \<and> exitting s' = exitting s \<and>
     filter (\<lambda>e. \<not> silent e) (outs s') = filter (\<lambda>e. \<not> silent e) (outs s) \<and> bus_state s' = bus_state s \<and>
     timestamp_path s' = timestamp_path s \<and> (\<forall>i. events s i \<noteq> None \<longrightarrow> events s' i \<noteq> None)"

lemma same_core_refl [simp]: "same_core s s"
  by (simp add: same_core_def)

lemma same_core_trans: "same_core s s1 \<Longrightarrow> same_core s1 s2 \<Longrightarrow> same_core s s2"
  by (simp add: same_core_def)

lemma install_event_core:
  "install_event L i fd fl cb pri s = (True, s') \<Longrightarrow> same_core s s' \<and> events s' i \<noteq> None"
  by (auto simp: install_event_def same_core_def split: prod.splits option.splits)

lemma add_event_core: "add_event L i tv s = (r, s') \<Longrightarrow> same_core s s'"
  by (auto simp: add_event_def same_core_def Let_def split: prod.splits option.splits)

lemma anonymous_event_core: "anonymous_event L fd fl cb pri tv s = (r, s') \<Longrightarrow> same_core s s'"
  by (auto simp: anonymous_event_def same_core_def Let_def split: prod.splits option.splits)

lemma emit_core: "silent e \<Longrightarrow> same_core s (emit e s)"
  by (simp add: same_core_def)

lemma close_all_core: "same_core s (close_all fds s)"
proof (induction fds arbitrary: s)
  case (Cons fd fds)
  have "same_core s (emit (Close_Fd fd) s)" by (rule emit_core) simp
  moreover have "same_core (emit (Close_Fd fd) s) (close_all fds (emit (Close_Fd fd) s))" by (rule Cons)
  ultimately show ?case by (simp add: close_all_def same_core_trans [of s "emit (Close_Fd fd) s"])
qed (simp add: close_all_def)

lemma sigchld_event_core: "setup_sigchld_event L persist s = (0, s') \<Longrightarrow> same_core s s'"
proof -
  assume "setup_sigchld_event L persist s = (0, s')"
  then obtain s1 where "install_event L E_SIGCHLD 17 (if persist then {EV_SIGNAL, EV_PERSIST} else {EV_SIGNAL}) CB_sigchld PRI_NET s = (True, s1)"
    and "s' = snd (add_event L E_SIGCHLD None s1)"
    by (simp add: setup_sigchld_event_def split: prod.splits bool.splits)
  then show ?thesis using install_event_core add_event_core same_core_trans by (metis prod.collapse)
qed

lemma time_setter_core:
  assumes "setup_time_setter L to_fds from_fds nb1 nb2 pid s = (0, s')"
  shows "same_core s s'"
proof -
  obtain to0 to1 from0 from1 where "to_fds = Some (to0, to1)" "from_fds = Some (from0, from1)"
    using assms by (auto simp: setup_time_setter_def split: option.splits)
  moreover obtain r s2 where e: "anonymous_event L from0 {EV_READ, EV_PERSIST} CB_time_set PRI_NET None
      (s\<lparr>setter_save_fd := to1, setter_notify_fd := from0\<rparr>) = (r, s2)"
    by (cases "anonymous_event L from0 {EV_READ, EV_PERSIST} CB_time_set PRI_NET None
      (s\<lparr>setter_save_fd := to1, setter_notify_fd := from0\<rparr>)") auto
  ultimately have s': "s' = close_all [from1, to0] (s2\<lparr>setter_pid := pid\<rparr>)"
    using assms by (auto simp: setup_time_setter_def Let_def split: if_splits option.splits)
  have "same_core (s\<lparr>setter_save_fd := to1, setter_notify_fd := from0\<rparr>) s2"
    using e by (rule anonymous_event_core)
  then have "same_core s (s2\<lparr>setter_pid := pid\<rparr>)" by (simp add: same_core_def)
  then show ?thesis unfolding s' using close_all_core same_core_trans by blast
qed

lemma tlsdate_status_core:
  assumes "setup_tlsdate_status L fds nb s = (0, s')"
  shows "same_core s s' \<and> events s' E_TLSDATE_STATUS \<noteq> None \<and> events s' E_TLSDATE_TIMEOUT \<noteq> None"
proof -
  obtain fd0 fd1 where fds: "fds = Some (fd0, fd1)"
    using assms by (cases fds) (auto simp: setup_tlsdate_status_def)
  let ?s = "s\<lparr>tlsdate_monitor_fd := fd1\<rparr>"
  obtain s2 where 2: "install_event L E_TLSDATE_STATUS fd0 {EV_READ} CB_tlsdate_status PRI_NET ?s = (True, s2)"
    and 3: "install_event L E_TLSDATE_TIMEOUT (-1) {EV_TIMEOUT} CB_tlsdate_timeout PRI_SAVE s2 = (True, s')"
    using assms by (auto simp: setup_tlsdate_status_def fds Let_def split: if_splits prod.splits bool.splits)
  from install_event_core [OF 2] install_event_core [OF 3]
  show ?thesis by (auto simp: same_core_def)
qed

lemma route_up_core:
  assumes "setup_event_route_up L sock b f s = (0, s')"
  shows "same_core s s' \<and> events s' E_ROUTEUP \<noteq> None"
proof -
  obtain fd h s1 where "install_event L E_ROUTEUP fd {EV_READ, EV_PERSIST} h PRI_WAKE s = (True, s1)"
    and "s' = snd (add_event L E_ROUTEUP None s1)"
    using assms by (auto simp: setup_event_route_up_def split: option.splits prod.splits bool.splits)
  then show ?thesis
    using install_event_core [of L E_ROUTEUP fd _ h PRI_WAKE s s1] add_event_core [of L E_ROUTEUP None s1]
    by (metis prod.collapse same_core_trans same_core_def)
qed

lemma timer_sync_core:
  assumes "setup_event_timer_sync L rnd s = Inr (0, s')"
  shows "same_core s s'"
proof -
  obtain w s1 where "install_event L E_STEADYSTATE (-1) {EV_TIMEOUT, EV_PERSIST} CB_invalidate_time PRI_ANY s = (True, s1)"
    and "add_event L E_STEADYSTATE (Some w) s1 = (0, s')"
    using assms
    by (cases "install_event L E_STEADYSTATE (-1) {EV_TIMEOUT, EV_PERSIST} CB_invalidate_time PRI_ANY s")
       (auto simp: setup_event_timer_sync_def split: bool.splits)
  then show ?thesis using install_event_core add_event_core same_core_trans by blast
qed

lemma timer_continuity_core: "setup_event_timer_continuity L s = (0, s') \<Longrightarrow> same_core s s'"
  by (auto simp: setup_event_timer_continuity_def split: prod.splits option.splits dest: anonymous_event_core)

text \<open>The invariant before the first time is known and the events are registered.\<close>

definition boot_ok :: "(string \<times> string) list \<Rightarrow> string list \<Rightarrow> 'ev state \<Rightarrow> bool" where
  "boot_ok H argv s \<longleftrightarrow> attempts_ok s \<and> backoff_ok s \<and> source_ok H argv s \<and> \<not> exitting s \<and>
     filter (\<lambda>e. \<not> silent e) (outs s) = []"

lemma no_loud_effects:
  "filter (\<lambda>e. \<not> silent e) es = [] \<Longrightarrow> Pipe_Write t \<notin> set es \<and> Spawn p av \<notin> set es"
  by (auto simp: filter_empty_conv silent_def)

lemma boot_ok_core: "same_core s s' \<Longrightarrow> boot_ok H argv s \<Longrightarrow> boot_ok H argv s'"
  by (auto simp: same_core_def boot_ok_def attempts_ok_def backoff_ok_def source_ok_def dest: no_loud_effects)

lemma boot_ok_zero:
  assumes "sources o1 \<noteq> []" and "cur_source o1 = None"
    and "H = map (\<lambda>x. (src_host x, src_port x)) (sources o1)" and "argv = base_argv o1"
  shows "boot_ok H argv ((zero_state o1 b)\<lparr>timestamp_path := path, backoff := word_of_int (wait_between_tries o1)\<rparr>)"
  using assms by (simp add: boot_ok_def attempts_ok_def backoff_ok_def source_ok_def zero_state_def)

lemma boot_ok_hwclock:
  "boot_ok H argv s \<Longrightarrow> boot_ok H argv (s\<lparr>opts := (opts s)\<lparr>should_sync_hwclock := x\<rparr>\<rparr>)"
  by (simp add: boot_ok_def attempts_ok_def backoff_ok_def source_ok_def)

lemma boot_ok_dbus: "boot_ok H argv s \<Longrightarrow> boot_ok H argv (s\<lparr>dbus := x\<rparr>)"
  by (simp add: boot_ok_def attempts_ok_def backoff_ok_def source_ok_def)

lemma start_setter_ok:
  assumes "sources o1 \<noteq> []" and "cur_source o1 = None"
    and "H = map (\<lambda>x. (src_host x, src_port x)) (sources o1)" and "argv = base_argv o1"
    and "start_setter L E o1 path b = (True, s)"
  shows "boot_ok H argv s"
proof -
  let ?s0 = "(zero_state o1 b)\<lparr>timestamp_path := path, backoff := word_of_int (wait_between_tries o1)\<rparr>"
  let ?s1 = "if should_sync_hwclock o1 \<and> \<not> se_rtc E then ?s0\<lparr>opts := o1\<lparr>should_sync_hwclock := False\<rparr>\<rparr> else ?s0"
  have "opts ?s0 = o1" by (simp add: zero_state_def)
  then have "boot_ok H argv ?s1"
    using boot_ok_zero [OF assms(1-4), of path b] boot_ok_hwclock [of H argv ?s0 False] by (simp del: state.simps)
  moreover obtain s2 where 1: "setup_sigchld_event L True ?s1 = (0, s2)"
    and 2: "setup_time_setter L (se_to E) (se_from E) (se_notify_nb E) (se_save_nb E) (se_setter_pid E) s2 = (0, s)"
    using assms(5) by (auto simp: start_setter_def Let_def split: prod.splits if_splits)
  ultimately show ?thesis
    using boot_ok_core [OF sigchld_event_core [OF 1]] boot_ok_core [OF time_setter_core [OF 2]] by blast
qed

text \<open>The time the daemon starts from.\<close>

lemma initial_time_ok:
  assumes "initial_time B load now disk = (ty, t)" and "0 \<le> RECENT_COMPILE_DATE B"
    and "\<forall>d. disk = Some d \<longrightarrow> is_sane_time B d"
  shows "ty \<in> {SYNC_TYPE_BUILD, SYNC_TYPE_DISK, SYNC_TYPE_RTC} \<and> 0 \<le> t \<and>
     (is_sane_time B t \<or> t = RECENT_COMPILE_DATE B + 1)"
  using assms by (auto simp: initial_time_def is_sane_time_def split: option.splits if_splits)

lemma load_disk_timestamp_sane: "load_disk_timestamp B disk path = Some d \<Longrightarrow> is_sane_time B d"
  by (auto simp: load_disk_timestamp_def Let_def split: option.splits if_splits)

definition loaded_ok :: "(string \<times> string) list \<Rightarrow> string list \<Rightarrow> 'ev state \<Rightarrow> bool" where
  "loaded_ok H argv s \<longleftrightarrow> boot_ok H argv s \<and>
     last_sync_type s \<in> {SYNC_TYPE_BUILD, SYNC_TYPE_DISK, SYNC_TYPE_RTC} \<and> 0 \<le> last_time s \<and>
     (\<forall>i \<in> {E_TLSDATE, E_TLSDATE_STATUS, E_TLSDATE_TIMEOUT, E_SAVE}. events s i \<noteq> None)"

lemma loaded_ok_core: "same_core s s' \<Longrightarrow> loaded_ok H argv s \<Longrightarrow> loaded_ok H argv s'"
  using boot_ok_core [of s s' H argv] by (auto simp: loaded_ok_def same_core_def)

lemma loaded_state_ok: "loaded_ok H argv s \<Longrightarrow> events s E_ROUTEUP \<noteq> None \<Longrightarrow> state_ok B H argv s"
  using no_loud_effects [of "outs s"]
  by (auto simp: loaded_ok_def boot_ok_def state_ok_def time_ok_def events_ok_def)

lemma register_sync_ok:
  assumes boot: "boot_ok H argv s" and B: "0 \<le> RECENT_COMPILE_DATE B"
    and reg: "register_sync B L E s = (True, s')"
  shows "loaded_ok H argv s' \<and> bus_state s' = bus_state s"
proof -
  obtain s2 s3 s4 where 2: "install_event L E_TLSDATE (-1) {EV_TIMEOUT} CB_run_tlsdate PRI_NET s = (True, s2)"
    and 3: "setup_tlsdate_status L (se_pipe E) (se_pipe_nb E) s2 = (0, s3)"
    and 4: "install_event L E_SAVE (setter_save_fd s3) {EV_READ, EV_WRITE} CB_sync_and_save PRI_SAVE s3 = (True, s4)"
    using reg by (simp add: register_sync_def Let_def split: prod.splits if_splits)
  obtain ty t where t: "initial_time B (should_load_disk (opts s4)) (se_now E)
      (load_disk_timestamp B (se_disk E) (timestamp_path s4)) = (ty, t)"
    by (cases "initial_time B (should_load_disk (opts s4)) (se_now E)
      (load_disk_timestamp B (se_disk E) (timestamp_path s4))")
  have s': "s' = trigger_event L E_SAVE (-1) (s4\<lparr>last_sync_type := ty, last_time := t\<rparr>)"
    using reg 2 3 4 t by (simp add: register_sync_def)
  note c2 = install_event_core [OF 2] and c3 = tlsdate_status_core [OF 3] and c4 = install_event_core [OF 4]
  have core: "same_core s s4"
    using c2 c3 c4 same_core_trans by blast
  have ev: "\<forall>i \<in> {E_TLSDATE, E_TLSDATE_STATUS, E_TLSDATE_TIMEOUT, E_SAVE}. events s4 i \<noteq> None"
    using c2 c3 c4 by (auto simp: same_core_def)
  have ty: "ty \<in> {SYNC_TYPE_BUILD, SYNC_TYPE_DISK, SYNC_TYPE_RTC} \<and> 0 \<le> t"
    using initial_time_ok [OF t B] load_disk_timestamp_sane by blast
  have "boot_ok H argv s'"
    using boot_ok_core [OF core boot] by (simp add: s' boot_ok_def attempts_ok_def backoff_ok_def source_ok_def)
  moreover have "bus_state s4 = bus_state s" using core by (simp add: same_core_def)
  ultimately show ?thesis
    using ev ty by (simp add: loaded_ok_def s')
qed

lemma register_events_ok:
  assumes boot: "boot_ok H argv s" and B: "0 \<le> RECENT_COMPILE_DATE B"
    and reg: "register_events B L E s = Inr (True, s')"
  shows "loaded_ok H argv s' \<and> bus_ok None s'"
proof -
  obtain s1 where 1: "register_sigterm L s = Inr s1"
    and r: "register_sync B L E (if should_dbus (opts s1) then s1\<lparr>dbus := True\<rparr> else s1) = (True, s')"
    using reg init_dbus_ok [of "se_dbus E"] by (auto simp: register_events_def split: if_splits)
  have "same_core s s1"
    using 1 by (auto simp: register_sigterm_def split: if_splits prod.splits option.splits dest: anonymous_event_core)
  then have "boot_ok H argv (if should_dbus (opts s1) then s1\<lparr>dbus := True\<rparr> else s1)"
    using boot boot_ok_core boot_ok_dbus by (metis (full_types))
  from register_sync_ok [OF this B r] show ?thesis by (simp add: bus_ok_def split: if_splits)
qed

text \<open>The platform redirects proxies, not hosts.\<close>

lemma init_sources_hosts:
  "init_sources a b n tab srcs = Inr (srcs', tab') \<Longrightarrow>
     map (\<lambda>x. (src_host x, src_port x)) srcs' = map (\<lambda>x. (src_host x, src_port x)) srcs"
  by (induction srcs arbitrary: tab srcs' tab') (auto split: if_splits)

lemma init_cros_ok:
  assumes "loaded_ok H argv s" and "platform_init_cros L ce s = Inr (0, ctx, s')"
  shows "loaded_ok H argv s' \<and> dbus s'"
proof -
  obtain srcs tab where src: "init_sources (ce_msg_new ce) (ce_msg_append ce) (length (sources (opts s))) (\<lambda>_. False)
      (sources (opts s)) = Inr (srcs, tab)"
    and d: "dbus s"
    using assms(2) by (auto simp: platform_init_cros_def Let_def split: if_splits)
  let ?s1 = "s\<lparr>dynamic_proxy := '''', opts := (opts s)\<lparr>sources := srcs,
      opt_proxy := (if opt_proxy (opts s) = Some ''dynamic'' then Some '''' else opt_proxy (opts s))\<rparr>\<rparr>"
  have ok: "loaded_ok H argv ?s1"
    using assms(1) init_sources_hosts [OF src]
    by (simp add: loaded_ok_def boot_ok_def attempts_ok_def backoff_ok_def source_ok_def)
  have "s' = ?s1 \<or> install_event L E_RESOLVER (-1) {EV_TIMEOUT} CB_resolve_proxy PRI_NET ?s1 = (True, s')"
    using assms(2) src
    by (auto simp: platform_init_cros_def Let_def split: if_splits prod.splits bool.splits)
  then have "same_core ?s1 s'" using install_event_core [of L E_RESOLVER] by (metis same_core_refl)
  moreover from this have "dbus s'" using d by (simp add: same_core_def)
  ultimately show ?thesis using loaded_ok_core [OF _ ok] by blast
qed

lemma start_loop_ok:
  assumes "loaded_ok H argv s" and "bus_ok None s" and "inputs_ok (se_kick E)" and "start_loop L E s = Inr (Loop ctx s')"
  shows "daemon_inv B H argv (ctx, s')"
proof -
  obtain r1 s1 where 1: "(case se_cros E of None \<Rightarrow> Inr (0, None, s) | Some ce \<Rightarrow> platform_init_cros L ce s) = Inr (r1, ctx, s1)"
    and rest: "r1 = 0" "(let (r2, s2) = setup_event_route_up L (se_sock E) (se_bind E) (se_fcntl E) s1
            in if r2 \<noteq> 0 then Inr (Out s2)
               else bind_res (setup_event_timer_sync L (se_rand E) s2) (\<lambda>(r3, s3).
                 if r3 \<noteq> 0 then Inr (Out s3)
                 else let (r4, s4) = setup_event_timer_continuity L s3
                      in if r4 \<noteq> 0 then Inr (Out s4)
                         else bind_res (action_kickoff_time_sync L (se_kick E) s4) (\<lambda>s5. Inr (Loop ctx s5)))) = Inr (Loop ctx s')"
    using assms(4) by (auto simp: start_loop_def split: if_splits prod.splits)
  then obtain s2 s3 s4 where 2: "setup_event_route_up L (se_sock E) (se_bind E) (se_fcntl E) s1 = (0, s2)"
    and 3: "setup_event_timer_sync L (se_rand E) s2 = Inr (0, s3)"
    and 4: "setup_event_timer_continuity L s3 = (0, s4)"
    and 5: "action_kickoff_time_sync L (se_kick E) s4 = Inr s'"
    by (auto simp: Let_def split: prod.splits if_splits)
  have l1: "loaded_ok H argv s1 \<and> bus_ok ctx s1"
    using 1 rest(1) assms(1,2) init_cros_ok [OF assms(1)] by (auto simp: bus_ok_def split: option.splits)
  have core: "same_core s1 s4" and ev: "events s4 E_ROUTEUP \<noteq> None"
    using route_up_core [OF 2] timer_sync_core [OF 3] timer_continuity_core [OF 4]
    by (auto simp: same_core_def)
  have "state_ok B H argv s4"
    using loaded_ok_core [OF core] l1 ev by (intro loaded_state_ok) simp_all
  then have "state_ok B H argv s'" using assms(3) 5 by (rule kickoff_ok)
  moreover have "bus_state s' = bus_state s1" using kickoff_dbus [OF 5] core by (simp add: same_core_def)
  ultimately show ?thesis using l1 by (simp add: daemon_inv_def bus_ok_def)
qed

lemma started_inv:
  assumes "started B L o1 d" and "0 \<le> RECENT_COMPILE_DATE B"
    and "sources o1 \<noteq> []" and "cur_source o1 = None"
  shows "daemon_inv B (map (\<lambda>x. (src_host x, src_port x)) (sources o1)) (base_argv o1) d"
proof -
  obtain ctx s E path b where d: "d = (ctx, s)" and k: "inputs_ok (se_kick E)"
    and m: "tlsdated_main B L E o1 path b = Inr (Loop ctx s)"
    using assms(1) by (auto simp: started_def)
  obtain s1 s2 where 1: "start_setter L E o1 path b = (True, s1)" and 2: "register_events B L E s1 = Inr (True, s2)"
    and 3: "start_loop L E s2 = Inr (Loop ctx s)"
    using m by (auto simp: tlsdated_main_def Let_def split: prod.splits if_splits)
  have "boot_ok (map (\<lambda>x. (src_host x, src_port x)) (sources o1)) (base_argv o1) s1"
    by (rule start_setter_ok [OF assms(3,4) refl refl 1])
  then have "loaded_ok (map (\<lambda>x. (src_host x, src_port x)) (sources o1)) (base_argv o1) s2" "bus_ok None s2"
    using register_events_ok [OF _ assms(2) 2] by blast+
  then show ?thesis unfolding d by (rule start_loop_ok [OF _ _ k 3])
qed

section \<open>Every step keeps it\<close>

lemma time_set_dbus: "action_time_set I fd r s = Inr s' \<Longrightarrow> bus_state s' = bus_state s"
  by (auto simp: action_time_set_def handle_time_setter_def dbus_announce_def Let_def
      split: read_res.splits if_splits prod.splits)

lemma invalidate_dbus: "action_invalidate_time L I s = Inr s' \<Longrightarrow> bus_state s' = bus_state s"
  by (auto simp: action_invalidate_time_def invalidate_time_def dest!: kickoff_dbus split: if_splits)

lemma run_tlsdate_dbus:
  assumes "action_run_tlsdate L pid s = Inr s'"
  shows "bus_state s' = bus_state s"
proof (cases "last_sync_type s = SYNC_TYPE_NET \<or> running s \<or> \<not> tries s < max_tries (opts s)")
  case True
  then show ?thesis using assms by (auto simp: action_run_tlsdate_def Let_def split: if_splits)
next
  case False
  then show ?thesis
    using assms by (cases "pid = -1") (auto simp: action_run_tlsdate_def tlsdate_def Let_def)
qed

lemma sync_and_save_dbus:
  assumes "action_sync_and_save rd ws s = Inr s'"
  shows "bus_state s' = bus_state s"
proof -
  have zero: "bus_state s2 = bus_state s1" if "last_time s1 = 0" "action_sync_and_save rd ws1 s1 = Inr s2" for s1 s2 :: "'a state" and ws1
    using that(2) by (cases rule: sync_and_save_cases) (use that(1) in simp_all)
  show ?thesis
    using assms
  proof (cases rule: sync_and_save_cases)
    case (3 t)
    then show ?thesis using zero [OF _ 3(4)] by simp
  qed simp_all
qed

lemma child_death_dbus: "handle_child_death L w s = Inr (d, s') \<Longrightarrow> bus_state s' = bus_state s"
  by (elim child_death_cases) (simp_all add: report_setter_error_def)

lemma child_stop_dbus: "handle_child_stop w e s = Inr (d, s') \<Longrightarrow> bus_state s' = bus_state s"
  by (auto simp: handle_child_stop_def split: wait_res.splits if_splits)

lemma reap_child_dbus:
  assumes "reap_child L ws s = Inr (d, ws', s')"
  shows "bus_state s' = bus_state s"
proof -
  obtain died s1 where 1: "handle_child_death L (fst (next_wait ws)) s = Inr (died, s1)"
    using assms by (auto simp: reap_child_def)
  moreover have "bus_state s' = bus_state s1"
    using assms 1 child_stop_dbus [of "fst (next_wait (tl ws))" "snd (next_wait (tl ws))" s1]
    by (cases died) (auto simp: reap_child_def)
  ultimately show ?thesis using child_death_dbus by simp
qed

lemma sigchld_loop_dbus: "sigchld_loop L ws s = Inr s' \<Longrightarrow> bus_state s' = bus_state s"
proof (induction L ws s arbitrary: s' rule: sigchld_loop.induct)
  case (1 L ws s)
  then obtain d ws1 s1 where r: "reap_child L ws s = Inr (d, ws1, s1)"
    by (subst (asm) (2) sigchld_loop.simps) (auto split: sum.splits)
  show ?case
  proof (cases d)
    case True
    then have "sigchld_loop L ws1 s1 = Inr s'"
      using 1(2) r by (subst (asm) sigchld_loop.simps) simp
    then show ?thesis
      using 1(1) [of "(d, ws1, s1)" d "(ws1, s1)" ws1 s1] r True reap_child_dbus [OF r] by simp
  next
    case False
    then show ?thesis using 1(2) r reap_child_dbus [OF r] by (subst (asm) sigchld_loop.simps) simp
  qed
qed

lemma sigchld_dbus: "action_sigchld L ws s = Inr s' \<Longrightarrow> bus_state s' = bus_state s"
  by (auto simp: action_sigchld_def dest!: reap_child_dbus sigchld_loop_dbus)

lemma other_dbus:
  "action_sigterm L tv s = Inr s' \<Longrightarrow> bus_state s' = bus_state s"
  "bus_state (action_tlsdate_timeout s) = bus_state s"
  "bus_state (action_tlsdate_status B L r s) = bus_state s"
  "action_stdin_wakeup L I what r s = Inr s' \<Longrightarrow> bus_state s' = bus_state s"
  "action_netlink_ready L I what en rs s = Some (Inr s') \<Longrightarrow> bus_state s' = bus_state s"
  by (auto simp: action_sigterm_def action_tlsdate_timeout_def action_tlsdate_status_def action_stdin_wakeup_def
      action_netlink_ready_def Let_def split: option.splits prod.splits read_res.splits if_splits dest: kickoff_dbus)

lemmas handlers_ok =
  kickoff_ok invalidate_ok run_tlsdate_ok sync_and_save_ok sigchld_ok sigterm_ok time_set_ok timeout_ok status_ok
  stdin_ok netlink_ok

lemmas handlers_dbus =
  kickoff_dbus invalidate_dbus run_tlsdate_dbus sync_and_save_dbus sigchld_dbus time_set_dbus other_dbus

lemma handlers_bus: "bus_ok ctx s \<Longrightarrow> bus_state s' = bus_state s \<Longrightarrow> bus_ok ctx s'"
  by (simp add: bus_ok_def)

lemma step_keeps_inv:
  assumes "step B L d d'" and "daemon_inv B H argv d" and "0 \<le> RECENT_COMPILE_DATE B"
  shows "daemon_inv B H argv d'"
  using assms(1,2)
proof (cases rule: step.cases)
  case (step_method I env m s r s' ctx)
  then show ?thesis
    using assms(2) dispatch_ok [OF _ step_method(3) assms(3) step_method(4)] by (auto simp: daemon_inv_def bus_ok_def)
next
  case (step_filter I self m ctx s r ctx' s')
  then show ?thesis using assms(2) filter_ok [OF _ step_filter(3,4)] by (auto simp: daemon_inv_def bus_ok_def)
next
  case (step_resolve sent ctx s ctx' s')
  then show ?thesis using assms(2) resolve_ok [OF _ step_resolve(3)] by (auto simp: daemon_inv_def bus_ok_def)
qed (use assms(2) in \<open>auto simp: daemon_inv_def intro: handlers_ok elim!: handlers_bus intro: handlers_dbus\<close>)

text \<open>The daemon, started from options that name at least one source, as an invariant system.\<close>

definition good_start :: "build \<Rightarrow> opts \<Rightarrow> bool" where
  "good_start B o1 \<longleftrightarrow> 0 \<le> RECENT_COMPILE_DATE B \<and> sources o1 \<noteq> [] \<and> cur_source o1 = None"

definition hosts :: "opts \<Rightarrow> (string \<times> string) list" where
  "hosts o1 = map (\<lambda>x. (src_host x, src_port x)) (sources o1)"

interpretation daemon: invariant_system
  "\<lambda>d. good_start B o1 \<and> started B L o1 d" "step B L"
  "\<lambda>d. good_start B o1 \<longrightarrow> daemon_inv B (hosts o1) (base_argv o1) d" for B L o1
  by unfold_locales (auto simp: good_start_def hosts_def intro: started_inv step_keeps_inv)

definition reached :: "build \<Rightarrow> 'ev evlib \<Rightarrow> opts \<Rightarrow> 'ev daemon \<Rightarrow> bool" where
  "reached B L o1 = reachable (\<lambda>d. good_start B o1 \<and> started B L o1 d) (step B L)"

lemma reached_good: "reached B L o1 d \<Longrightarrow> good_start B o1"
  unfolding reached_def by (induction rule: reachable.induct) auto

lemma reached_inv: "reached B L o1 (ctx, s) \<Longrightarrow> daemon_inv B (hosts o1) (base_argv o1) (ctx, s)"
  using daemon.reachable_inv reached_good unfolding reached_def by blast

lemma reached_state_ok: "reached B L o1 (ctx, s) \<Longrightarrow> state_ok B (hosts o1) (base_argv o1) s"
  using reached_inv by (fastforce simp: daemon_inv_def)

section \<open>No handler uses a missing event\<close>

lemma events_okD:
  assumes "state_ok B H argv s"
  obtains h1 h2 h3 where "events s E_TLSDATE = Some h1" "events s E_TLSDATE_TIMEOUT = Some h2" "events s E_ROUTEUP = Some h3"
  using assms by (auto simp: state_ok_def events_ok_def)

lemma kickoff_no_null:
  assumes "events s E_TLSDATE = Some h"
  shows "action_kickoff_time_sync L I s \<noteq> Inl Null_Deref"
proof -
  have j: "add_jitter r b j \<noteq> Inl Null_Deref" for r b j
    by (simp add: add_jitter_def split: option.split)
  have d: "detect_desync I s \<noteq> Inl Null_Deref"
    using j by (simp add: detect_desync_def bind_res_eq_Inl_iff)
  have "events s1 = events s" if "detect_desync I s = Inr (k, s1)" for k s1
    using that by (auto simp: detect_desync_def invalidate_time_def split: if_splits)
  with assms d show ?thesis
    by (auto simp: action_kickoff_time_sync_def bind_res_eq_Inl_iff split: if_splits)
qed

lemma child_death_no_null:
  "events s E_TLSDATE_TIMEOUT = Some h \<Longrightarrow> handle_child_death L w s \<noteq> Inl Null_Deref"
  by (auto simp: handle_child_death_def event_del_id_def Let_def split: wait_res.split)

lemma reap_child_no_null:
  assumes "events s E_TLSDATE_TIMEOUT = Some h"
  shows "reap_child L ws s \<noteq> Inl Null_Deref"
proof -
  have "handle_child_stop w e s1 \<noteq> Inl Null_Deref" for w e and s1 :: "'a state"
    by (simp add: handle_child_stop_def split: wait_res.split)
  then show ?thesis
    using child_death_no_null [OF assms] by (auto simp: reap_child_def bind_res_eq_Inl_iff split: if_splits)
qed

lemma sigchld_loop_no_null:
  assumes "state_ok B H argv s"
  shows "sigchld_loop L ws s \<noteq> Inl Null_Deref"
  using assms
proof (induction L ws s rule: sigchld_loop.induct)
  case (1 L ws s)
  obtain h where h: "events s E_TLSDATE_TIMEOUT = Some h" using 1(2) by (rule events_okD)
  show ?case
  proof (cases "reap_child L ws s")
    case (Inl e)
    then show ?thesis using reap_child_no_null [OF h, of L ws] by (subst sigchld_loop.simps) auto
  next
    case (Inr p)
    obtain d ws1 s1 where p: "p = (d, ws1, s1)" by (cases p)
    have "state_ok B H argv s1" using reap_child_ok [OF 1(2)] Inr p by simp
    with 1(1) [of p d "(ws1, s1)" ws1 s1] Inr p show ?thesis
      by (subst sigchld_loop.simps) auto
  qed
qed

lemma sigchld_no_null:
  assumes "state_ok B H argv s"
  shows "action_sigchld L ws s \<noteq> Inl Null_Deref"
proof -
  obtain h where h: "events s E_TLSDATE_TIMEOUT = Some h" using assms by (rule events_okD)
  have "sigchld_loop L ws1 s1 \<noteq> Inl Null_Deref" if "reap_child L ws s = Inr (d, ws1, s1)" for d ws1 s1
    using sigchld_loop_no_null [OF reap_child_ok [OF assms that]] .
  then show ?thesis
    using reap_child_no_null [OF h, of L ws] by (auto simp: action_sigchld_def bind_res_eq_Inl_iff)
qed

lemma invalidate_no_null:
  assumes "events s E_TLSDATE = Some h"
  shows "action_invalidate_time L I s \<noteq> Inl Null_Deref"
proof -
  have "action_kickoff_time_sync L I (invalidate_time (in_now I) s) \<noteq> Inl Null_Deref"
    by (rule kickoff_no_null [of _ h]) (simp add: invalidate_time_def assms)
  then show ?thesis
    using assms by (auto simp: action_invalidate_time_def bind_res_eq_Inl_iff)
qed

lemma run_tlsdate_no_null:
  assumes "events s E_TLSDATE_TIMEOUT = Some h"
  shows "action_run_tlsdate L pid s \<noteq> Inl Null_Deref"
  using assms by (simp add: action_run_tlsdate_def tlsdate_def event_del_id_def Let_def)

lemma set_time_no_null:
  assumes "events s E_TLSDATE = Some h"
  shows "handle_set_time B L I env m s \<noteq> Inl Null_Deref"
proof -
  have "events (snd (can_set_time I s)) E_TLSDATE = Some h"
    using assms by (simp add: can_set_time_def invalidate_time_def Let_def)
  then have "action_kickoff_time_sync L I (trigger_event L E_SAVE (-1)
      ((snd (can_set_time I s))\<lparr>last_time := t, last_sync_type := SYNC_TYPE_PLATFORM\<rparr>)) \<noteq> Inl Null_Deref" for t
    by (intro kickoff_no_null [of _ h]) simp
  then show ?thesis
    by (auto simp: handle_set_time_def bind_res_eq_Inl_iff split: list.split dbus_arg.split prod.split)
qed

lemma dispatch_no_null:
  "events s E_TLSDATE = Some h \<Longrightarrow> service_dispatch B L I env m s \<noteq> Inl Null_Deref"
  using set_time_no_null [of s h B L I env m]
  by (auto simp: service_dispatch_def split: option.split)

lemma upcoming_source_ok: "state_ok B H argv s \<Longrightarrow> \<exists>src. upcoming_source s = Inr src"
  by (auto simp: upcoming_source_def state_ok_def source_ok_def)

lemma filter_no_null:
  assumes "state_ok B H argv s"
  shows "dbus_filter L I self m ctx s \<noteq> Inl Null_Deref"
proof -
  obtain h where "events s E_TLSDATE = Some h" using assms by (rule events_okD)
  then have k: "action_kickoff_time_sync L I s \<noteq> Inl Null_Deref" by (rule kickoff_no_null)
  obtain src where u: "upcoming_source s = Inr src" using upcoming_source_ok [OF assms] by blast
  have "handle_service_change L I m s \<noteq> Inl Null_Deref" "handle_manager_change L I m s \<noteq> Inl Null_Deref"
    "handle_dbus_change L I m s \<noteq> Inl Null_Deref" "handle_suspend_done L I s \<noteq> Inl Null_Deref"
    using k by (auto simp: handle_service_change_def handle_manager_change_def handle_dbus_change_def
        handle_suspend_done_def split: option.split list.split dbus_arg.split)
  moreover have "handle_proxy_change L m ctx s \<noteq> Inl Null_Deref"
    using u by (auto simp: handle_proxy_change_def split: list.split dbus_arg.split)
  ultimately show ?thesis
    by (simp add: dbus_filter_def Let_def bind_res_eq_Inl_iff)
qed

lemma resolve_no_null:
  assumes "state_ok B H argv s" and "dbus s"
  shows "action_resolve_proxy L sent ctx s \<noteq> Inl Null_Deref"
proof -
  have "state_ok B H argv (write_dynamic_proxy ctx '''' s)" using assms(1) by simp
  then obtain src where "upcoming_source (write_dynamic_proxy ctx '''' s) = Inr src"
    using upcoming_source_ok by blast
  then show ?thesis
    using assms(2) by (auto simp: action_resolve_proxy_def Let_def split: option.split)
qed

text \<open>The handler of the setter announces only on a bus that is there.\<close>

lemma time_set_no_null:
  assumes "bus_ok ctx s"
  shows "action_time_set I fd r s \<noteq> Inl Null_Deref"
  using assms
  by (auto simp: action_time_set_def handle_time_setter_def dbus_announce_def bus_ok_def Let_def split: read_res.split prod.split)

lemma sync_and_save_no_null: "action_sync_and_save rd ws s \<noteq> Inl Null_Deref"
proof (induction rd ws s rule: action_sync_and_save.induct)
  case (1 rd ws s)
  show ?case
  proof (cases rd)
    case True
    then show ?thesis by (subst action_sync_and_save.simps) simp
  next
    case False
    show ?thesis
      using "1.IH" [OF refl False _ _ refl] False
      by (subst action_sync_and_save.simps) (auto simp: Let_def split: write_res.split if_splits)
  qed
qed

lemma sigterm_no_null: "action_sigterm L tv s \<noteq> Inl Null_Deref"
  by (simp add: action_sigterm_def split: option.split)

lemma route_no_null:
  assumes "events s E_TLSDATE = Some h" and "events s E_ROUTEUP = Some h'"
  shows "action_stdin_wakeup L I what r s \<noteq> Inl Null_Deref" "action_netlink_ready L I what en rs s \<noteq> Some (Inl Null_Deref)"
  using kickoff_no_null [OF assms(1), of L I] assms(2)
  by (auto simp: action_stdin_wakeup_def action_netlink_ready_def event_del_id_def split: read_res.split)

section \<open>A sample run\<close>

definition sample_opts :: opts where
  "sample_opts = add_source_to_conf (set_conf_defaults sample_build) ''a.example'' ''443'' None"

definition sample_inputs :: inputs where
  "sample_inputs = \<lparr>in_real = Some 5, in_mono = Some 1, in_now = 5, in_rand = None, in_bus = (True, True, True)\<rparr>"

definition sample_env :: start_env where
  "sample_env =
     \<lparr>se_rtc = True, se_to = Some (3, 4), se_from = Some (5, 6), se_notify_nb = True, se_save_nb = True,
      se_setter_pid = 9,
      se_priv = \<lparr>getpwnam = (\<lambda>_. None), getgrnam = (\<lambda>_. None), initgroups_ok = True, setresgid_ok = True, setresuid_ok = True\<rparr>,
      se_creds = \<lparr>c_uid = 99, c_gid = 99, c_groups = None\<rparr>,
      se_dbus = \<lparr>be_calloc = True, be_bus_get = (True, False), be_timeout_functions = True, be_watch_functions = True,
        be_request_name = (1, False), be_register_path = True\<rparr>, se_pipe = Some (7, 8), se_pipe_nb = True, se_now = 1400000000, se_disk = (\<lambda>_. None),
      se_cros = None, se_sock = 10, se_bind = True, se_fcntl = True, se_rand = None, se_kick = sample_inputs\<rparr>"

lemma sample_started:
  "\<exists>ctx s. tlsdated_main sample_build table_lib sample_env sample_opts ''/t'' (\<lambda>_. None) = Inr (Loop ctx s)"
proof -
  have "case tlsdated_main sample_build table_lib sample_env sample_opts ''/t'' (\<lambda>_. None) of
      Inr (Loop _ _) \<Rightarrow> True | _ \<Rightarrow> False"
    by code_simp
  then show ?thesis by (auto split: sum.splits startup.splits)
qed

lemma sample_env_ok: "0 < se_setter_pid sample_env \<and> inputs_ok (se_kick sample_env)"
  by (simp add: sample_env_def sample_inputs_def inputs_ok_def)

lemma sample_reached: "\<exists>ctx s. reached sample_build table_lib sample_opts (ctx, s)"
proof -
  obtain ctx s where "tlsdated_main sample_build table_lib sample_env sample_opts ''/t'' (\<lambda>_. None) = Inr (Loop ctx s)"
    using sample_started by blast
  then have "started sample_build table_lib sample_opts (ctx, s)"
    unfolding started_def using sample_env_ok by blast
  moreover have "good_start sample_build sample_opts"
    by (simp add: good_start_def sample_build_def sample_opts_def add_source_to_conf_def set_conf_defaults_def)
  ultimately show ?thesis unfolding reached_def by (blast intro: reach_start)
qed

section \<open>Properties\<close>

text \<open>
  C5. Bookkeeping of attempts, in every state the daemon can reach: the number of tries stays
  between 0 and its maximum, the daemon believes tlsdate to be running exactly when it holds a
  process id for it, and the retry delay never exceeds 1198 seconds or the configured delay.
\<close>

theorem daemon_attempts_bounded:
  assumes "reached B L o1 (ctx, s)"
  shows "0 \<le> tries s \<and> tries s \<le> max 0 (max_tries (opts s)) \<and> (running s \<longleftrightarrow> tlsdate_pid s \<noteq> 0) \<and>
     unat (backoff s) \<le> max 1198 (unat (word_of_int (wait_between_tries (opts s)) :: uint32))"
  using reached_state_ok [OF assms] by (simp add: state_ok_def attempts_ok_def backoff_ok_def)

theorem daemon_attempts_bounded_witness:
  "\<exists>ctx s. reached sample_build table_lib sample_opts (ctx, s) \<and> 0 \<le> tries s"
  using sample_reached daemon_attempts_bounded by blast

text \<open>
  C1. The daemon only trusts plausible network times: in every reachable state that is not
  shutting down, a time marked as network time lies between the build date and the maximal
  date, and a positive message to the privileged setter, the kind that is written to disk, was such
  a time. During shutdown the current clock goes out instead.
\<close>

theorem daemon_times_sane:
  assumes "reached B L o1 (ctx, s)" and "\<not> exitting s"
  shows "(last_sync_type s = SYNC_TYPE_NET \<longrightarrow> is_sane_time B (last_time s)) \<and>
     (\<forall>t. Pipe_Write t \<in> set (outs s) \<longrightarrow> 0 < t \<longrightarrow> is_sane_time B t)"
  using reached_state_ok [OF assms(1)] assms(2) by (auto simp: state_ok_def time_ok_def split: if_splits)

theorem daemon_times_sane_witness:
  "\<exists>ctx s. reached sample_build table_lib sample_opts (ctx, s) \<and>
     (exitting s \<or> (\<forall>t. Pipe_Write t \<in> set (outs s) \<longrightarrow> 0 < t \<longrightarrow> is_sane_time sample_build t))"
  using sample_reached daemon_times_sane by blast

text \<open>
  C6. The daemon never moves on to another source: in every reachable state, whatever failed
  before, each command line it started tlsdate with names the host and port of the first
  configured source. The rotation of \<^verbatim>\<open>build_argv\<close> happens in the forked child and is lost.
\<close>

theorem daemon_uses_first_source_only:
  assumes "reached B L o1 (ctx, s)" and "Spawn pid (Some av) \<in> set (outs s)"
  shows "cur_source (opts s) = None \<and>
     (\<exists>rest. av = base_argv o1 @ [''-H'', src_host (hd (sources o1)), ''-p'', src_port (hd (sources o1))] @ rest)"
proof -
  have "source_ok (hosts o1) (base_argv o1) s"
    using reached_state_ok [OF assms(1)] by (simp add: state_ok_def)
  moreover have "sources o1 \<noteq> []"
    using reached_good [OF assms(1)] by (simp add: good_start_def)
  ultimately show ?thesis
    using assms(2) by (fastforce simp: source_ok_def names_first_def hosts_def hd_map)
qed

theorem daemon_uses_first_source_only_witness:
  "\<exists>ctx s pid av. reached sample_build table_lib sample_opts (ctx, s) \<and> Spawn pid (Some av) \<in> set (outs s) \<and>
     (\<exists>rest. av = base_argv sample_opts @ [''-H'', ''a.example'', ''-p'', ''443''] @ rest)"
proof -
  obtain ctx s where 1: "tlsdated_main sample_build table_lib sample_env sample_opts ''/t'' (\<lambda>_. None) = Inr (Loop ctx s)"
    using sample_started by blast
  have "case tlsdated_main sample_build table_lib sample_env sample_opts ''/t'' (\<lambda>_. None) of
      Inr (Loop _ s) \<Rightarrow> (case action_run_tlsdate table_lib 42 s of
         Inr s' \<Rightarrow> (case last (outs s') of Spawn _ (Some _) \<Rightarrow> outs s' \<noteq> [] | _ \<Rightarrow> False) | _ \<Rightarrow> False) | _ \<Rightarrow> False"
    by code_simp
  with 1 obtain s' pid av where 2: "action_run_tlsdate table_lib 42 s = Inr s'" and "outs s' \<noteq> []"
    and "last (outs s') = Spawn pid (Some av)"
    by (auto split: sum.splits effect.splits option.splits)
  then have 3: "Spawn pid (Some av) \<in> set (outs s')" by (metis last_in_set)
  have "good_start sample_build sample_opts"
    by (simp add: good_start_def sample_build_def sample_opts_def add_source_to_conf_def set_conf_defaults_def)
  then have "reached sample_build table_lib sample_opts (ctx, s)"
    using 1 sample_env_ok unfolding reached_def started_def by (blast intro: reach_start)
  then have r: "reached sample_build table_lib sample_opts (ctx, s')"
    unfolding reached_def by (rule reach_step) (auto intro: step_run [OF _ 2] simp: fork_ok_def)
  have "src_host (hd (sources sample_opts)) = ''a.example''" "src_port (hd (sources sample_opts)) = ''443''"
    by (simp_all add: sample_opts_def add_source_to_conf_def set_conf_defaults_def)
  with daemon_uses_first_source_only [OF r 3]
  have "\<exists>rest. av = base_argv sample_opts @ [''-H'', ''a.example'', ''-p'', ''443''] @ rest" by simp
  with r 3 show ?thesis by blast
qed

text \<open>
  C4. No handler of the event loop follows a NULL pointer: in every reachable state each handler,
  whatever its system calls and messages bring, returns or exits, but does not touch an event that
  was never created, a source that does not exist or a bus that is not connected. These are the
  handlers behind the rules of \<open>step\<close>; the two that are not listed, for the output of the child and its
  timeout, follow no pointer and always return a state.
\<close>

theorem daemon_no_null_dereference:
  assumes "reached B L o1 (ctx, s)"
  shows "action_kickoff_time_sync L I s \<noteq> Inl Null_Deref \<and>
     action_invalidate_time L I s \<noteq> Inl Null_Deref \<and>
     action_run_tlsdate L pid s \<noteq> Inl Null_Deref \<and>
     action_sync_and_save rd writes s \<noteq> Inl Null_Deref \<and>
     action_sigchld L ws s \<noteq> Inl Null_Deref \<and>
     action_sigterm L tv s \<noteq> Inl Null_Deref \<and>
     action_time_set I fd r s \<noteq> Inl Null_Deref \<and>
     action_stdin_wakeup L I what r s \<noteq> Inl Null_Deref \<and>
     action_netlink_ready L I what en rs s \<noteq> Some (Inl Null_Deref) \<and>
     service_dispatch B L I env m s \<noteq> Inl Null_Deref \<and>
     (\<forall>c. ctx = Some c \<longrightarrow> dbus_filter L I self m c s \<noteq> Inl Null_Deref \<and>
        action_resolve_proxy L sent c s \<noteq> Inl Null_Deref)"
proof -
  have ok: "state_ok B (hosts o1) (base_argv o1) s" and d: "bus_ok ctx s"
    using reached_inv [OF assms] by (simp_all add: daemon_inv_def)
  obtain h1 h2 h3 where h: "events s E_TLSDATE = Some h1" "events s E_TLSDATE_TIMEOUT = Some h2"
      "events s E_ROUTEUP = Some h3"
    using ok by (rule events_okD)
  have "action_resolve_proxy L sent c s \<noteq> Inl Null_Deref" if "ctx = Some c" for c
    using resolve_no_null [OF ok] d that by (simp add: bus_ok_def)
  then show ?thesis
    using kickoff_no_null [OF h(1)] invalidate_no_null [OF h(1)] run_tlsdate_no_null [OF h(2)] sigchld_no_null [OF ok]
      sync_and_save_no_null [of rd writes s] sigterm_no_null [of L tv s] time_set_no_null [OF d] route_no_null [OF h(1,3)]
      dispatch_no_null [OF h(1)] filter_no_null [OF ok]
    by auto
qed

theorem daemon_no_null_dereference_witness:
  "\<exists>ctx s. reached sample_build table_lib sample_opts (ctx, s) \<and>
     action_time_set sample_inputs 5 (Rd [4, 0, 0, 0]) s \<noteq> Inl Null_Deref \<and>
     action_sigchld table_lib [] s \<noteq> Inl Null_Deref"
proof -
  obtain ctx s where r: "reached sample_build table_lib sample_opts (ctx, s)" using sample_reached by blast
  from daemon_no_null_dereference [OF r, where ws = "[]" and I = sample_inputs and fd = 5 and r = "Rd [4, 0, 0, 0]"] r
  show ?thesis by blast
qed

text \<open>
  The time to start from: it is sane whenever any time is, it is the system clock when that
  is sane and not behind a sane disk time, and it is never behind the sane ones among the
  system clock and the disk time.
\<close>

theorem initial_time_choice:
  assumes "RECENT_COMPILE_DATE B + 1 < TLSDATED_MAX_DATE" and "\<forall>d. disk = Some d \<longrightarrow> is_sane_time B d"
    and "initial_time B load now disk = (ty, t)"
  shows "is_sane_time B t \<and> (is_sane_time B now \<longrightarrow> now \<le> t) \<and> (\<forall>d. load \<and> disk = Some d \<longrightarrow> d \<le> t) \<and>
     (ty = SYNC_TYPE_RTC \<longleftrightarrow> t = now \<and> is_sane_time B now)"
  using assms by (auto simp: initial_time_def is_sane_time_def split: option.splits if_splits)

theorem initial_time_choice_witness:
  "is_sane_time sample_build (snd (initial_time sample_build True 5 (Some 1400000000)))"
  using initial_time_choice [of sample_build "Some 1400000000" True 5 2 1400000000]
  by (simp add: initial_time_def is_sane_time_def sample_build_def limit_defs)

end
