(* ===== verification/Setter.thy ===== *)
theory Setter
  imports Daemon_State Routeup
begin

text \<open>
  The privileged coprocess that sets the clock, \<^verbatim>\<open>src/tlsdate-setter.c\<close>. It reads messages of
  eight bytes from the daemon: a positive time is set and written to disk, a negative one is set
  only, 0 asks it to exit. The model runs over a script with one entry per \<^verbatim>\<open>read\<close>, each with
  the results of the system calls that may follow it. The variable \<^verbatim>\<open>status\<close> starts without a
  value, and the code can send it in that state: it is an \<open>int option\<close>.
\<close>

datatype setter_effect =
    Set_Time time_t
  | Rtc_Write time_t
  | Save_Time time_t
  | Notify "int option"

record setter_call =
  msg_read :: read_res
  set_ok :: bool
  rtc_ok :: bool
  save_written :: nat

text \<open>The file behind \<^verbatim>\<open>save_fd\<close>; \<open>None\<close> when the descriptor is -1.\<close>

type_synonym save_file = "byte list option"

text \<open>Outcome of one turn of the loop: the next value of \<^verbatim>\<open>status\<close>, or leaving for \<^verbatim>\<open>notify_and_die\<close>.\<close>

datatype turn = Again "int option" | Die int

definition EINTR :: int where [simp]: "EINTR = 4"

text \<open>
  Setting a time \<open>t\<close> that passed the sanity check: the clock, the hardware clock, the disk, in this
  order, the first failure being fatal.
\<close>

definition set_sane_time :: "opts \<Rightarrow> setter_call \<Rightarrow> bool \<Rightarrow> time_t \<Rightarrow> save_file \<Rightarrow>
    turn \<times> save_file \<times> setter_effect list" where
  "set_sane_time o1 c save t f =
     (if dry_run o1 then (Again (Some SETTER_TIME_SET), f, [])
      else if \<not> set_ok c then (Die SETTER_SET_ERR, f, [])
      else if should_sync_hwclock o1 \<and> \<not> rtc_ok c then (Die SETTER_NO_RTC, f, [Set_Time t])
      else
        (let e1 = Set_Time t # (if should_sync_hwclock o1 then [Rtc_Write t] else []);
             (f', ret) = (case f of
                 Some contents \<Rightarrow>
                   (if save then (case save_timestamp_to_fd t (save_written c) contents of (d, r) \<Rightarrow> (Some d, r))
                    else (f, 0))
               | None \<Rightarrow> (f, 0))
         in if ret \<noteq> 0 then (Die SETTER_NO_SAVE, f', e1)
            else (Again (Some SETTER_TIME_SET), f',
                  e1 @ (if save \<and> f \<noteq> None then [Save_Time t] else []))))"

definition setter_turn :: "build \<Rightarrow> opts \<Rightarrow> setter_call \<Rightarrow> int option \<Rightarrow> save_file \<Rightarrow>
    turn \<times> save_file \<times> setter_effect list" where
  "setter_turn B o1 c status f =
     (case msg_read c of
        Rd_Err e \<Rightarrow> (if e = EINTR then Again status else Die SETTER_READ_ERR, f, [])
      | Rd bs \<Rightarrow>
          (if bs = [] then (Die SETTER_READ_ERR, f, [])
           else if length bs \<noteq> 8 then (Again status, f, [])
           else
             (let t0 = bytes_time bs; save = (0 \<le> t0); t = (if t0 < 0 then - t0 else t0)
              in if t = 0 then (Die SETTER_EXIT, f, [])
                 else if is_sane_time B t
                 then (case set_sane_time o1 c save t f of
                         (Again st, f', es) \<Rightarrow> (Again st, f', es @ [Notify st])
                       | (Die st, f', es) \<Rightarrow> (Die st, f', es))
                 else (Again status, f, [Notify status]))))"

text \<open>The loop; the first component is the exit status, \<open>None\<close> while the setter waits for a message.\<close>

fun setter_loop :: "build \<Rightarrow> opts \<Rightarrow> setter_call list \<Rightarrow> int option \<Rightarrow> save_file \<Rightarrow>
    int option \<times> save_file \<times> setter_effect list" where
  "setter_loop B o1 [] status f = (None, f, [])"
| "setter_loop B o1 (c # cs) status f =
     (case setter_turn B o1 c status f of
        (Die st, f', es) \<Rightarrow> (Some st, f', es @ [Notify (Some st)])
      | (Again st, f', es) \<Rightarrow>
          (case setter_loop B o1 cs st f' of (x, f'', es') \<Rightarrow> (x, f'', es @ es')))"

text \<open>
  \<open>saved\<close> is the file that opening the timestamp path yields, \<open>None\<close> if the call fails; \<open>sbox\<close> is
  the result of \<^verbatim>\<open>enable_setter_seccomp\<close>, 0 where it is compiled out.
\<close>

definition time_setter_coprocess :: "build \<Rightarrow> opts \<Rightarrow> byte list option \<Rightarrow> int \<Rightarrow> setter_call list \<Rightarrow>
    int option \<times> save_file \<times> setter_effect list" where
  "time_setter_coprocess B o1 saved sbox cs =
     (let want_save = should_save_disk o1 \<and> \<not> dry_run o1
      in if want_save \<and> saved = None then (Some SETTER_NO_SAVE, None, [Notify (Some SETTER_NO_SAVE)])
         else let f = (if want_save then saved else None)
              in if sbox \<noteq> 0 then (Some SETTER_NO_SBOX, f, [Notify (Some SETTER_NO_SBOX)])
                 else setter_loop B o1 cs None f)"

section \<open>Facts\<close>

text \<open>The times among the messages.\<close>

definition msg_time :: "setter_call \<Rightarrow> time_t option" where
  "msg_time c = (case msg_read c of Rd bs \<Rightarrow> if length bs = 8 then Some (bytes_time bs) else None | Rd_Err _ \<Rightarrow> None)"

text \<open>What a clock effect is justified by.\<close>

fun justified :: "build \<Rightarrow> opts \<Rightarrow> setter_call list \<Rightarrow> setter_effect \<Rightarrow> bool" where
  "justified B o1 cs (Set_Time t) =
     (is_sane_time B t \<and> \<not> dry_run o1 \<and> (\<exists>c \<in> set cs. msg_time c = Some t \<or> msg_time c = Some (- t)))"
| "justified B o1 cs (Rtc_Write t) =
     (is_sane_time B t \<and> \<not> dry_run o1 \<and> should_sync_hwclock o1 \<and>
      (\<exists>c \<in> set cs. msg_time c = Some t \<or> msg_time c = Some (- t)))"
| "justified B o1 cs (Save_Time t) =
     (is_sane_time B t \<and> \<not> dry_run o1 \<and> (\<exists>c \<in> set cs. msg_time c = Some t \<and> 0 < t))"
| "justified B o1 cs (Notify st) = True"

lemma justified_mono: "justified B o1 cs e \<Longrightarrow> set cs \<subseteq> set cs' \<Longrightarrow> justified B o1 cs' e"
  by (cases e) auto

lemma set_sane_time_effects:
  assumes "set_sane_time o1 c save t f = (x, f', es)" and "e \<in> set es"
  shows "\<not> dry_run o1 \<and> (e = Set_Time t \<or> e = Rtc_Write t \<and> should_sync_hwclock o1 \<or> e = Save_Time t \<and> save)"
  using assms
  by (auto simp: set_sane_time_def Let_def split: if_splits option.splits prod.splits)

lemma setter_turn_justified:
  assumes "setter_turn B o1 c status f = (x, f', es)" and "e \<in> set es"
  shows "justified B o1 [c] e"
proof (cases e)
  case (Notify st)
  then show ?thesis by simp
next
  case other: (Set_Time t)
  then show ?thesis
    using assms by (auto simp: setter_turn_def msg_time_def Let_def split: read_res.splits if_splits prod.splits turn.splits
        dest: set_sane_time_effects)
next
  case other: (Rtc_Write t)
  then show ?thesis
    using assms by (auto simp: setter_turn_def msg_time_def Let_def split: read_res.splits if_splits prod.splits turn.splits
        dest: set_sane_time_effects)
next
  case other: (Save_Time t)
  then show ?thesis
    using assms by (auto simp: setter_turn_def msg_time_def Let_def split: read_res.splits if_splits prod.splits turn.splits
        dest: set_sane_time_effects)
qed

lemma setter_loop_justified:
  assumes "setter_loop B o1 cs status f = (x, f', es)" and "e \<in> set es"
  shows "justified B o1 cs e"
  using assms
proof (induction cs arbitrary: status f x f' es)
  case (Cons c cs)
  obtain y f1 es1 where t: "setter_turn B o1 c status f = (y, f1, es1)"
    by (cases "setter_turn B o1 c status f") auto
  obtain x2 f2 es2 where l: "setter_loop B o1 cs (case y of Again st \<Rightarrow> st | Die _ \<Rightarrow> None) f1 = (x2, f2, es2)"
    by (cases "setter_loop B o1 cs (case y of Again st \<Rightarrow> st | Die _ \<Rightarrow> None) f1") auto
  have "e \<in> set es1 \<or> (\<exists>st. e = Notify st) \<or> e \<in> set es2"
    using Cons.prems t l by (auto split: turn.splits)
  then show ?case
  proof (elim disjE exE)
    assume "e \<in> set es1"
    then have "justified B o1 [c] e" using t by (rule setter_turn_justified [rotated])
    then show ?thesis by (rule justified_mono) simp
  next
    assume "e \<in> set es2"
    then have "justified B o1 cs e" using Cons.IH [OF l] by simp
    then show ?thesis by (rule justified_mono) auto
  qed simp
qed simp

lemma coprocess_effects:
  assumes "time_setter_coprocess B o1 saved sbox cs = (x, f, es)" and "e \<in> set es"
  shows "justified B o1 cs e"
  using assms
  by (auto simp: time_setter_coprocess_def Let_def split: if_splits intro: setter_loop_justified)


lemma setter_loop_exit:
  assumes "setter_loop B o1 cs status f = (Some st, f', es)"
  shows "es \<noteq> [] \<and> last es = Notify (Some st) \<and>
     st \<in> {SETTER_EXIT, SETTER_NO_SAVE, SETTER_READ_ERR, SETTER_SET_ERR, SETTER_NO_RTC}"
  using assms
proof (induction cs arbitrary: status f es)
  case (Cons c cs)
  obtain y f1 es1 where t: "setter_turn B o1 c status f = (y, f1, es1)"
    by (cases "setter_turn B o1 c status f") auto
  show ?case
  proof (cases y)
    case (Die d)
    then have "d \<in> {SETTER_EXIT, SETTER_NO_SAVE, SETTER_READ_ERR, SETTER_SET_ERR, SETTER_NO_RTC}"
      using t by (auto simp: setter_turn_def set_sane_time_def Let_def
          split: read_res.splits if_splits prod.splits turn.splits option.splits)
    with Cons.prems t Die show ?thesis by auto
  next
    case (Again a)
    obtain x2 f2 es2 where l: "setter_loop B o1 cs a f1 = (x2, f2, es2)"
      by (cases "setter_loop B o1 cs a f1") auto
    with Cons.prems t Again have "x2 = Some st" "f' = f2" "es = es1 @ es2" by simp_all
    with l Cons.IH [of a f1 es2] show ?thesis by auto
  qed
qed simp

text \<open>A message with a sane time, when every call succeeds.\<close>

lemma setter_turn_sane:
  assumes "msg_time c = Some t" and "is_sane_time B \<bar>t\<bar>" and "\<not> dry_run o1" and "set_ok c" and "rtc_ok c"
    and "save_written c = 8" and "t \<noteq> 0"
  shows "setter_turn B o1 c status (Some old) =
     (Again (Some SETTER_TIME_SET),
      if 0 < t then Some (fst (save_timestamp_to_fd t 8 old)) else Some old,
      Set_Time \<bar>t\<bar> # (if should_sync_hwclock o1 then [Rtc_Write \<bar>t\<bar>] else []) @
        (if 0 < t then [Save_Time t] else []) @ [Notify (Some SETTER_TIME_SET)])"
proof -
  obtain bs where bs: "msg_read c = Rd bs" "length bs = 8" "bytes_time bs = t"
    using assms(1) by (auto simp: msg_time_def split: read_res.splits if_splits)
  moreover have "bs \<noteq> []" using bs(2) by auto
  ultimately show ?thesis
    using assms
    by (auto simp: setter_turn_def set_sane_time_def save_timestamp_to_fd_def file_write_def Let_def abs_if)
qed

section \<open>Properties\<close>

text \<open>
  C3. The privileged process sets nothing but sane times that the daemon asked for: whatever bytes
  and errors it reads and whichever calls fail, the clock and the hardware clock are only ever set
  to a time between the build date and the maximal date that some message carries, up to its
  sign; only times from positive messages reach the disk; and in a dry run nothing is set.
\<close>

theorem setter_sets_only_sane_times:
  assumes "time_setter_coprocess B o1 saved sbox cs = (x, f, es)"
  shows "(Set_Time t \<in> set es \<longrightarrow> is_sane_time B t \<and> \<not> dry_run o1 \<and>
            (\<exists>c \<in> set cs. msg_time c = Some t \<or> msg_time c = Some (- t))) \<and>
         (Rtc_Write t \<in> set es \<longrightarrow> is_sane_time B t \<and> \<not> dry_run o1 \<and> should_sync_hwclock o1) \<and>
         (Save_Time t \<in> set es \<longrightarrow> is_sane_time B t \<and> \<not> dry_run o1 \<and>
            (\<exists>c \<in> set cs. msg_time c = Some t \<and> 0 < t))"
  using coprocess_effects [OF assms] by fastforce

theorem setter_sets_only_sane_times_witness:
  "\<exists>x f es. time_setter_coprocess sample_build (set_conf_defaults sample_build) (Some []) 0
      [\<lparr>msg_read = Rd (time_bytes 1400000000), set_ok = True, rtc_ok = True, save_written = 8\<rparr>] = (x, f, es) \<and>
    Set_Time 1400000000 \<in> set es \<and> is_sane_time sample_build 1400000000"
proof -
  let ?r = "time_setter_coprocess sample_build (set_conf_defaults sample_build) (Some []) 0
      [\<lparr>msg_read = Rd (time_bytes 1400000000), set_ok = True, rtc_ok = True, save_written = 8\<rparr>]"
  have "Set_Time 1400000000 \<in> set (snd (snd ?r))"
    by (simp add: time_setter_coprocess_def setter_turn_def set_sane_time_def bytes_time_of_bytes
        is_sane_time_def sample_build_def TLSDATED_MAX_DATE_def set_conf_defaults_def save_timestamp_to_fd_def
        file_write_def Let_def flip: length_0_conv)
  then show ?thesis
    using setter_sets_only_sane_times [of sample_build "set_conf_defaults sample_build" "Some []" 0
        "[\<lparr>msg_read = Rd (time_bytes 1400000000), set_ok = True, rtc_ok = True, save_written = 8\<rparr>]" "fst ?r" "fst (snd ?r)"
        "snd (snd ?r)" 1400000000]
    by (cases ?r) auto
qed

text \<open>
  The exit status tells the daemon why: when the setter exits, its last act is to send its exit
  status through the pipe, and that status is one the daemon's \<^verbatim>\<open>handle_time_setter\<close> knows, neither
  of the two that report on a single time.
\<close>

theorem setter_exit_notifies:
  assumes "time_setter_coprocess B o1 saved sbox cs = (Some st, f, es)"
  shows "last es = Notify (Some st) \<and>
     st \<in> {SETTER_EXIT, SETTER_NO_SAVE, SETTER_READ_ERR, SETTER_SET_ERR, SETTER_NO_RTC, SETTER_NO_SBOX}"
  using assms by (auto simp: time_setter_coprocess_def Let_def split: if_splits dest: setter_loop_exit)

theorem setter_exit_notifies_witness:
  "last (snd (snd (time_setter_coprocess sample_build (set_conf_defaults sample_build) None 0 []))) = Notify (Some 2)"
  using setter_exit_notifies [of sample_build "set_conf_defaults sample_build" None 0 "[]" 2 None "[Notify (Some 2)]"]
  by (simp add: time_setter_coprocess_def set_conf_defaults_def)

text \<open>
  A time that is not sane is not reported as such: the setter answers it with whatever \<^verbatim>\<open>status\<close>
  held before, an uninitialised value if it is the first message, and never with \<^verbatim>\<open>SETTER_BAD_TIME\<close>.
\<close>

theorem setter_insane_time_status:
  assumes "msg_time c = Some t" and "t \<noteq> 0" and "\<not> is_sane_time B \<bar>t\<bar>"
  shows "setter_turn B o1 c status f = (Again status, f, [Notify status])"
  using assms
  by (auto simp: setter_turn_def msg_time_def Let_def abs_if split: read_res.splits if_splits)

theorem setter_insane_time_status_witness:
  "setter_turn sample_build (set_conf_defaults sample_build)
     \<lparr>msg_read = Rd (time_bytes 5), set_ok = True, rtc_ok = True, save_written = 8\<rparr> None (Some []) =
   (Again None, Some [], [Notify None])"
  using setter_insane_time_status [of "\<lparr>msg_read = Rd (time_bytes 5), set_ok = True, rtc_ok = True, save_written = 8\<rparr>" 5]
  by (simp add: msg_time_def bytes_time_of_bytes is_sane_time_def sample_build_def)

end
