(* ===== verification/Bio.thy ===== *)
theory Bio
  imports Clib
begin

text \<open>
  Byte streams. OpenSSL's BIO layer is not part of the sources: its operations are the fields of
  a record \<open>bio_ops\<close>, over an unknown type \<open>'b\<close> for the BIO below, and every function that does
  I/O takes them as an argument. The one BIO whose code is here is the in-memory BIO of the test
  suite, \<^verbatim>\<open>src/test-bio.c\<close>, modelled below. The locale \<open>stream_bio\<close> is the contract of a BIO
  that takes everything it is given and returns what has arrived; the test BIO satisfies it.
\<close>

section \<open>Bytes and characters\<close>

definition byte_of :: "char \<Rightarrow> byte" where
  "byte_of c = word_of_nat (of_char c)"

definition char_at :: "byte \<Rightarrow> char" where
  "char_at w = char_of (unat w)"

definition bytes_of :: "string \<Rightarrow> byte list" where
  "bytes_of s = map byte_of s"

lemma char_at_byte_of [simp]: "char_at (byte_of c) = c"
proof -
  have "of_char c < (256 :: nat)" using nat_of_char_less_256 .
  then have "unat (word_of_nat (of_char c) :: byte) = of_char c"
    by (simp add: unat_of_nat)
  then show ?thesis by (simp add: char_at_def byte_of_def)
qed

lemma length_bytes_of [simp]: "length (bytes_of s) = length s"
  by (simp add: bytes_of_def)

lemma bytes_of_simps [simp]: "bytes_of [] = []" "bytes_of (c # s) = byte_of c # bytes_of s"
  by (simp_all add: bytes_of_def)

lemma bytes_of_append [simp]: "bytes_of (s @ t) = bytes_of s @ bytes_of t"
  by (simp add: bytes_of_def)

lemma map_char_at_bytes_of [simp]: "map char_at (bytes_of s) = s"
  by (simp add: bytes_of_def comp_def)

section \<open>The interface\<close>

text \<open>What a read brings: bytes, as many as the return value says, or a return value that is no
  count (0 at the end of the stream, -1 or -2): \<open>Rfail e\<close> is the return value \<open>- e\<close>.\<close>

datatype bio_read = Got "byte list" | Rfail nat

definition read_ret :: "bio_read \<Rightarrow> int" where
  "read_ret r = (case r of Got bs \<Rightarrow> int (length bs) | Rfail e \<Rightarrow> - int e)"

definition read_data :: "bio_read \<Rightarrow> byte list" where
  "read_data r = (case r of Got bs \<Rightarrow> bs | Rfail _ \<Rightarrow> [])"

record 'b bio_ops =
  BIO_write :: "byte list \<Rightarrow> 'b \<Rightarrow> int \<times> 'b"
  BIO_read :: "nat \<Rightarrow> 'b \<Rightarrow> bio_read \<times> 'b"
  BIO_ctrl :: "int \<Rightarrow> int \<Rightarrow> 'b \<Rightarrow> int \<times> 'b"
  BIO_gets :: "nat \<Rightarrow> 'b \<Rightarrow> int \<times> string \<times> 'b"
  BIO_puts :: "string \<Rightarrow> 'b \<Rightarrow> int \<times> 'b"

lemma read_simps [simp]:
  "read_ret (Got bs) = int (length bs)" "read_ret (Rfail e) = - int e"
  "read_data (Got bs) = bs" "read_data (Rfail e) = []"
  by (simp_all add: read_ret_def read_data_def)

lemma read_data_length: "0 < read_ret rd \<Longrightarrow> length (read_data rd) = nat (read_ret rd)"
  by (cases rd) simp_all

locale stream_bio =
  fixes ops :: "'b bio_ops" and sent :: "'b \<Rightarrow> byte list" and pending :: "'b \<Rightarrow> byte list"
  assumes write_law: "bs \<noteq> [] \<Longrightarrow> fst (BIO_write ops bs b) = int (length bs) \<and>
      sent (snd (BIO_write ops bs b)) = sent b @ bs \<and> pending (snd (BIO_write ops bs b)) = pending b"
    and read_law: "0 < n \<Longrightarrow> fst (BIO_read ops n b) = Got (take n (pending b)) \<and>
      pending (snd (BIO_read ops n b)) = drop n (pending b) \<and> sent (snd (BIO_read ops n b)) = sent b"
begin

lemma write_stream:
  assumes "bs \<noteq> []"
  obtains b' where "BIO_write ops bs b = (int (length bs), b')" "sent b' = sent b @ bs" "pending b' = pending b"
  using write_law [OF assms, of b] by (metis prod.collapse)

lemma read_stream:
  assumes "0 < n"
  obtains b' where "BIO_read ops n b = (Got (take n (pending b)), b')" "pending b' = drop n (pending b)" "sent b' = sent b"
  using read_law [OF assms, of b] by (metis prod.collapse)

end

text \<open>
  A weaker interface, that of a connection: a write takes some of the bytes and a read brings
  some of those that have arrived, at least one each; at the end of the stream a read brings none.
\<close>

locale chunked_bio =
  fixes ops :: "'b bio_ops" and sent :: "'b \<Rightarrow> byte list" and pending :: "'b \<Rightarrow> byte list"
  assumes write_chunk: "bs \<noteq> [] \<Longrightarrow> \<exists>k b'. 1 \<le> k \<and> k \<le> length bs \<and> BIO_write ops bs b = (int k, b') \<and>
      sent b' = sent b @ take k bs \<and> pending b' = pending b"
    and read_chunk: "0 < n \<Longrightarrow> pending b \<noteq> [] \<Longrightarrow>
      \<exists>k b'. 1 \<le> k \<and> k \<le> n \<and> k \<le> length (pending b) \<and> BIO_read ops n b = (Got (take k (pending b)), b') \<and>
        pending b' = drop k (pending b) \<and> sent b' = sent b"
    and read_end: "0 < n \<Longrightarrow> pending b = [] \<Longrightarrow> read_ret (fst (BIO_read ops n b)) \<le> 0"

sublocale stream_bio \<subseteq> chunked_bio
proof
  fix bs :: "byte list" and b
  assume "bs \<noteq> []"
  then obtain b' where "BIO_write ops bs b = (int (length bs), b')" "sent b' = sent b @ bs" "pending b' = pending b"
    by (rule write_stream)
  with \<open>bs \<noteq> []\<close> show "\<exists>k b'. 1 \<le> k \<and> k \<le> length bs \<and> BIO_write ops bs b = (int k, b') \<and>
      sent b' = sent b @ take k bs \<and> pending b' = pending b"
    by (intro exI [of _ "length bs"] exI [of _ b']) (simp add: Suc_le_eq)
next
  fix n :: nat and b
  assume "0 < n"
  then obtain b' where b': "BIO_read ops n b = (Got (take n (pending b)), b')" "pending b' = drop n (pending b)" "sent b' = sent b"
    by (rule read_stream)
  then show "read_ret (fst (BIO_read ops n b)) \<le> 0" if "pending b = []" using that by simp
  show "\<exists>k b'. 1 \<le> k \<and> k \<le> n \<and> k \<le> length (pending b) \<and> BIO_read ops n b = (Got (take k (pending b)), b') \<and>
        pending b' = drop k (pending b) \<and> sent b' = sent b" if "pending b \<noteq> []"
    using that \<open>0 < n\<close> b'
    by (intro exI [of _ "min n (length (pending b))"] exI [of _ b']) (simp add: Suc_le_eq min_def)
qed

section \<open>test-bio.c\<close>

record test_ctx =
  t_out :: "byte list"
  t_in :: "byte list"

definition buf_drain :: "byte list \<Rightarrow> nat \<Rightarrow> byte list \<times> byte list" where
  "buf_drain buf outsz = (let n = (if length buf < outsz then length buf else outsz) in (take n buf, drop n buf))"

definition buf_fill :: "byte list \<Rightarrow> byte list \<Rightarrow> byte list" where
  "buf_fill buf inp = buf @ inp"

definition test_new :: test_ctx where
  "test_new = \<lparr>t_out = [], t_in = []\<rparr>"

definition test_write :: "byte list \<Rightarrow> test_ctx \<Rightarrow> int \<times> test_ctx" where
  "test_write buf c =
     (if length buf \<le> 0 then (0, c) else (int (length buf), c\<lparr>t_out := buf_fill (t_out c) buf\<rparr>))"

definition test_read :: "nat \<Rightarrow> test_ctx \<Rightarrow> bio_read \<times> test_ctx" where
  "test_read sz c =
     (if sz \<le> 0 then (Rfail 0, c)
      else let (got, rest) = buf_drain (t_in c) sz in (Got got, c\<lparr>t_in := rest\<rparr>))"

text \<open>\<^verbatim>\<open>test_methods\<close> has no gets and puts, which OpenSSL reports as -2.\<close>

definition test_methods :: "test_ctx bio_ops" where
  "test_methods =
     \<lparr>BIO_write = test_write, BIO_read = test_read, BIO_ctrl = (\<lambda>_ _ c. (0, c)),
      BIO_gets = (\<lambda>_ c. (-2, [], c)), BIO_puts = (\<lambda>_ c. (-2, c))\<rparr>"

definition BIO_test_get_output :: "nat \<Rightarrow> test_ctx \<Rightarrow> byte list \<times> test_ctx" where
  "BIO_test_get_output n c = (let (got, rest) = buf_drain (t_out c) n in (got, c\<lparr>t_out := rest\<rparr>))"

definition BIO_test_add_input :: "byte list \<Rightarrow> test_ctx \<Rightarrow> test_ctx" where
  "BIO_test_add_input buf c = c\<lparr>t_in := buf_fill (t_in c) buf\<rparr>"

lemma buf_drain_eq: "buf_drain buf n = (take n buf, drop n buf)"
  by (simp add: buf_drain_def)

interpretation test_bio: stream_bio test_methods t_out t_in
  by unfold_locales (auto simp: test_methods_def test_write_def test_read_def buf_drain_eq buf_fill_def)

end
