(* ===== verification/Proxy_Bio.thy ===== *)
theory Proxy_Bio
  imports Bio
begin

text \<open>
  Connecting through a proxy, \<^verbatim>\<open>src/proxy-bio.c\<close>: a filter BIO that performs a SOCKS4a, SOCKS5 or
  HTTP CONNECT handshake on the BIO below before the first byte passes. The handshakes are
  written over any \<open>bio_ops\<close>. The header lines of an HTTP answer may never end: that loop takes
  fuel, one unit per line, and \<open>None\<close> says that it has not returned. The contract of the
  handshakes is proved once over the interface \<open>stream_bio\<close> and instantiated with the test BIO.
\<close>

section \<open>Context\<close>

datatype proxy_kind = Socks5 | Socks4a | Http

record proxy_ctx =
  p_host :: "string option"
  p_port :: "16 word"
  p_connected :: bool
  p_connect :: "proxy_kind option"

definition NI_MAXHOST :: nat where [limit_defs]: "NI_MAXHOST = 1025"

text \<open>The size of the packet buffers.\<close>

definition PACKET_SIZE :: nat where [limit_defs]: "PACKET_SIZE = NI_MAXHOST + 16"

definition proxy_new :: proxy_ctx where
  "proxy_new = \<lparr>p_host = None, p_port = 0, p_connected = False, p_connect = None\<rparr>"

definition BIO_proxy_set_type :: "string \<Rightarrow> proxy_ctx \<Rightarrow> int \<times> proxy_ctx" where
  "BIO_proxy_set_type type ctx =
     (if type = ''socks5'' then (0, ctx\<lparr>p_connect := Some Socks5\<rparr>)
      else if type = ''socks4a'' then (0, ctx\<lparr>p_connect := Some Socks4a\<rparr>)
      else if type = ''http'' then (0, ctx\<lparr>p_connect := Some Http\<rparr>)
      else (1, ctx))"

definition BIO_proxy_set_host :: "string \<Rightarrow> proxy_ctx \<Rightarrow> int \<times> proxy_ctx" where
  "BIO_proxy_set_host host ctx =
     (if strnlen host NI_MAXHOST = NI_MAXHOST then (1, ctx) else (0, ctx\<lparr>p_host := Some host\<rparr>))"

definition BIO_proxy_set_port :: "16 word \<Rightarrow> proxy_ctx \<Rightarrow> proxy_ctx" where
  "BIO_proxy_set_port port ctx = ctx\<lparr>p_port := port\<rparr>"

section \<open>SOCKS4a\<close>

text \<open>A port in network byte order.\<close>

definition port_n :: "16 word \<Rightarrow> byte list" where
  "port_n p = [word_of_nat (unat p div 256), word_of_nat (unat p mod 256)]"

definition socks4a_request :: "string \<Rightarrow> 16 word \<Rightarrow> byte list" where
  "socks4a_request host port =
     [0x04, 0x01] @ port_n port @ [0x00, 0x00, 0x00, 0x01] @ [0x00] @ bytes_of host @ [0x00]"

definition socks4a_connect :: "'b bio_ops \<Rightarrow> string \<Rightarrow> proxy_ctx \<Rightarrow> 'b \<Rightarrow> int \<times> proxy_ctx \<times> 'b" where
  "socks4a_connect ops host ctx b =
     (let buf = socks4a_request host (p_port ctx);
          (r, b1) = BIO_write ops buf b
      in if r = -1 then (-1, ctx, b1)
         else if r \<noteq> int (length buf) then (0, ctx, b1)
         else
           let (rd, b2) = BIO_read ops 8 b1
           in if read_ret rd = -1 then (-1, ctx, b2)
              else if read_ret rd \<noteq> 8 then (0, ctx, b2)
              else if read_data rd ! 1 = 0x5a then (1, ctx\<lparr>p_connected := True\<rparr>, b2)
              else (0, ctx, b2))"

section \<open>SOCKS5\<close>

definition socks5_hello :: "byte list" where
  "socks5_hello = [0x05, 0x01, 0x00]"

definition socks5_request :: "string \<Rightarrow> 16 word \<Rightarrow> byte list" where
  "socks5_request host port =
     [0x05, 0x01, 0x00, 0x03, word_of_nat (length host)] @ bytes_of host @ port_n port"

text \<open>The loop that reads the address in the answer away; \<open>False\<close> when a read fails.\<close>

function socks5_skip :: "'b bio_ops \<Rightarrow> nat \<Rightarrow> 'b \<Rightarrow> bool \<times> 'b" where
  "socks5_skip ops len b =
     (if len = 0 then (True, b)
      else let (rd, b') = BIO_read ops (min len PACKET_SIZE) b
           in if read_ret rd \<le> 0 then (False, b')
              else socks5_skip ops (len - min len (nat (read_ret rd))) b')"
  by pat_completeness auto
termination
  by (relation "measure (\<lambda>(ops, len, b). len)") auto

declare socks5_skip.simps [simp del]

text \<open>The answer after its first four bytes; the last byte of these is the address type.\<close>

definition socks5_address :: "'b bio_ops \<Rightarrow> byte \<Rightarrow> 'b \<Rightarrow> bool \<times> 'b" where
  "socks5_address ops atype b =
     (if atype = 0x03 then
        (let (rd, b1) = BIO_read ops 1 b
         in if read_ret rd \<noteq> 1 then (False, b1)
            else socks5_skip ops (unat (read_data rd ! 0) + 2) b1)
      else if atype = 0x01 then
        (let (rd, b1) = BIO_read ops 6 b in (read_ret rd = 6, b1))
      else (True, b))"

definition socks5_connect :: "'b bio_ops \<Rightarrow> string \<Rightarrow> proxy_ctx \<Rightarrow> 'b \<Rightarrow> int \<times> proxy_ctx \<times> 'b" where
  "socks5_connect ops host ctx b =
     (if strnlen host 256 = 256 then (0, ctx, b)
      else
        let (r, b1) = BIO_write ops socks5_hello b
        in if r \<noteq> 3 then (0, ctx, b1)
           else let (rd, b2) = BIO_read ops 2 b1
           in if read_ret rd \<noteq> 2 then (0, ctx, b2)
           else if read_data rd ! 0 \<noteq> 0x05 \<or> read_data rd ! 1 \<noteq> 0x00 then (0, ctx, b2)
           else let buf = socks5_request host (p_port ctx); (r, b3) = BIO_write ops buf b2
           in if r = -1 then (-1, ctx, b3)
           else if r \<noteq> int (length buf) then (0, ctx, b3)
           else let (rd, b4) = BIO_read ops 4 b3
           in if read_ret rd = -1 then (-1, ctx, b4)
           else if read_ret rd \<noteq> 4 then (0, ctx, b4)
           else if read_data rd ! 0 \<noteq> 0x05 \<or> read_data rd ! 1 \<noteq> 0x00 then (0, ctx, b4)
           else let (ok, b5) = socks5_address ops (read_data rd ! 3) b4
           in if \<not> ok then (0, ctx, b5) else (1, ctx\<lparr>p_connected := True\<rparr>, b5))"

section \<open>HTTP CONNECT\<close>

text \<open>\<^verbatim>\<open>sock_gets\<close> with room for \<open>sz\<close> bytes: 0 and the line, or 1. It reads a byte before it looks
  at the room that is left.\<close>

fun sock_gets :: "'b bio_ops \<Rightarrow> nat \<Rightarrow> 'b \<Rightarrow> int \<times> string \<times> 'b" where
  "sock_gets ops sz b =
     (let (rd, b1) = BIO_read ops 1 b
      in if read_ret rd \<le> 0 \<or> sz \<le> 1 then (1, [], b1)
         else let c = char_at (read_data rd ! 0)
              in if c = CHR 0x0A then (0, [c], b1)
                 else let (r, line, b2) = sock_gets ops (sz - 1) b1 in (r, c # line, b2))"

declare sock_gets.simps [simp del]

text \<open>\<^verbatim>\<open>sscanf (buf, "HTTP/%*s %d", &retcode)\<close>: the number, if the conversion reaches it.\<close>

definition scan_status :: "string \<Rightarrow> int option" where
  "scan_status line =
     (if take 5 line \<noteq> ''HTTP/'' then None
      else let s1 = dropWhile isspace (drop 5 line); word = takeWhile (\<lambda>c. \<not> isspace c) s1
           in if word = [] then None
              else map_option (to_int32 \<circ> fst) (strtol (dropWhile (\<lambda>c. \<not> isspace c) s1)))"

definition HTTP_BUF :: nat where [limit_defs]: "HTTP_BUF = 4096"

text \<open>\<^verbatim>\<open>snprintf\<close> into the buffer keeps at most its size less one.\<close>

definition connect_line :: "string \<Rightarrow> 16 word \<Rightarrow> string" where
  "connect_line host port =
     take (HTTP_BUF - 1) (''CONNECT '' @ host @ '':'' @ show_int (uint port) @ '' HTTP/1.1'' @ [CHR 0x0D, CHR 0x0A])"

definition host_line :: "string \<Rightarrow> 16 word \<Rightarrow> string" where
  "host_line host port =
     take (HTTP_BUF - 1) (''Host: '' @ host @ '':'' @ show_int (uint port) @ [CHR 0x0D, CHR 0x0A])"

definition CRLF :: string where "CRLF = [CHR 0x0D, CHR 0x0A]"

text \<open>The loop over the header lines: 1 when the empty line is read, 0 when reading fails.\<close>

fun http_headers :: "'b bio_ops \<Rightarrow> nat \<Rightarrow> 'b \<Rightarrow> (int \<times> 'b) option" where
  "http_headers ops 0 b = None"
| "http_headers ops (Suc fuel) b =
     (let (r, line, b1) = sock_gets ops HTTP_BUF b
      in if r \<noteq> 0 then Some (0, b1)
         else if c_str line = CRLF then Some (1, b1)
         else http_headers ops fuel b1)"

text \<open>Writing one of the three lines of the request: \<open>None\<close> to go on, else the return value.\<close>

definition write_line :: "'b bio_ops \<Rightarrow> string \<Rightarrow> 'b \<Rightarrow> int option \<times> 'b" where
  "write_line ops line b =
     (let (r, b1) = BIO_write ops (bytes_of line) b
      in if r = -1 then (Some (-1), b1)
         else if r \<noteq> int (length line) then (Some 0, b1)
         else (None, b1))"

definition http_connect :: "'b bio_ops \<Rightarrow> nat \<Rightarrow> string \<Rightarrow> proxy_ctx \<Rightarrow> 'b \<Rightarrow> (int \<times> proxy_ctx \<times> 'b) option" where
  "http_connect ops fuel host ctx b =
     (case write_line ops (connect_line host (p_port ctx)) b of
        (Some r, b1) \<Rightarrow> Some (r, ctx, b1)
      | (None, b1) \<Rightarrow>
     (case write_line ops (host_line host (p_port ctx)) b1 of
        (Some r, b2) \<Rightarrow> Some (r, ctx, b2)
      | (None, b2) \<Rightarrow>
     (case write_line ops CRLF b2 of
        (Some r, b3) \<Rightarrow> Some (r, ctx, b3)
      | (None, b3) \<Rightarrow>
          (let (r, line, b4) = sock_gets ops HTTP_BUF b3
           in if r \<noteq> 0 then Some (0, ctx, b4)
              else (case scan_status (c_str line) of
                      None \<Rightarrow> Some (0, ctx, b4)
                    | Some retcode \<Rightarrow>
                        if retcode < 200 \<or> retcode > 299 then Some (0, ctx, b4)
                        else (case http_headers ops fuel b4 of
                                None \<Rightarrow> None
                              | Some (ok, b5) \<Rightarrow>
                                  if ok = 1 then Some (1, ctx\<lparr>p_connected := True\<rparr>, b5)
                                  else Some (0, ctx, b5)))))))"

section \<open>The filter\<close>

definition proxy_connect :: "'b bio_ops \<Rightarrow> nat \<Rightarrow> proxy_ctx \<Rightarrow> 'b \<Rightarrow> (int \<times> proxy_ctx \<times> 'b) option result" where
  "proxy_connect ops fuel ctx b =
     (case p_connect ctx of
        None \<Rightarrow> Inl Abort
      | Some kind \<Rightarrow>
          (case p_host ctx of
             None \<Rightarrow> Inl Null_Deref
           | Some host \<Rightarrow>
               Inr (case kind of
                      Socks5 \<Rightarrow> Some (socks5_connect ops host ctx b)
                    | Socks4a \<Rightarrow> Some (socks4a_connect ops host ctx b)
                    | Http \<Rightarrow> http_connect ops fuel host ctx b)))"

text \<open>\<open>next_bio\<close>: whether there is a BIO below.\<close>

definition proxy_write :: "'b bio_ops \<Rightarrow> nat \<Rightarrow> bool \<Rightarrow> byte list \<Rightarrow> proxy_ctx \<Rightarrow> 'b \<Rightarrow>
    (int \<times> proxy_ctx \<times> 'b) option result" where
  "proxy_write ops fuel next_bio buf ctx b =
     (if buf = [] then Inr (Some (0, ctx, b))
      else if \<not> next_bio then Inr (Some (0, ctx, b))
      else if p_connected ctx then
        (let (r, b') = BIO_write ops buf b in Inr (Some (r, ctx, b')))
      else bind_res (proxy_connect ops fuel ctx b) (\<lambda>res.
        case res of None \<Rightarrow> Inr None
        | Some (ret, ctx1, b1) \<Rightarrow>
            if ret = 0 then Inr (Some (0, ctx1, b1))
            else let (r, b2) = BIO_write ops buf b1 in Inr (Some (r, ctx1, b2))))"

definition proxy_read :: "'b bio_ops \<Rightarrow> nat \<Rightarrow> bool \<Rightarrow> nat \<Rightarrow> proxy_ctx \<Rightarrow> 'b \<Rightarrow>
    (bio_read \<times> proxy_ctx \<times> 'b) option result" where
  "proxy_read ops fuel next_bio sz ctx b =
     (if \<not> next_bio then Inr (Some (Rfail 0, ctx, b))
      else if p_connected ctx then
        (let (rd, b') = BIO_read ops sz b in Inr (Some (rd, ctx, b')))
      else bind_res (proxy_connect ops fuel ctx b) (\<lambda>res.
        case res of None \<Rightarrow> Inr None
        | Some (ret, ctx1, b1) \<Rightarrow>
            if ret = 0 then Inr (Some (Rfail 0, ctx1, b1))
            else let (rd, b2) = BIO_read ops sz b1 in Inr (Some (rd, ctx1, b2))))"

text \<open>12 is \<^verbatim>\<open>BIO_CTRL_DUP\<close>; every other command goes to the BIO below.\<close>

definition proxy_ctrl :: "'b bio_ops \<Rightarrow> bool \<Rightarrow> int \<Rightarrow> int \<Rightarrow> 'b \<Rightarrow> int \<times> 'b" where
  "proxy_ctrl ops next_bio cmd num b =
     (if \<not> next_bio then (0, b) else if cmd = 12 then (0, b) else BIO_ctrl ops cmd num b)"

definition proxy_gets :: "'b bio_ops \<Rightarrow> nat \<Rightarrow> 'b \<Rightarrow> int \<times> string \<times> 'b" where
  "proxy_gets ops size1 b = BIO_gets ops size1 b"

definition proxy_puts :: "'b bio_ops \<Rightarrow> string \<Rightarrow> 'b \<Rightarrow> int \<times> 'b" where
  "proxy_puts ops str b = BIO_puts ops str b"

section \<open>The handshakes over a stream\<close>

lemma socks4a_request_nonempty [simp]: "socks4a_request host port \<noteq> []" "socks5_request host port \<noteq> []"
  "socks5_hello \<noteq> []"
  by (simp_all add: socks4a_request_def socks5_request_def socks5_hello_def)

lemma sock_gets_stop: "sz \<le> 1 \<Longrightarrow> fst (sock_gets ops sz b) = 1"
  by (subst sock_gets.simps) (simp add: Let_def split: prod.split)

context stream_bio
begin

lemma write_line_stream:
  assumes "line \<noteq> []"
  obtains b' where "write_line ops line b = (None, b')" "sent b' = sent b @ bytes_of line" "pending b' = pending b"
proof -
  have "bytes_of line \<noteq> []" using assms by (simp add: bytes_of_def)
  then obtain b' where "BIO_write ops (bytes_of line) b = (int (length (bytes_of line)), b')"
    "sent b' = sent b @ bytes_of line" "pending b' = pending b"
    by (rule write_stream)
  then show ?thesis by (intro that [of b']) (simp_all add: write_line_def)
qed

lemma socks4a_stream:
  assumes "pending b = reply @ rest" and "length reply = 8"
  shows "\<exists>b'. socks4a_connect ops host ctx b =
       (if reply ! 1 = 0x5a then 1 else 0, if reply ! 1 = 0x5a then ctx\<lparr>p_connected := True\<rparr> else ctx, b') \<and>
     sent b' = sent b @ socks4a_request host (p_port ctx) \<and> pending b' = rest"
proof -
  obtain b1 where 1: "BIO_write ops (socks4a_request host (p_port ctx)) b = (int (length (socks4a_request host (p_port ctx))), b1)"
    "sent b1 = sent b @ socks4a_request host (p_port ctx)" "pending b1 = pending b"
    by (rule write_stream [of "socks4a_request host (p_port ctx)"]) simp
  obtain b2 where 2: "BIO_read ops 8 b1 = (Got (take 8 (pending b1)), b2)" "pending b2 = drop 8 (pending b1)" "sent b2 = sent b1"
    by (rule read_stream [of 8]) simp
  show ?thesis
    using assms 1 2 by (intro exI [of _ b2]) (simp add: socks4a_connect_def Let_def)
qed

lemma socks5_skip_stream:
  assumes "pending b = addr @ rest" and "length addr = len" and "len \<le> PACKET_SIZE"
  shows "\<exists>b'. socks5_skip ops len b = (True, b') \<and> sent b' = sent b \<and> pending b' = rest"
proof (cases "len = 0")
  case True
  then show ?thesis using assms by (simp add: socks5_skip.simps)
next
  case False
  obtain b1 where 1: "BIO_read ops len b = (Got (take len (pending b)), b1)" "pending b1 = drop len (pending b)" "sent b1 = sent b"
    by (rule read_stream [of len]) (use False in simp)
  have "socks5_skip ops len b = socks5_skip ops 0 b1"
    using assms 1 False by (subst socks5_skip.simps) (simp add: min_absorb1)
  then show ?thesis using assms 1 by (simp add: socks5_skip.simps)
qed

lemma socks5_stream:
  assumes "pending b = [0x05, 0x00] @ [0x05, 0x00, rsv, 0x03, word_of_nat n] @ addr @ rest"
    and "n < 256" and "length addr = n + 2" and "length host \<le> 255"
  shows "\<exists>b'. socks5_connect ops host ctx b = (1, ctx\<lparr>p_connected := True\<rparr>, b') \<and>
     sent b' = sent b @ socks5_hello @ socks5_request host (p_port ctx) \<and> pending b' = rest"
proof -
  obtain b1 where 1: "BIO_write ops socks5_hello b = (int (length socks5_hello), b1)"
    "sent b1 = sent b @ socks5_hello" "pending b1 = pending b"
    by (rule write_stream [of socks5_hello]) simp
  obtain b2 where 2: "BIO_read ops 2 b1 = (Got (take 2 (pending b1)), b2)" "pending b2 = drop 2 (pending b1)" "sent b2 = sent b1"
    by (rule read_stream [of 2]) simp
  obtain b3 where 3: "BIO_write ops (socks5_request host (p_port ctx)) b2 = (int (length (socks5_request host (p_port ctx))), b3)"
    "sent b3 = sent b2 @ socks5_request host (p_port ctx)" "pending b3 = pending b2"
    by (rule write_stream [of "socks5_request host (p_port ctx)"]) simp
  obtain b4 where 4: "BIO_read ops 4 b3 = (Got (take 4 (pending b3)), b4)" "pending b4 = drop 4 (pending b3)" "sent b4 = sent b3"
    by (rule read_stream [of 4]) simp
  obtain b5 where 5: "BIO_read ops 1 b4 = (Got (take 1 (pending b4)), b5)" "pending b5 = drop 1 (pending b4)" "sent b5 = sent b4"
    by (rule read_stream [of 1]) simp
  have "pending b5 = addr @ rest" and p4: "pending b4 = word_of_nat n # addr @ rest"
    using assms(1) 1 2 3 4 5 by simp_all
  then obtain b6 where 6: "socks5_skip ops (n + 2) b5 = (True, b6)" "sent b6 = sent b5" "pending b6 = rest"
    using socks5_skip_stream [of b5 addr rest "n + 2"] assms(2,3) by (auto simp: limit_defs)
  have n: "unat (word_of_nat n :: byte) = n" using assms(2) by (simp add: unat_of_nat)
  have a: "socks5_address ops 3 b4 = (True, b6)"
    using 5 6 p4 n by (simp add: socks5_address_def)
  have c: "socks5_connect ops host ctx b = (1, ctx\<lparr>p_connected := True\<rparr>, b6)"
    using assms 1 2 3 4 a by (simp add: socks5_connect_def Let_def strnlen_def socks5_hello_def)
  then show ?thesis using 1 2 3 4 5 6 by (intro exI [of _ b6]) simp
qed

text \<open>One line, when it fits the buffer.\<close>

lemma sock_gets_stream:
  assumes "pending b = bytes_of (line @ [CHR 0x0A]) @ rest" and "CHR 0x0A \<notin> set line" and "length line + 1 < sz"
  shows "\<exists>b'. sock_gets ops sz b = (0, line @ [CHR 0x0A], b') \<and> sent b' = sent b \<and> pending b' = rest"
  using assms
proof (induction line arbitrary: b sz)
  case Nil
  obtain b1 where 1: "BIO_read ops 1 b = (Got (take 1 (pending b)), b1)" "pending b1 = drop 1 (pending b)" "sent b1 = sent b"
    by (rule read_stream [of 1]) simp
  then show ?case
    using Nil by (subst sock_gets.simps) (simp add: bytes_of_def)
next
  case (Cons c line)
  obtain b1 where 1: "BIO_read ops 1 b = (Got (take 1 (pending b)), b1)" "pending b1 = drop 1 (pending b)" "sent b1 = sent b"
    by (rule read_stream [of 1]) simp
  have "pending b1 = bytes_of (line @ [CHR 0x0A]) @ rest" using 1 Cons.prems by (simp add: bytes_of_def)
  moreover have "length line + 1 < sz - 1" using Cons.prems by simp
  ultimately obtain b2 where "sock_gets ops (sz - 1) b1 = (0, line @ [CHR 0x0A], b2)" "sent b2 = sent b1" "pending b2 = rest"
    using Cons.IH [of b1 "sz - 1"] Cons.prems(2) by auto
  then show ?case
    using Cons.prems 1 by (subst sock_gets.simps) auto
qed

end

text \<open>A header line: no line feed inside, not the empty line, no NUL, within the buffer.\<close>

definition header_ok :: "string \<Rightarrow> bool" where
  "header_ok line \<longleftrightarrow> CHR 0x0A \<notin> set line \<and> NUL \<notin> set line \<and> line \<noteq> [CHR 0x0D] \<and> length line + 1 < HTTP_BUF"

definition header_text :: "string list \<Rightarrow> string" where
  "header_text hs = concat (map (\<lambda>h. h @ [CHR 0x0A]) hs)"

context stream_bio
begin

lemma http_headers_stream:
  assumes "pending b = bytes_of (header_text hs @ CRLF) @ rest" and "\<forall>h \<in> set hs. header_ok h" and "length hs < fuel"
  shows "\<exists>b'. http_headers ops fuel b = Some (1, b') \<and> sent b' = sent b \<and> pending b' = rest"
  using assms
proof (induction hs arbitrary: b fuel)
  case Nil
  then obtain f where f: "fuel = Suc f" by (cases fuel) auto
  have "pending b = bytes_of ([CHR 0x0D] @ [CHR 0x0A]) @ rest" using Nil by (simp add: header_text_def CRLF_def)
  then obtain b1 where "sock_gets ops HTTP_BUF b = (0, [CHR 0x0D] @ [CHR 0x0A], b1)" "sent b1 = sent b" "pending b1 = rest"
    using sock_gets_stream [of b "[CHR 0x0D]" rest HTTP_BUF] by (auto simp: limit_defs)
  then show ?case by (simp add: f c_str_def CRLF_def NUL_def)
next
  case (Cons h hs)
  then obtain f where f: "fuel = Suc f" by (cases fuel) auto
  have "pending b = bytes_of (h @ [CHR 0x0A]) @ (bytes_of (header_text hs @ CRLF) @ rest)"
    using Cons.prems by (simp add: header_text_def)
  then obtain b1 where 1: "sock_gets ops HTTP_BUF b = (0, h @ [CHR 0x0A], b1)" "sent b1 = sent b"
      "pending b1 = bytes_of (header_text hs @ CRLF) @ rest"
    using sock_gets_stream [of b h _ HTTP_BUF] Cons.prems by (auto simp: header_ok_def)
  have "c_str (h @ [CHR 0x0A]) = h @ [CHR 0x0A]" using Cons.prems by (intro c_str_id) (simp add: header_ok_def NUL_def)
  moreover have "h @ [CHR 0x0A] \<noteq> CRLF" using Cons.prems by (simp add: header_ok_def CRLF_def)
  moreover obtain b2 where "http_headers ops f b1 = Some (1, b2)" "sent b2 = sent b1" "pending b2 = rest"
    using Cons.IH [OF 1(3), of f] Cons.prems f by auto
  ultimately show ?case using 1 by (simp add: f)
qed

text \<open>What \<^verbatim>\<open>http_connect\<close> does once its request is out.\<close>

definition http_answer :: "nat \<Rightarrow> proxy_ctx \<Rightarrow> 'b \<Rightarrow> (int \<times> proxy_ctx \<times> 'b) option" where
  "http_answer fuel ctx b3 =
     (let (r, line, b4) = sock_gets ops HTTP_BUF b3
      in if r \<noteq> 0 then Some (0, ctx, b4)
         else (case scan_status (c_str line) of
                 None \<Rightarrow> Some (0, ctx, b4)
               | Some retcode \<Rightarrow>
                   if retcode < 200 \<or> retcode > 299 then Some (0, ctx, b4)
                   else (case http_headers ops fuel b4 of
                           None \<Rightarrow> None
                         | Some (ok, b5) \<Rightarrow>
                             if ok = 1 then Some (1, ctx\<lparr>p_connected := True\<rparr>, b5)
                             else Some (0, ctx, b5))))"

lemma http_connect_request:
  obtains b3 where "sent b3 = sent b @ bytes_of (connect_line host (p_port ctx)) @ bytes_of (host_line host (p_port ctx)) @ bytes_of CRLF"
    "pending b3 = pending b" "http_connect ops fuel host ctx b = http_answer fuel ctx b3"
proof -
  obtain b1 where 1: "write_line ops (connect_line host (p_port ctx)) b = (None, b1)"
    "sent b1 = sent b @ bytes_of (connect_line host (p_port ctx))" "pending b1 = pending b"
    by (rule write_line_stream [of "connect_line host (p_port ctx)"]) (simp add: connect_line_def limit_defs)
  obtain b2 where 2: "write_line ops (host_line host (p_port ctx)) b1 = (None, b2)"
    "sent b2 = sent b1 @ bytes_of (host_line host (p_port ctx))" "pending b2 = pending b1"
    by (rule write_line_stream [of "host_line host (p_port ctx)"]) (simp add: host_line_def limit_defs)
  obtain b3 where 3: "write_line ops CRLF b2 = (None, b3)" "sent b3 = sent b2 @ bytes_of CRLF" "pending b3 = pending b2"
    by (rule write_line_stream [of CRLF]) (simp add: CRLF_def)
  show ?thesis using 1 2 3 by (intro that [of b3]) (simp_all add: http_connect_def http_answer_def)
qed

lemma http_stream:
  assumes "pending b = bytes_of (status @ [CHR 0x0A] @ header_text hs @ CRLF) @ rest"
    and "header_ok status" and "\<forall>h \<in> set hs. header_ok h"
    and "scan_status (status @ [CHR 0x0A]) = Some code" and "200 \<le> code" "code \<le> 299" and "length hs < fuel"
  shows "\<exists>b'. http_connect ops fuel host ctx b = Some (1, ctx\<lparr>p_connected := True\<rparr>, b') \<and>
     sent b' = sent b @ bytes_of (connect_line host (p_port ctx)) @ bytes_of (host_line host (p_port ctx)) @ bytes_of CRLF \<and>
     pending b' = rest"
proof -
  obtain b3 where r: "sent b3 = sent b @ bytes_of (connect_line host (p_port ctx)) @ bytes_of (host_line host (p_port ctx)) @ bytes_of CRLF"
    "pending b3 = pending b" "http_connect ops fuel host ctx b = http_answer fuel ctx b3"
    by (rule http_connect_request)
  obtain b4 where 4: "sock_gets ops HTTP_BUF b3 = (0, status @ [CHR 0x0A], b4)" "sent b4 = sent b3"
      "pending b4 = bytes_of (header_text hs @ CRLF) @ rest"
    using sock_gets_stream [of b3 status "bytes_of (header_text hs @ CRLF) @ rest" HTTP_BUF] assms(1,2) r(2)
    by (auto simp: header_ok_def)
  have "c_str (status @ [CHR 0x0A]) = status @ [CHR 0x0A]"
    using assms(2) by (intro c_str_id) (simp add: header_ok_def NUL_def)
  moreover obtain b5 where "http_headers ops fuel b4 = Some (1, b5)" "sent b5 = sent b4" "pending b5 = rest"
    using http_headers_stream [OF 4(3) assms(3,7)] by blast
  ultimately show ?thesis
    using assms(4-6) r 4 by (simp add: http_answer_def)
qed

text \<open>A status line with any other code, or none, ends the handshake there.\<close>

lemma http_refused:
  assumes "pending b = bytes_of (status @ [CHR 0x0A]) @ rest" and "header_ok status"
    and "\<And>code. scan_status (status @ [CHR 0x0A]) = Some code \<Longrightarrow> code < 200 \<or> 299 < code"
  shows "\<exists>b'. http_connect ops fuel host ctx b = Some (0, ctx, b') \<and>
     sent b' = sent b @ bytes_of (connect_line host (p_port ctx)) @ bytes_of (host_line host (p_port ctx)) @ bytes_of CRLF \<and>
     pending b' = rest"
proof -
  obtain b3 where r: "sent b3 = sent b @ bytes_of (connect_line host (p_port ctx)) @ bytes_of (host_line host (p_port ctx)) @ bytes_of CRLF"
    "pending b3 = pending b" "http_connect ops fuel host ctx b = http_answer fuel ctx b3"
    by (rule http_connect_request)
  obtain b4 where 4: "sock_gets ops HTTP_BUF b3 = (0, status @ [CHR 0x0A], b4)" "sent b4 = sent b3" "pending b4 = rest"
    using sock_gets_stream [of b3 status rest HTTP_BUF] assms(1,2) r(2) by (auto simp: header_ok_def)
  have "c_str (status @ [CHR 0x0A]) = status @ [CHR 0x0A]"
    using assms(2) by (intro c_str_id) (simp add: header_ok_def NUL_def)
  then show ?thesis using assms(3) r 4 by (auto simp: http_answer_def split: option.splits)
qed

text \<open>Every line read shortens what is pending, so the loop over the header ends.\<close>

lemma sock_gets_shorter: "sock_gets ops sz b = (0, line, b') \<Longrightarrow> length (pending b') < length (pending b)"
proof (induction sz arbitrary: b line)
  case 0
  then show ?case using sock_gets_stop [of 0 ops b] by simp
next
  case (Suc sz)
  obtain b1 where 1: "BIO_read ops 1 b = (Got (take 1 (pending b)), b1)" "pending b1 = drop 1 (pending b)"
    by (rule read_stream [of 1]) simp
  have step: "sock_gets ops (Suc sz) b =
      (if pending b = [] \<or> sz = 0 then (1, [], b1)
       else if char_at (pending b ! 0) = CHR 0x0A then (0, [char_at (pending b ! 0)], b1)
       else let (r, l, b2) = sock_gets ops sz b1 in (r, char_at (pending b ! 0) # l, b2))"
    using 1 by (cases "pending b") (simp_all add: sock_gets.simps [of ops "Suc sz"] Let_def)
  have ne: "pending b \<noteq> []" using Suc.prems unfolding step by (simp split: if_splits)
  have rest: "line = [CHR 0x0A] \<and> b' = b1 \<or> (\<exists>line'. sock_gets ops sz b1 = (0, line', b'))"
    using Suc.prems unfolding step by (auto split: if_splits prod.splits)
  from rest show ?case
  proof
    assume "line = [CHR 0x0A] \<and> b' = b1"
    then show ?thesis using ne 1 by simp
  next
    assume "\<exists>line'. sock_gets ops sz b1 = (0, line', b')"
    then show ?thesis using Suc.IH 1 by fastforce
  qed
qed

lemma http_headers_returns: "length (pending b) < fuel \<Longrightarrow> \<exists>r. http_headers ops fuel b = Some r"
proof (induction fuel arbitrary: b)
  case 0
  then show ?case by simp
next
  case (Suc fuel)
  obtain r line b1 where l: "sock_gets ops HTTP_BUF b = (r, line, b1)" by (cases "sock_gets ops HTTP_BUF b")
  show ?case
  proof (cases "r \<noteq> 0 \<or> c_str line = CRLF")
    case True
    then show ?thesis using l by auto
  next
    case False
    then have "length (pending b1) < fuel" using sock_gets_shorter [of HTTP_BUF b line b1] l Suc.prems by simp
    with False l Suc.IH show ?thesis by simp
  qed
qed

lemma http_connect_returns:
  assumes "length (pending b) < fuel"
  shows "\<exists>r. http_connect ops fuel host ctx b = Some r"
proof -
  obtain b3 where r: "pending b3 = pending b" "http_connect ops fuel host ctx b = http_answer fuel ctx b3"
    by (rule http_connect_request)
  obtain q line b4 where l: "sock_gets ops HTTP_BUF b3 = (q, line, b4)" by (cases "sock_gets ops HTTP_BUF b3")
  have "\<exists>r. http_headers ops fuel b4 = Some r" if "q = 0"
    using http_headers_returns [of b4 fuel] sock_gets_shorter [of HTTP_BUF b3 line b4] l that r(1) assms by simp
  then show ?thesis
    unfolding r(2) by (auto simp: http_answer_def l split: option.split)
qed

end

section \<open>Facts on the packets\<close>

lemma length_port_n [simp]: "length (port_n p) = 2"
  by (simp add: port_n_def)

lemma length_dec_nat: "n < 10 ^ Suc k \<Longrightarrow> length (dec_nat n) \<le> Suc k"
proof (induction k arbitrary: n)
  case 0
  then show ?case by (simp add: dec_nat.simps)
next
  case (Suc k)
  show ?case
  proof (cases "n < 10")
    case True
    then show ?thesis by (simp add: dec_nat.simps)
  next
    case False
    have "n div 10 < 10 ^ Suc k" using Suc.prems by (simp add: less_mult_imp_div_less)
    with Suc.IH False show ?thesis by (subst dec_nat.simps) simp
  qed
qed

lemma length_show_port: "length (show_int (uint (port :: 16 word))) \<le> 5"
proof -
  have "unat port < 2 ^ 16" using unsigned_less [of port, where ?'a = nat] by simp
  then have "length (dec_nat (unat port)) \<le> Suc 4" by (intro length_dec_nat) simp
  moreover have "show_int (uint port) = dec_nat (unat port)"
    by (simp add: show_int_def not_less)
  ultimately show ?thesis by simp
qed

lemma take_fits: "length xs \<le> n \<Longrightarrow> take n xs = xs"
  by simp

section \<open>Properties\<close>

text \<open>
  The SOCKS4a handshake, over any stream: exactly the request for the configured host and
  port goes out, exactly the eight bytes of the answer are consumed, and the connection counts
  as established exactly when the answer's second byte grants it.
\<close>

theorem socks4a_handshake:
  assumes "stream_bio ops sent pending" and "pending b = reply @ rest" and "length reply = 8"
  shows "\<exists>b'. socks4a_connect ops host ctx b =
       (if reply ! 1 = 0x5a then 1 else 0, if reply ! 1 = 0x5a then ctx\<lparr>p_connected := True\<rparr> else ctx, b') \<and>
     sent b' = sent b @ socks4a_request host (p_port ctx) \<and> pending b' = rest"
  by (rule stream_bio.socks4a_stream [OF assms])

theorem socks4a_handshake_witness:
  "\<exists>b'. socks4a_connect test_methods ''www'' (proxy_new\<lparr>p_port := 80\<rparr>) \<lparr>t_out = [], t_in = [0, 0x5a, 0, 80, 0, 0, 0, 0, 9]\<rparr> =
       (1, proxy_new\<lparr>p_port := 80, p_connected := True\<rparr>, b') \<and>
     t_out b' = socks4a_request ''www'' 80 \<and> t_in b' = [9]"
  using socks4a_handshake [OF test_bio.stream_bio_axioms, of "\<lparr>t_out = [], t_in = [0, 0x5a, 0, 80, 0, 0, 0, 0, 9]\<rparr>"
      "[0, 0x5a, 0, 80, 0, 0, 0, 0]" "[9]" "''www''" "proxy_new\<lparr>p_port := 80\<rparr>"]
  by (simp add: proxy_new_def)

text \<open>
  C35. The SOCKS5 handshake with an answer that names a host: for a destination of at most 255
  bytes the greeting and the request go out, the whole answer with its variable address is
  consumed and not one byte more, and the connection counts as established.
\<close>

theorem socks5_handshake:
  assumes "stream_bio ops sent pending"
    and "pending b = [0x05, 0x00] @ [0x05, 0x00, rsv, 0x03, word_of_nat n] @ addr @ rest"
    and "n < 256" and "length addr = n + 2" and "length host \<le> 255"
  shows "\<exists>b'. socks5_connect ops host ctx b = (1, ctx\<lparr>p_connected := True\<rparr>, b') \<and>
     sent b' = sent b @ socks5_hello @ socks5_request host (p_port ctx) \<and> pending b' = rest"
  by (rule stream_bio.socks5_stream [OF assms])

theorem socks5_handshake_witness:
  "\<exists>b'. socks5_connect test_methods ''www'' proxy_new \<lparr>t_out = [], t_in = [5, 0, 5, 0, 0, 3, 1, 65, 0, 80, 9]\<rparr> =
       (1, proxy_new\<lparr>p_connected := True\<rparr>, b') \<and> t_in b' = [9]"
  using socks5_handshake [OF test_bio.stream_bio_axioms, of "\<lparr>t_out = [], t_in = [5, 0, 5, 0, 0, 3, 1, 65, 0, 80, 9]\<rparr>"
      0 1 "[65, 0, 80]" "[9]" "''www''" proxy_new]
  by auto

text \<open>
  C36. The HTTP CONNECT handshake: when the proxy answers with a status line of a code between
  200 and 299 and any number of header lines that fit the buffer, the request is sent, the
  answer is consumed up to and including its empty line and not one byte more, and the function
  returns with the connection established, with one unit of fuel per header line.
\<close>

theorem http_handshake:
  assumes "stream_bio ops sent pending"
    and "pending b = bytes_of (status @ [CHR 0x0A] @ header_text hs @ CRLF) @ rest"
    and "header_ok status" and "\<forall>h \<in> set hs. header_ok h"
    and "scan_status (status @ [CHR 0x0A]) = Some code" and "200 \<le> code" "code \<le> 299" and "length hs < fuel"
  shows "\<exists>b'. http_connect ops fuel host ctx b = Some (1, ctx\<lparr>p_connected := True\<rparr>, b') \<and>
     sent b' = sent b @ bytes_of (connect_line host (p_port ctx)) @ bytes_of (host_line host (p_port ctx)) @ bytes_of CRLF \<and>
     pending b' = rest"
  by (rule stream_bio.http_stream [OF assms])

theorem http_handshake_witness:
  "\<exists>b'. http_connect test_methods 3 ''www'' proxy_new
      \<lparr>t_out = [], t_in = bytes_of (''HTTP/1.1 200 OK'' @ [CHR 0x0A] @ header_text [''Via: x''] @ CRLF) @ [9]\<rparr> =
      Some (1, proxy_new\<lparr>p_connected := True\<rparr>, b') \<and> t_in b' = [9]"
proof -
  have "scan_status (''HTTP/1.1 200 OK'' @ [CHR 0x0A]) = Some 200" "header_ok ''HTTP/1.1 200 OK''" "header_ok ''Via: x''"
    by code_simp+
  then show ?thesis
    using http_handshake [OF test_bio.stream_bio_axioms,
        of "\<lparr>t_out = [], t_in = bytes_of (''HTTP/1.1 200 OK'' @ [CHR 0x0A] @ header_text [''Via: x''] @ CRLF) @ [9]\<rparr>"
          "''HTTP/1.1 200 OK''" "[''Via: x'']" "[9]" 200 3 "''www''" proxy_new]
    by auto
qed

text \<open>
  C37. Asking a proxy for a connection always ends: on any stream, with one unit of fuel more than
  there are bytes to come, the handshake returns whatever the proxy answers, so that only a proxy
  that never stops sending header lines can hold the program.
\<close>

theorem http_connect_terminates:
  assumes "stream_bio ops sent pending" and "length (pending b) < fuel"
  shows "\<exists>ret ctx' b'. http_connect ops fuel host ctx b = Some (ret, ctx', b')"
  using stream_bio.http_connect_returns [OF assms, of host ctx] by auto

theorem http_connect_terminates_witness:
  "\<exists>ret ctx' b'. http_connect test_methods 4 ''www'' proxy_new \<lparr>t_out = [], t_in = bytes_of ''HTT''\<rparr> = Some (ret, ctx', b')"
  using http_connect_terminates [OF test_bio.stream_bio_axioms, of "\<lparr>t_out = [], t_in = bytes_of ''HTT''\<rparr>" 4 "''www''" proxy_new]
  by simp

text \<open>
  No packet overflows its buffer: for any host that \<^verbatim>\<open>BIO_proxy_set_host\<close> accepts the SOCKS4a
  packet fits, and the two HTTP lines are written in full; for any host that passes the check
  in \<^verbatim>\<open>socks5_connect\<close> the SOCKS5 packet fits and its length byte is the length of the host.
\<close>

theorem proxy_packets_fit:
  assumes "BIO_proxy_set_host host ctx = (0, ctx')"
  shows "length (socks4a_request host port) \<le> PACKET_SIZE \<and>
     (strnlen host 256 \<noteq> 256 \<longrightarrow> length (socks5_request host port) \<le> PACKET_SIZE \<and>
        unat (socks5_request host port ! 4) = length host) \<and>
     connect_line host port = ''CONNECT '' @ host @ '':'' @ show_int (uint port) @ '' HTTP/1.1'' @ CRLF \<and>
     host_line host port = ''Host: '' @ host @ '':'' @ show_int (uint port) @ CRLF"
proof -
  have len: "length host < NI_MAXHOST"
    using assms by (auto simp: BIO_proxy_set_host_def strnlen_def split: if_splits)
  have "unat (word_of_nat (length host) :: byte) = length host" if "length host < 256"
    using that by (simp add: unat_of_nat)
  then have "length (socks4a_request host port) \<le> PACKET_SIZE"
    and "strnlen host 256 \<noteq> 256 \<longrightarrow> length (socks5_request host port) \<le> PACKET_SIZE \<and>
        unat (socks5_request host port ! 4) = length host"
    using len by (auto simp: socks4a_request_def socks5_request_def limit_defs strnlen_def)
  moreover have "connect_line host port = ''CONNECT '' @ host @ '':'' @ show_int (uint port) @ '' HTTP/1.1'' @ CRLF"
    and "host_line host port = ''Host: '' @ host @ '':'' @ show_int (uint port) @ CRLF"
    unfolding connect_line_def host_line_def CRLF_def
    by (rule take_fits; use len length_show_port [of port] in \<open>simp add: limit_defs NI_MAXHOST_def\<close>)+
  ultimately show ?thesis by blast
qed

theorem proxy_packets_fit_witness:
  "length (socks4a_request ''www.example'' 80) \<le> PACKET_SIZE"
  using proxy_packets_fit [of "''www.example''" proxy_new "proxy_new\<lparr>p_host := Some ''www.example''\<rparr>" 80]
  by (simp add: BIO_proxy_set_host_def strnlen_def limit_defs)

text \<open>
  A handshake that fails with an error is taken for a success: when the write of the request
  returns -1, the filter still passes the payload on to the proxy, unprotected, although the
  connection was never established; only a handshake that returns 0 stops it.
\<close>

theorem proxy_write_after_error:
  assumes "p_connect ctx = Some Socks4a" and "p_host ctx = Some host" and "\<not> p_connected ctx" and "buf \<noteq> []"
    and "BIO_write ops (socks4a_request host (p_port ctx)) b = (-1, b1)" and "BIO_write ops buf b1 = (r, b2)"
  shows "proxy_write ops fuel True buf ctx b = Inr (Some (r, ctx, b2)) \<and> \<not> p_connected ctx"
  using assms by (simp add: proxy_write_def proxy_connect_def socks4a_connect_def)

definition refusing_bio :: "byte list list bio_ops" where
  "refusing_bio = \<lparr>BIO_write = (\<lambda>bs b. (if b = [] then -1 else int (length bs), b @ [bs])), BIO_read = (\<lambda>_ b. (Rfail 0, b)),
     BIO_ctrl = (\<lambda>_ _ b. (0, b)), BIO_gets = (\<lambda>_ b. (0, [], b)), BIO_puts = (\<lambda>_ b. (0, b))\<rparr>"

theorem proxy_write_after_error_witness:
  "proxy_write refusing_bio 0 True [1, 2] (proxy_new\<lparr>p_connect := Some Socks4a, p_host := Some ''h''\<rparr>) [] =
     Inr (Some (2, proxy_new\<lparr>p_connect := Some Socks4a, p_host := Some ''h''\<rparr>, [socks4a_request ''h'' 0, [1, 2]]))"
  using proxy_write_after_error [of "proxy_new\<lparr>p_connect := Some Socks4a, p_host := Some ''h''\<rparr>" "''h''" "[1, 2]" refusing_bio
      "[]" "[socks4a_request ''h'' 0]" 2 "[socks4a_request ''h'' 0, [1, 2]]" 0]
  by (simp add: refusing_bio_def proxy_new_def)

end
