(* ===== verification/Proxy_Uri.thy ===== *)
theory Proxy_Uri
  imports Proxy_Bio
begin

text \<open>
  Proxy addresses in the helper, \<^verbatim>\<open>src/tlsdate-helper.c\<close>: the checks on scheme, host and port, the
  parser of a proxy URI and \<^verbatim>\<open>setup_proxy\<close>, which hands the target to the proxy BIO and redirects
  the connection to the proxy. \<^verbatim>\<open>die\<close> exits with status 1.
\<close>

definition validate_proxy_scheme :: "string \<Rightarrow> unit result" where
  "validate_proxy_scheme scheme =
     (if scheme = ''http'' then Inr ()
      else if scheme = ''socks4'' then Inr ()
      else if scheme = ''socks5'' then Inr ()
      else Inl (Exit 1))"

definition host_char :: "char \<Rightarrow> bool" where
  "host_char c \<longleftrightarrow> isupper c \<or> islower c \<or> isdigit c \<or> c = CHR ''.'' \<or> c = CHR ''-''"

definition validate_proxy_host :: "string \<Rightarrow> unit result" where
  "validate_proxy_host host =
     (if length (takeWhile host_char host) \<noteq> length host then Inl (Exit 1) else Inr ())"

fun validate_proxy_port :: "string \<Rightarrow> unit result" where
  "validate_proxy_port [] = Inr ()"
| "validate_proxy_port (c # cs) = (if \<not> isdigit c then Inl (Exit 1) else validate_proxy_port cs)"

definition parse_proxy_uri :: "string \<Rightarrow> (string \<times> string \<times> string) result" where
  "parse_proxy_uri proxy =
     (case find_sub proxy ''://'' of
        None \<Rightarrow> Inl (Exit 1)
      | Some (scheme, rest) \<Rightarrow>
          (let p = drop 3 rest
           in if CHR '':'' \<notin> set p then Inl (Exit 1)
              else
                let host = takeWhile (\<lambda>c. c \<noteq> CHR '':'') p;
                    port = drop 1 (dropWhile (\<lambda>c. c \<noteq> CHR '':'') p)
                in bind_res (validate_proxy_scheme scheme) (\<lambda>_.
                   bind_res (validate_proxy_host host) (\<lambda>_.
                   bind_res (validate_proxy_port port) (\<lambda>_. Inr (scheme, host, port))))))"

text \<open>The globals of the helper that name the peer.\<close>

record target =
  t_host :: string
  t_port :: string
  t_proxy :: "string option"

text \<open>The results of the three setters of the proxy BIO are ignored, as in the code.\<close>

definition setup_proxy :: "target \<Rightarrow> (proxy_ctx option \<times> target) result" where
  "setup_proxy t =
     (case t_proxy t of
        None \<Rightarrow> Inr (None, t)
      | Some uri \<Rightarrow>
          bind_res (parse_proxy_uri uri) (\<lambda>(scheme, proxy_host, proxy_port).
            let c1 = snd (BIO_proxy_set_type scheme proxy_new);
                c2 = snd (BIO_proxy_set_host (t_host t) c1);
                c3 = BIO_proxy_set_port (word_of_int (atoi (t_port t))) c2
            in Inr (Some c3, t\<lparr>t_host := proxy_host, t_port := proxy_port\<rparr>)))"

section \<open>Facts\<close>

lemma validate_host_iff: "validate_proxy_host host = Inr () \<longleftrightarrow> (\<forall>c \<in> set host. host_char c)"
proof -
  have "length (takeWhile host_char host) = length host \<longleftrightarrow> (\<forall>c \<in> set host. host_char c)"
    by (metis takeWhile_eq_all_conv takeWhile_eq_take take_all_iff order_refl)
  then show ?thesis by (auto simp: validate_proxy_host_def)
qed

lemma validate_port_iff: "validate_proxy_port port = Inr () \<longleftrightarrow> (\<forall>c \<in> set port. isdigit c)"
  by (induction port) auto

lemma validate_scheme_iff: "validate_proxy_scheme scheme = Inr () \<longleftrightarrow> scheme \<in> {''http'', ''socks4'', ''socks5''}"
  by (simp add: validate_proxy_scheme_def)

definition uri_ok :: "string \<Rightarrow> string \<Rightarrow> string \<Rightarrow> bool" where
  "uri_ok scheme host port \<longleftrightarrow> scheme \<in> {''http'', ''socks4'', ''socks5''} \<and>
     (\<forall>c \<in> set host. host_char c) \<and> (\<forall>c \<in> set port. isdigit c)"

lemma host_char_not_colon: "host_char c \<Longrightarrow> c \<noteq> CHR '':''"
  by (auto simp: host_char_def isupper_def islower_def isdigit_def)

lemma find_sub_scheme:
  "scheme \<in> {''http'', ''socks4'', ''socks5''} \<Longrightarrow>
     find_sub (scheme @ ''://'' @ rest) ''://'' = Some (scheme, ''://'' @ rest)"
  by (elim insertE emptyE) (simp_all add: find_sub.simps [of "_ # _"])

lemma parse_proxy_uri_valid:
  assumes "uri_ok scheme host port"
  shows "parse_proxy_uri (scheme @ ''://'' @ host @ '':'' @ port) = Inr (scheme, host, port)"
proof -
  have sch: "scheme \<in> {''http'', ''socks4'', ''socks5''}" using assms by (simp add: uri_ok_def)
  have "\<And>c. c \<in> set host \<Longrightarrow> c \<noteq> CHR '':''" using assms host_char_not_colon by (auto simp: uri_ok_def)
  then have "takeWhile (\<lambda>c. c \<noteq> CHR '':'') (host @ CHR '':'' # port) = host"
    "dropWhile (\<lambda>c. c \<noteq> CHR '':'') (host @ CHR '':'' # port) = CHR '':'' # port"
    by simp_all
  then show ?thesis
    using find_sub_scheme [OF sch, of "host @ CHR '':'' # port"] assms
    by (simp add: parse_proxy_uri_def Let_def validate_scheme_iff validate_host_iff validate_port_iff uri_ok_def)
qed

lemma parse_proxy_uri_split:
  assumes "parse_proxy_uri s = Inr (scheme, host, port)"
  shows "s = scheme @ ''://'' @ host @ '':'' @ port \<and> uri_ok scheme host port"
proof -
  obtain rest where f: "find_sub s ''://'' = Some (scheme, rest)"
    and c: "CHR '':'' \<in> set (drop 3 rest)"
    and h: "host = takeWhile (\<lambda>c. c \<noteq> CHR '':'') (drop 3 rest)"
    and p: "port = drop 1 (dropWhile (\<lambda>c. c \<noteq> CHR '':'') (drop 3 rest))"
    and v: "validate_proxy_scheme scheme = Inr ()" "validate_proxy_host host = Inr ()" "validate_proxy_port port = Inr ()"
    using assms by (auto simp: parse_proxy_uri_def Let_def split: option.splits if_splits)
  have "s = scheme @ rest" "take 3 rest = ''://''" using find_sub_Some [OF f] by (simp_all add: numeral_3_eq_3)
  moreover have "rest = take 3 rest @ drop 3 rest" by simp
  moreover have "drop 3 rest = host @ '':'' @ port"
  proof -
    obtain x xs where x: "dropWhile (\<lambda>c. c \<noteq> CHR '':'') (drop 3 rest) = x # xs"
      using c by (cases "dropWhile (\<lambda>c. c \<noteq> CHR '':'') (drop 3 rest)") (auto dest: dropWhile_eq_Nil_conv [THEN iffD1])
    then have "x = CHR '':''" using dropWhile_hd [OF x] by simp
    with x show ?thesis unfolding h p by (metis takeWhile_dropWhile_id append_Cons append_Nil drop0 drop_Suc_Cons One_nat_def)
  qed
  ultimately show ?thesis
    using v by (metis (no_types) append_assoc uri_ok_def validate_host_iff validate_port_iff validate_scheme_iff)
qed

lemma validate_port_exit: "validate_proxy_port p = Inl e \<Longrightarrow> e = Exit 1"
  by (induction p) (simp_all split: if_splits)

lemma validate_host_exit: "validate_proxy_host h = Inl e \<Longrightarrow> e = Exit 1"
  by (simp add: validate_proxy_host_def split: if_splits)

lemma validate_scheme_exit: "validate_proxy_scheme sc = Inl e \<Longrightarrow> e = Exit 1"
  by (simp add: validate_proxy_scheme_def split: if_split_asm)

lemma parse_proxy_uri_exit:
  assumes "parse_proxy_uri s = Inl e"
  shows "e = Exit 1"
  using assms validate_port_exit validate_host_exit validate_scheme_exit
  unfolding parse_proxy_uri_def Let_def
  by (simp add: bind_res_eq_Inl_iff split: option.split_asm if_split_asm prod.split_asm) blast

section \<open>Properties\<close>

text \<open>
  C38. Which proxy URIs the helper takes. It accepts exactly the strings of the form scheme, \<open>://\<close>, host,
  colon, port with the scheme \<^verbatim>\<open>http\<close>, \<^verbatim>\<open>socks4\<close> or \<^verbatim>\<open>socks5\<close>, a host of letters, digits, dots and
  hyphens and a port of digits, either of which may be empty, and returns exactly these parts; on
  anything else the process dies. So it dies on every URI with the scheme \<^verbatim>\<open>socks4a\<close>, which is the one
  that the manual pages \<^verbatim>\<open>tlsdate.1\<close> and \<^verbatim>\<open>tlsdate-helper.1\<close> document for SOCKS 4a.
\<close>

theorem parse_proxy_uri_iff:
  "(parse_proxy_uri s = Inr (scheme, host, port) \<longleftrightarrow>
      s = scheme @ ''://'' @ host @ '':'' @ port \<and> uri_ok scheme host port) \<and>
   (parse_proxy_uri s = Inl (Exit 1) \<longleftrightarrow>
      (\<nexists>sc h p. s = sc @ ''://'' @ h @ '':'' @ p \<and> uri_ok sc h p)) \<and>
   parse_proxy_uri (''socks4a://'' @ x) = Inl (Exit 1) \<and> parse_proxy_uri ''socks5://:'' = Inr (''socks5'', [], [])"
proof -
  have iff: "(parse_proxy_uri s = Inr (scheme, host, port) \<longleftrightarrow>
      s = scheme @ ''://'' @ host @ '':'' @ port \<and> uri_ok scheme host port) \<and>
    (parse_proxy_uri s = Inl (Exit 1) \<longleftrightarrow> (\<nexists>sc h p. s = sc @ ''://'' @ h @ '':'' @ p \<and> uri_ok sc h p))" for s scheme host port
  proof (cases "parse_proxy_uri s")
    case (Inl e)
    then show ?thesis using parse_proxy_uri_valid parse_proxy_uri_exit [OF Inl]
      by (metis sum.simps(4))
  next
    case (Inr r)
    then show ?thesis using parse_proxy_uri_valid parse_proxy_uri_split
      by (metis prod_cases3 sum.simps(4))
  qed
  have "\<nexists>sc h p. ''socks4a://'' @ x = sc @ ''://'' @ h @ '':'' @ p \<and> uri_ok sc h p"
    by (auto simp: uri_ok_def)
  moreover have "uri_ok ''socks5'' [] []" by (simp add: uri_ok_def)
  ultimately show ?thesis using iff [of "''socks4a://'' @ x"] iff [of "''socks5://:''" "''socks5''" "[]" "[]"] iff [of s scheme host port] by simp
qed

text \<open>
  C20. A SOCKS4 proxy passes validation and then kills the program: the scheme \<^verbatim>\<open>socks4\<close> that the URI
  check demands is not the type \<^verbatim>\<open>socks4a\<close> that the proxy BIO knows, so no handshake is installed and
  the first write runs into an assertion.
\<close>

theorem socks4_uri_aborts:
  assumes "uri_ok ''socks4'' host port" and "t_proxy t = Some (''socks4'' @ ''://'' @ host @ '':'' @ port)" and "buf \<noteq> []"
  shows "\<exists>ctx t'. setup_proxy t = Inr (Some ctx, t') \<and> proxy_write ops fuel True buf ctx b = Inl Abort"
proof -
  have "setup_proxy t = Inr (Some (BIO_proxy_set_port (word_of_int (atoi (t_port t)))
      (snd (BIO_proxy_set_host (t_host t) proxy_new))), t\<lparr>t_host := host, t_port := port\<rparr>)"
    using parse_proxy_uri_valid [OF assms(1)] assms(2) by (simp add: setup_proxy_def BIO_proxy_set_type_def)
  then show ?thesis
    using assms(3)
    by (auto simp: proxy_write_def proxy_connect_def BIO_proxy_set_port_def BIO_proxy_set_host_def proxy_new_def)
qed

theorem socks4_uri_aborts_witness:
  "\<exists>ctx t'. setup_proxy \<lparr>t_host = ''a.example'', t_port = ''443'', t_proxy = Some ''socks4://127.0.0.1:9050''\<rparr> = Inr (Some ctx, t') \<and>
     proxy_write test_methods 0 True [22] ctx test_new = Inl Abort"
proof -
  have "uri_ok ''socks4'' ''127.0.0.1'' ''9050''" by code_simp
  from socks4_uri_aborts [OF this, of "\<lparr>t_host = ''a.example'', t_port = ''443'', t_proxy = Some ''socks4://127.0.0.1:9050''\<rparr>"
      "[22]" test_methods 0 test_new]
  show ?thesis by simp
qed

end
