(* ===== verification/Http_Date.thy ===== *)
theory Http_Date
  imports Bio
begin

text \<open>
  The time from an HTTP answer, \<^verbatim>\<open>src/tlsdate-helper.c\<close>: writing the request, collecting the answer
  until a complete date line is in the buffer, and reading the date in one of the three formats
  of RFC 2616. \<^verbatim>\<open>sscanf\<close> is modelled for the conversions the formats use, \<^verbatim>\<open>timegm\<close> as the linear
  count of seconds in the Gregorian calendar (both are part of the C library). A calendar that
  steps from day to day is the reference against which the count is proved.
\<close>

definition MAX_DATE_LINE_LEN :: nat where [limit_defs]: "MAX_DATE_LINE_LEN = 32"

definition MAX_HTTP_HEADERS_SIZE :: nat where [limit_defs]: "MAX_HTTP_HEADERS_SIZE = 8192"

section \<open>Writing\<close>

function write_all_to_bio :: "'b bio_ops \<Rightarrow> byte list \<Rightarrow> 'b \<Rightarrow> int \<times> 'b" where
  "write_all_to_bio ops str b =
     (if str = [] then (1, b)
      else let (r, b') = BIO_write ops str b
           in if 0 < r then
                (if int (length str) < r then (-1, b')
                 else write_all_to_bio ops (drop (nat r) str) b')
              else (0, b'))"
  by pat_completeness auto
termination
  by (relation "measure (\<lambda>(ops, str, b). length str)") auto

declare write_all_to_bio.simps [simp del]

section \<open>Scanning\<close>

definition sanitize_string :: "string \<Rightarrow> string" where
  "sanitize_string s =
     (if \<exists>c \<in> set s. (of_char c :: nat) < 32 \<or> (of_char c :: nat) \<ge> 127 then ''string with invalid characters'' else s)"

text \<open>\<^verbatim>\<open>%d\<close>, \<^verbatim>\<open>%3s\<close>, white space and an ordinary character of a \<^verbatim>\<open>sscanf\<close> format.\<close>

datatype directive = Conv_d | Conv_3s | Blank | Ordinary char

datatype conversion = Num int | Txt string

text \<open>The conversions that \<^verbatim>\<open>sscanf\<close> assigns before it stops.\<close>

fun sscanf :: "directive list \<Rightarrow> string \<Rightarrow> conversion list" where
  "sscanf [] s = []"
| "sscanf (Conv_d # fs) s =
     (case strtol s of None \<Rightarrow> [] | Some (v, s') \<Rightarrow> Num (to_int32 v) # sscanf fs s')"
| "sscanf (Conv_3s # fs) s =
     (let s1 = dropWhile isspace s; w = take 3 (takeWhile (\<lambda>c. \<not> isspace c) s1)
      in if w = [] then [] else Txt w # sscanf fs (drop (length w) s1))"
| "sscanf (Blank # fs) s = sscanf fs (dropWhile isspace s)"
| "sscanf (Ordinary c # fs) s =
     (case s of [] \<Rightarrow> [] | d # s' \<Rightarrow> if c = d then sscanf fs s' else [])"

definition FORMAT_1123 :: "directive list" where
  "FORMAT_1123 = [Conv_d, Blank, Conv_3s, Blank, Conv_d, Blank, Conv_d, Ordinary CHR '':'', Conv_d, Ordinary CHR '':'', Conv_d]"

definition FORMAT_850 :: "directive list" where
  "FORMAT_850 = [Conv_d, Ordinary CHR ''-'', Conv_3s, Ordinary CHR ''-'', Conv_d, Blank, Conv_d, Ordinary CHR '':'', Conv_d, Ordinary CHR '':'', Conv_d]"

definition FORMAT_ASCTIME :: "directive list" where
  "FORMAT_ASCTIME = [Conv_3s, Blank, Conv_d, Blank, Conv_d, Ordinary CHR '':'', Conv_d, Ordinary CHR '':'', Conv_d, Blank, Conv_d]"

text \<open>The variables the three calls fill: day, month, year, hour, minute, second.\<close>

type_synonym date_fields = "int \<times> string \<times> int \<times> int \<times> int \<times> int"

definition scan_date :: "string \<Rightarrow> date_fields option" where
  "scan_date s =
     (case sscanf FORMAT_1123 s of
        [Num day, Txt month, Num year, Num hour, Num minute, Num sec] \<Rightarrow> Some (day, month, year, hour, minute, sec)
      | _ \<Rightarrow>
     (case sscanf FORMAT_850 s of
        [Num day, Txt month, Num year, Num hour, Num minute, Num sec] \<Rightarrow> Some (day, month, year, hour, minute, sec)
      | _ \<Rightarrow>
     (case sscanf FORMAT_ASCTIME s of
        [Txt month, Num day, Num hour, Num minute, Num sec, Num year] \<Rightarrow> Some (day, month, year, hour, minute, sec)
      | _ \<Rightarrow> None)))"

section \<open>Calendar time\<close>

definition MONTHS :: "string list" where
  "MONTHS = [''Jan'', ''Feb'', ''Mar'', ''Apr'', ''May'', ''Jun'', ''Jul'', ''Aug'', ''Sep'', ''Oct'', ''Nov'', ''Dec'']"

fun month_index :: "string \<Rightarrow> string list \<Rightarrow> nat option" where
  "month_index m [] = None"
| "month_index m (n # ns) = (if m = n then Some 0 else map_option Suc (month_index m ns))"

definition leap_year :: "int \<Rightarrow> bool" where
  "leap_year y \<longleftrightarrow> y mod 4 = 0 \<and> (y mod 100 \<noteq> 0 \<or> y mod 400 = 0)"

text \<open>Days before a month of a common year.\<close>

definition DAYS_BEFORE :: "int list" where
  "DAYS_BEFORE = [0, 31, 59, 90, 120, 151, 181, 212, 243, 273, 304, 334]"

definition leaps_before :: "int \<Rightarrow> int" where
  "leaps_before y = (y - 1) div 4 - (y - 1) div 100 + (y - 1) div 400"

definition epoch_day :: "int \<Rightarrow> nat \<Rightarrow> int \<Rightarrow> int" where
  "epoch_day y mon mday =
     365 * (y - 1970) + (leaps_before y - leaps_before 1970) + DAYS_BEFORE ! mon +
     (if leap_year y \<and> 2 \<le> mon then 1 else 0) + (mday - 1)"

text \<open>\<^verbatim>\<open>timegm\<close> with a month in range; the other fields need not be normalised.\<close>

definition timegm :: "int \<Rightarrow> nat \<Rightarrow> int \<Rightarrow> int \<Rightarrow> int \<Rightarrow> int \<Rightarrow> time_t" where
  "timegm tm_year tm_mon tm_mday tm_hour tm_min tm_sec =
     86400 * epoch_day (tm_year + 1900) tm_mon tm_mday + 3600 * tm_hour + 60 * tm_min + tm_sec"

section \<open>The date line\<close>

text \<open>The return value and the time, which is there exactly when the return value is 1.\<close>

definition DATE_MARK :: string where
  "DATE_MARK = [CHR 0x0D, CHR 0x0A] @ ''Date: ''"

definition handle_date_line :: "string \<Rightarrow> int \<times> uint32 option" where
  "handle_date_line dateline =
     (if \<not> strneq DATE_MARK dateline 8 then (0, None)
      else
        let line = drop 8 dateline
        in if length line > MAX_DATE_LINE_LEN then (-1, None)
           else
             let l1 = dropWhile (\<lambda>c. c = CHR '' '') line;
                 l2 = dropWhile (\<lambda>c. c \<noteq> CHR '' '') l1;
                 l3 = dropWhile (\<lambda>c. c = CHR '' '') l2
             in (case scan_date l3 of
                   None \<Rightarrow> (-1, None)
                 | Some (day, month, year0, hour, minute, sec) \<Rightarrow>
                     let year = (if year0 < 100 then year0 + 1900 else year0)
                     in (case month_index month MONTHS of
                           None \<Rightarrow> (-2, None)
                         | Some mon \<Rightarrow>
                             let t = timegm (year - 1900) mon day hour minute sec
                             in if t > 0xffffffff \<or> t < 0 then (-1, None)
                                else (1, Some (word_of_int t)))))"

section \<open>Reading the answer\<close>

text \<open>A complete date line in the buffer: \<open>None\<close> as long as there is none.\<close>

definition date_line_of :: "string \<Rightarrow> string option" where
  "date_line_of buf =
     (case find_sub buf DATE_MARK of
        None \<Rightarrow> None
      | Some (_, dateline) \<Rightarrow>
          (case find_sub (drop 2 dateline) [CHR 0x0D, CHR 0x0A] of
             None \<Rightarrow> None
           | Some (before, _) \<Rightarrow> Some (take 2 dateline @ before)))"

text \<open>\<open>buf\<close> is what has been read; the room left in the buffer bounds the loop. A BIO never returns
  more bytes than it was asked for: the buffer would overflow, which is \<open>Abort\<close> here.\<close>

function http_date_loop :: "'b bio_ops \<Rightarrow> string \<Rightarrow> 'b \<Rightarrow> (int \<times> uint32 option \<times> 'b) result" where
  "http_date_loop ops buf b =
     (if length buf < MAX_HTTP_HEADERS_SIZE - 1 then
        (let (rd, b') = BIO_read ops (MAX_HTTP_HEADERS_SIZE - length buf - 1) b
         in if read_ret rd \<le> 0 then Inr (0, None, b')
            else if read_ret rd > int (MAX_HTTP_HEADERS_SIZE - length buf - 1) then Inl Abort
            else
              let buf' = buf @ map char_at (read_data rd)
              in (case date_line_of buf' of
                    None \<Rightarrow> http_date_loop ops buf' b'
                  | Some dateline \<Rightarrow> (let (r, t) = handle_date_line (c_str dateline) in Inr (r, t, b'))))
      else Inr (-2, None, b))"
  by pat_completeness auto
termination
  by (relation "measure (\<lambda>(ops, buf, b). MAX_HTTP_HEADERS_SIZE - length buf)")
    (auto simp: read_data_length)

declare http_date_loop.simps [simp del]

definition read_http_date_from_bio :: "'b bio_ops \<Rightarrow> 'b \<Rightarrow> (int \<times> uint32 option \<times> 'b) result" where
  "read_http_date_from_bio ops b = http_date_loop ops [] b"


section \<open>The calendar as a reference\<close>

definition month_days :: "int \<Rightarrow> nat \<Rightarrow> int" where
  "month_days y mon = [31, if leap_year y then 29 else 28, 31, 30, 31, 30, 31, 31, 30, 31, 30, 31] ! mon"

fun next_day :: "int \<times> nat \<times> int \<Rightarrow> int \<times> nat \<times> int" where
  "next_day (y, mon, d) =
     (if d < month_days y mon then (y, mon, d + 1)
      else if mon < 11 then (y, mon + 1, 1)
      else (y + 1, 0, 1))"

text \<open>The date \<open>n\<close> days after the first of January 1970.\<close>

definition calendar_day :: "nat \<Rightarrow> int \<times> nat \<times> int" where
  "calendar_day n = (next_day ^^ n) (1970, 0, 1)"

lemma div_step:
  fixes y k :: int
  assumes "0 < k"
  shows "y div k = (y - 1) div k + (if y mod k = 0 then 1 else 0)"
proof (cases "y mod k = 0")
  case True
  then obtain q where "y = k * q" by auto
  moreover have "(k * q - 1) div k = q - 1"
    using assms int_div_pos_eq [of "k * q - 1" k "q - 1" "k - 1"] by (simp add: algebra_simps)
  ultimately show ?thesis using assms True by simp
next
  case False
  have "0 \<le> y mod k" "y mod k < k" using assms by simp_all
  with False have "0 \<le> y mod k - 1" "y mod k - 1 < k" by linarith+
  moreover have "y - 1 = k * (y div k) + (y mod k - 1)" by simp
  ultimately have "(y - 1) div k = y div k"
    using int_div_pos_eq [of "y - 1" k "y div k" "y mod k - 1"] by blast
  with False show ?thesis by simp
qed

lemma leap_indicator:
  "(c \<Longrightarrow> b) \<Longrightarrow> (b \<Longrightarrow> a) \<Longrightarrow>
     (if a then 1 else 0) - (if b then 1 else 0) + (if c then 1 else 0) = (if a \<and> (\<not> b \<or> c) then 1 else (0::int))"
  by simp

lemma leaps_step: "leaps_before (y + 1) = leaps_before y + (if leap_year y then 1 else 0)"
proof -
  define i :: "int \<Rightarrow> int" where "i k = (if y mod k = 0 then 1 else 0)" for k
  have "y div k = (y - 1) div k + i k" if "0 < k" for k unfolding i_def by (rule div_step [OF that])
  from this [of 4] this [of 100] this [of 400]
  have "leaps_before (y + 1) = leaps_before y + (i 4 - i 100 + i 400)"
    unfolding leaps_before_def add_diff_cancel_right' by linarith
  moreover have "y mod 400 = 0 \<Longrightarrow> y mod 100 = 0" "y mod 100 = 0 \<Longrightarrow> y mod 4 = 0" by presburger+
  then have "i 4 - i 100 + i 400 = (if leap_year y then 1 else 0)"
    unfolding i_def leap_year_def by (rule leap_indicator)
  ultimately show ?thesis by simp
qed

lemma month_cases:
  assumes "mon < 12"
  obtains "mon = 0" | "mon = 1" | "mon = 2" | "mon = 3" | "mon = 4" | "mon = 5" | "mon = 6"
    | "mon = 7" | "mon = 8" | "mon = 9" | "mon = 10" | "mon = (11::nat)"
proof -
  have "mon \<in> {0, 1, 2, 3, 4, 5, 6, 7, 8, 9, 10, 11}" using assms by (simp, presburger)
  then show ?thesis by (elim insertE emptyE) (erule that)+
qed

definition valid_date :: "int \<times> nat \<times> int \<Rightarrow> bool" where
  "valid_date = (\<lambda>(y, mon, d). 1970 \<le> y \<and> leaps_before 1970 \<le> leaps_before y \<and> mon < 12 \<and> 1 \<le> d \<and> d \<le> month_days y mon)"

lemma month_days_pos: "mon < 12 \<Longrightarrow> 28 \<le> month_days y mon"
  by (erule month_cases) (simp_all add: month_days_def)

lemma month_days_le: "mon < 12 \<Longrightarrow> month_days y mon \<le> 31"
  by (erule month_cases) (simp_all add: month_days_def)

lemma days_before_step:
  "mon < 11 \<Longrightarrow> DAYS_BEFORE ! (mon + 1) + (if leap_year y \<and> 2 \<le> mon + 1 then 1 else 0) =
     DAYS_BEFORE ! mon + (if leap_year y \<and> 2 \<le> mon then 1 else 0) + month_days y mon"
  by (rule month_cases [of mon]) (auto simp: DAYS_BEFORE_def month_days_def)

lemma next_day_valid: "valid_date x \<Longrightarrow> valid_date (next_day x)"
  using month_days_pos [of "fst (snd x) + 1" "fst x"] month_days_pos [of 0 "fst x + 1"]
  by (cases x) (auto simp: valid_date_def leaps_step)

lemma epoch_day_next:
  assumes "valid_date (y, mon, d)"
  shows "(case next_day (y, mon, d) of (y', mon', d') \<Rightarrow> epoch_day y' mon' d') = epoch_day y mon d + 1"
proof -
  consider "d < month_days y mon" | "d = month_days y mon" "mon < 11" | "d = month_days y mon" "mon = 11"
    using assms by (fastforce simp: valid_date_def)
  then show ?thesis
  proof cases
    case 1
    then show ?thesis by (simp add: epoch_day_def)
  next
    case 2
    then show ?thesis using days_before_step [OF 2(2), of y] by (simp add: epoch_day_def)
  next
    case 3
    then show ?thesis by (simp add: epoch_day_def leaps_step DAYS_BEFORE_def month_days_def)
  qed
qed

lemma calendar_day_epoch:
  "valid_date (calendar_day n) \<and> (case calendar_day n of (y, mon, d) \<Rightarrow> epoch_day y mon d) = int n"
proof (induction n)
  case 0
  show ?case by (simp add: calendar_day_def valid_date_def epoch_day_def DAYS_BEFORE_def month_days_def)
next
  case (Suc n)
  obtain y mon d where "calendar_day n = (y, mon, d)" by (cases "calendar_day n")
  moreover have "calendar_day (Suc n) = next_day (calendar_day n)" by (simp add: calendar_day_def)
  ultimately show ?case using Suc next_day_valid [of "(y, mon, d)"] epoch_day_next [of y mon d]
    by (simp del: next_day.simps)
qed



section \<open>Reading printed dates\<close>

definition pad2 :: "nat \<Rightarrow> string" where
  "pad2 n = (if n < 10 then CHR ''0'' # dec_nat n else dec_nat n)"

definition pad_blank :: "nat \<Rightarrow> string" where
  "pad_blank n = (if n < 10 then CHR '' '' # dec_nat n else dec_nat n)"

definition hms :: "nat \<Rightarrow> nat \<Rightarrow> nat \<Rightarrow> string" where
  "hms h mi s = pad2 h @ '':'' @ pad2 mi @ '':'' @ pad2 s"

text \<open>The three formats: \<^verbatim>\<open>Sun, 06 Nov 1994 08:49:37 GMT\<close>, \<^verbatim>\<open>Sunday, 06-Nov-94 08:49:37 GMT\<close> and
  \<^verbatim>\<open>Sun Nov  6 08:49:37 1994\<close>.\<close>

definition print_1123 :: "string \<Rightarrow> nat \<Rightarrow> nat \<Rightarrow> nat \<Rightarrow> nat \<Rightarrow> nat \<Rightarrow> nat \<Rightarrow> string" where
  "print_1123 wd y mon d h mi s =
     wd @ '', '' @ pad2 d @ '' '' @ MONTHS ! mon @ '' '' @ dec_nat y @ '' '' @ hms h mi s @ '' GMT''"

definition print_850 :: "string \<Rightarrow> nat \<Rightarrow> nat \<Rightarrow> nat \<Rightarrow> nat \<Rightarrow> nat \<Rightarrow> nat \<Rightarrow> string" where
  "print_850 wd y mon d h mi s =
     wd @ '', '' @ pad2 d @ ''-'' @ MONTHS ! mon @ ''-'' @ pad2 (y - 1900) @ '' '' @ hms h mi s @ '' GMT''"

definition print_asctime :: "string \<Rightarrow> nat \<Rightarrow> nat \<Rightarrow> nat \<Rightarrow> nat \<Rightarrow> nat \<Rightarrow> nat \<Rightarrow> string" where
  "print_asctime wd y mon d h mi s =
     wd @ '' '' @ MONTHS ! mon @ '' '' @ pad_blank d @ '' '' @ hms h mi s @ '' '' @ dec_nat y"

definition not_digit_hd :: "string \<Rightarrow> bool" where
  "not_digit_hd s \<longleftrightarrow> s = [] \<or> \<not> isdigit (hd s)"

lemma sscanf_dec_nat:
  "n < 2 ^ 31 \<Longrightarrow> not_digit_hd rest \<Longrightarrow> sscanf (Conv_d # fs) (dec_nat n @ rest) = Num (int n) # sscanf fs rest"
  using strtol_digits [of "dec_nat n" rest]
  by (simp add: dec_nat_digits clamp64_def to_int32_id not_digit_hd_def)

lemma strtol_blank: "strtol (CHR '' '' # s) = strtol s"
  by (simp add: strtol_def isspace_def)

lemma dec_val_zero: "dec_val (CHR ''0'' # ds) = dec_val ds"
  by (simp add: dec_val_def digit_val_def)

lemma sscanf_pad2:
  assumes "n < 100" and "not_digit_hd rest"
  shows "sscanf (Conv_d # fs) (pad2 n @ rest) = Num (int n) # sscanf fs rest"
proof (cases "n < 10")
  case True
  have "\<forall>c \<in> set (CHR ''0'' # dec_nat n). isdigit c" using dec_nat_digits by (auto simp: isdigit_def)
  with assms True show ?thesis
    using strtol_digits [of "CHR ''0'' # dec_nat n" rest]
    by (simp add: pad2_def dec_val_zero clamp64_def to_int32_id not_digit_hd_def)
next
  case False
  then show ?thesis using assms sscanf_dec_nat [of n rest fs] by (simp add: pad2_def)
qed

lemma sscanf_pad_blank:
  assumes "n < 100" and "not_digit_hd rest"
  shows "sscanf (Conv_d # fs) (pad_blank n @ rest) = Num (int n) # sscanf fs rest"
  using assms sscanf_dec_nat [of n rest fs] by (simp add: pad_blank_def strtol_blank)

lemma sscanf_skip:
  "sscanf (Blank # Conv_d # fs) s = sscanf (Conv_d # fs) s"
  "sscanf (Blank # Conv_3s # fs) s = sscanf (Conv_3s # fs) s"
  "sscanf (Conv_d # fs) (CHR '' '' # s) = sscanf (Conv_d # fs) s"
  "sscanf (Conv_3s # fs) (CHR '' '' # s) = sscanf (Conv_3s # fs) s"
  by (simp_all add: strtol_def isspace_def)

definition letter :: "char \<Rightarrow> bool" where
  "letter c \<longleftrightarrow> isupper c \<or> islower c"

lemma letter_facts: "letter c \<Longrightarrow> \<not> isspace c \<and> \<not> isdigit c \<and> c \<noteq> CHR ''-'' \<and> c \<noteq> CHR ''+''"
  by (auto simp: letter_def isupper_def islower_def isspace_def isdigit_def)

lemma month_letters:
  assumes "mon < 12"
  obtains a b c where "MONTHS ! mon = [a, b, c]" "letter a" "letter b" "letter c"
  using assms by (rule month_cases; auto simp: MONTHS_def letter_def isupper_def islower_def)

lemma month_index_MONTHS: "mon < 12 \<Longrightarrow> month_index (MONTHS ! mon) MONTHS = Some mon"
  by (erule month_cases) (simp_all add: MONTHS_def)

lemma sscanf_month:
  "letter a \<Longrightarrow> letter b \<Longrightarrow> letter c \<Longrightarrow> sscanf (Conv_3s # fs) (a # b # c # rest) = Txt [a, b, c] # sscanf fs rest"
  by (simp add: letter_facts numeral_3_eq_3)

lemma strtol_letter: "letter c \<Longrightarrow> strtol (c # s) = None"
  by (simp add: strtol_def scan_sign_def letter_facts)

lemma not_digit_hd_simps [simp]:
  "not_digit_hd []" "not_digit_hd (CHR '':'' # s)" "not_digit_hd (CHR '' '' # s)" "not_digit_hd (CHR ''-'' # s)"
  by (simp_all add: not_digit_hd_def isdigit_def)

lemma sscanf_hms:
  assumes "h < 100" "mi < 100" "s < 100" and "not_digit_hd rest"
  shows "sscanf (Conv_d # Ordinary CHR '':'' # Conv_d # Ordinary CHR '':'' # Conv_d # fs) (hms h mi s @ rest) =
    Num (int h) # Num (int mi) # Num (int s) # sscanf fs rest"
  using assms by (simp add: hms_def sscanf_pad2 del: sscanf.simps(2))

lemma scan_1123:
  assumes "mon < 12" "d < 100" "h < 100" "mi < 100" "s < 100" "y < 2 ^ 31"
  shows "scan_date (pad2 d @ '' '' @ MONTHS ! mon @ '' '' @ dec_nat y @ '' '' @ hms h mi s @ '' GMT'') =
    Some (int d, MONTHS ! mon, int y, int h, int mi, int s)"
proof -
  obtain a b c where m: "MONTHS ! mon = [a, b, c]" "letter a" "letter b" "letter c"
    using month_letters [OF assms(1)] .
  show ?thesis
    using assms m
    by (simp add: scan_date_def FORMAT_1123_def sscanf_pad2 sscanf_dec_nat sscanf_skip sscanf_month sscanf_hms
        del: sscanf.simps(2-4))
qed

lemma scan_850:
  assumes "mon < 12" "d < 100" "h < 100" "mi < 100" "s < 100" "yy < 100"
  shows "scan_date (pad2 d @ ''-'' @ MONTHS ! mon @ ''-'' @ pad2 yy @ '' '' @ hms h mi s @ '' GMT'') =
    Some (int d, MONTHS ! mon, int yy, int h, int mi, int s)"
proof -
  obtain a b c where m: "MONTHS ! mon = [a, b, c]" "letter a" "letter b" "letter c"
    using month_letters [OF assms(1)] .
  have dash: "\<not> isspace CHR ''-''" by (simp add: isspace_def)
  have "sscanf (Conv_3s # Blank # Conv_d # fs) (CHR ''-'' # a # b # c # rest) = [Txt [CHR ''-'', a, b]]" for fs rest
    using m dash by (simp add: letter_facts numeral_3_eq_3 strtol_letter)
  then show ?thesis
    using assms m
    by (simp add: scan_date_def FORMAT_1123_def FORMAT_850_def sscanf_pad2 sscanf_skip sscanf_month sscanf_hms
        del: sscanf.simps(2-4))
qed

lemma scan_asctime:
  assumes "mon < 12" "d < 100" "h < 100" "mi < 100" "s < 100" "y < 2 ^ 31"
  shows "scan_date (MONTHS ! mon @ '' '' @ pad_blank d @ '' '' @ hms h mi s @ '' '' @ dec_nat y) =
    Some (int d, MONTHS ! mon, int y, int h, int mi, int s)"
proof -
  obtain a b c where m: "MONTHS ! mon = [a, b, c]" "letter a" "letter b" "letter c"
    using month_letters [OF assms(1)] .
  have "sscanf FORMAT_1123 (a # rest) = []" "sscanf FORMAT_850 (a # rest) = []" for rest
    using m by (simp_all add: FORMAT_1123_def FORMAT_850_def strtol_letter)
  then show ?thesis
    using assms m sscanf_dec_nat [of y "[]" "[]"]
    by (simp add: scan_date_def FORMAT_ASCTIME_def sscanf_pad_blank sscanf_skip sscanf_month sscanf_hms
        del: sscanf.simps(2-4))
qed



lemma mark_facts [simp]: "length DATE_MARK = 8" "strneq DATE_MARK (DATE_MARK @ s) 8"
  by (simp_all add: strneq_def DATE_MARK_def)

lemma handle_date_line_scan:
  assumes "wd \<noteq> []" "CHR '' '' \<notin> set wd" and "rest \<noteq> []" "hd rest \<noteq> CHR '' ''"
    and "length (wd @ '' '' @ rest) \<le> MAX_DATE_LINE_LEN"
    and "scan_date rest = Some (d, MONTHS ! mon, y0, h, mi, s)" and "mon < 12"
    and "t = timegm ((if y0 < 100 then y0 + 1900 else y0) - 1900) mon d h mi s" and "0 \<le> t" "t < 2 ^ 32"
  shows "handle_date_line (DATE_MARK @ wd @ '' '' @ rest) = (1, Some (word_of_int t))"
proof -
  have "dropWhile (\<lambda>c. c = CHR '' '') (wd @ CHR '' '' # rest) = wd @ CHR '' '' # rest"
    using assms(1,2) by (cases wd) auto
  moreover have "dropWhile (\<lambda>c. c \<noteq> CHR '' '') (wd @ CHR '' '' # rest) = CHR '' '' # rest"
    using assms(2) by (intro dropWhile_append_stop) auto
  moreover have "dropWhile (\<lambda>c. c = CHR '' '') (CHR '' '' # rest) = rest"
    using assms(3,4) by (cases rest) auto
  ultimately show ?thesis
    using assms(5-10) by (simp add: handle_date_line_def month_index_MONTHS Let_def)
qed

lemma digit_hd: "isdigit c \<Longrightarrow> c \<noteq> CHR '' ''"
  by (auto simp: isdigit_def)

lemma pad2_hd: "pad2 n @ s \<noteq> []" "hd (pad2 n @ s) \<noteq> CHR '' ''"
proof -
  show "pad2 n @ s \<noteq> []" by (simp add: pad2_def)
  have "isdigit (hd (dec_nat n))" using dec_nat_digits [OF hd_in_set [OF dec_nat_nonempty]] .
  then show "hd (pad2 n @ s) \<noteq> CHR '' ''" using digit_hd by (auto simp: pad2_def)
qed

lemma month_hd: "mon < 12 \<Longrightarrow> MONTHS ! mon @ s \<noteq> [] \<and> hd (MONTHS ! mon @ s) \<noteq> CHR '' ''"
  by (erule month_cases) (simp_all add: MONTHS_def)

text \<open>A calendar day whose seconds fit 32 bits has a year of at most 2106 and a small day number.\<close>

lemma calendar_day_small:
  assumes "calendar_day n = (int y, mon, int d)" and "86400 * n < 2 ^ 32"
  shows "mon < 12" "d < 100" "1970 \<le> y" "y < 2 ^ 31" "epoch_day (int y) mon (int d) = int n"
proof -
  have v: "valid_date (int y, mon, int d)" and e: "epoch_day (int y) mon (int d) = int n"
    using calendar_day_epoch [of n] assms(1) by simp_all
  then show m: "mon < 12" and "1970 \<le> y" by (simp_all add: valid_date_def)
  show "d < 100" using v month_days_le [OF m, of "int y"] by (simp add: valid_date_def)
  have "0 \<le> DAYS_BEFORE ! mon" using m by (rule month_cases) (simp_all add: DAYS_BEFORE_def)
  then have "365 * (int y - 1970) \<le> int n"
    using v by (simp add: valid_date_def epoch_day_def flip: e)
  moreover have "int n < 49711" using assms(2) by simp
  ultimately show "y < 2 ^ 31" by simp
  show "epoch_day (int y) mon (int d) = int n" by (rule e)
qed

lemma handle_date_line_reads:
  assumes "calendar_day n = (int y, mon, int d)" and "h < 24" "mi < 60" "s \<le> 60"
    and "t = 86400 * n + 3600 * h + 60 * mi + s" and "t < 2 ^ 32" and "CHR '' '' \<notin> set wd" "wd \<noteq> []"
  shows "(length (print_1123 wd y mon d h mi s) \<le> 32 \<longrightarrow>
        handle_date_line (DATE_MARK @ print_1123 wd y mon d h mi s) = (1, Some (word_of_nat t))) \<and>
     (length (print_asctime wd y mon d h mi s) \<le> 32 \<longrightarrow>
        handle_date_line (DATE_MARK @ print_asctime wd y mon d h mi s) = (1, Some (word_of_nat t))) \<and>
     (length (print_850 wd y mon d h mi s) \<le> 32 \<and> y < 2000 \<longrightarrow>
        handle_date_line (DATE_MARK @ print_850 wd y mon d h mi s) = (1, Some (word_of_nat t)))"
proof (intro conjI impI)
  have n: "86400 * n < 2 ^ 32" using assms(5,6) by simp
  note c = calendar_day_small [OF assms(1) n]
  have t: "int t = timegm (int y - 1900) mon (int d) (int h) (int mi) (int s)"
    using c(5) assms(5) by (simp add: timegm_def)
  have w: "word_of_int (timegm (int y - 1900) mon (int d) (int h) (int mi) (int s)) = (word_of_nat t :: uint32)"
    unfolding t [symmetric] by simp
  have y: "\<not> int y < 100" using c(3) by simp
  have wd: "CHR '' '' \<notin> set (wd @ '','')" "wd @ '','' \<noteq> []" using assms(7) by simp_all
  note small = c(1,2) less_trans [OF assms(2), of 100, simplified] less_trans [OF assms(3), of 100, simplified]
    le_less_trans [OF assms(4), of 100, simplified]
  show "handle_date_line (DATE_MARK @ print_1123 wd y mon d h mi s) = (1, Some (word_of_nat t))"
    if "length (print_1123 wd y mon d h mi s) \<le> 32"
    using handle_date_line_scan [OF wd(2,1) pad2_hd _ scan_1123 [OF small c(4)] c(1), of "int t"] that t y assms(6)
    by (simp add: w print_1123_def limit_defs)
  show "handle_date_line (DATE_MARK @ print_asctime wd y mon d h mi s) = (1, Some (word_of_nat t))"
    if "length (print_asctime wd y mon d h mi s) \<le> 32"
    using handle_date_line_scan [OF assms(8,7) month_hd [OF c(1), THEN conjunct1] month_hd [OF c(1), THEN conjunct2]
        _ scan_asctime [OF small c(4)] c(1), of "int t"] that t y assms(6)
    by (simp add: w print_asctime_def limit_defs)
  show "handle_date_line (DATE_MARK @ print_850 wd y mon d h mi s) = (1, Some (word_of_nat t))"
    if "length (print_850 wd y mon d h mi s) \<le> 32 \<and> y < 2000"
  proof -
    have "y - 1900 < 100" "int (y - 1900) + 1900 = int y" using that c(3) by linarith+
    then show ?thesis
      using handle_date_line_scan [OF wd(2,1) pad2_hd _ scan_850 [OF small, of "y - 1900"] c(1), of "int t"] that t assms(6)
      by (simp add: w print_850_def limit_defs)
  qed
qed

section \<open>Properties of the date line\<close>

text \<open>
  C11. A date of the Gregorian calendar, printed in any of the three formats of RFC 2616, is read as
  the number of seconds since 1970: if the date is \<open>n\<close> days after the first of January 1970, the
  result is 86400 times \<open>n\<close> plus the time of day, provided that this number is below 2 to the 32. The
  line must not exceed 32 characters, the weekday is any word, and in the format of RFC 850 the year
  must lie in the twentieth century.
\<close>

theorem handle_date_line_calendar:
  assumes "calendar_day n = (int y, mon, int d)" and "h < 24" "mi < 60" "s \<le> 60"
    and "t = 86400 * n + 3600 * h + 60 * mi + s" and "t < 2 ^ 32" and "CHR '' '' \<notin> set wd" "wd \<noteq> []"
  shows "(length (print_1123 wd y mon d h mi s) \<le> 32 \<longrightarrow>
        handle_date_line (DATE_MARK @ print_1123 wd y mon d h mi s) = (1, Some (word_of_nat t))) \<and>
     (length (print_asctime wd y mon d h mi s) \<le> 32 \<longrightarrow>
        handle_date_line (DATE_MARK @ print_asctime wd y mon d h mi s) = (1, Some (word_of_nat t))) \<and>
     (length (print_850 wd y mon d h mi s) \<le> 32 \<and> y < 2000 \<longrightarrow>
        handle_date_line (DATE_MARK @ print_850 wd y mon d h mi s) = (1, Some (word_of_nat t)))"
  by (rule handle_date_line_reads [OF assms])

theorem handle_date_line_calendar_witness:
  "handle_date_line (DATE_MARK @ ''Tue, 10 Feb 1970 08:49:37 GMT'') = (1, Some 3487777) \<and>
   handle_date_line (DATE_MARK @ ''Tue, 10-Feb-70 08:49:37 GMT'') = (1, Some 3487777) \<and>
   handle_date_line (DATE_MARK @ ''Tue Feb 10 08:49:37 1970'') = (1, Some 3487777)"
proof -
  have c: "calendar_day 40 = (int 1970, 1, int 10)" by code_simp
  have p: "print_1123 ''Tue'' 1970 1 10 8 49 37 = ''Tue, 10 Feb 1970 08:49:37 GMT''"
    "print_850 ''Tue'' 1970 1 10 8 49 37 = ''Tue, 10-Feb-70 08:49:37 GMT''"
    "print_asctime ''Tue'' 1970 1 10 8 49 37 = ''Tue Feb 10 08:49:37 1970''" by code_simp+
  show ?thesis
    using handle_date_line_calendar [OF c, of 8 49 37 3487777 "''Tue''"] unfolding p by simp
qed



section \<open>Independence of the chunks\<close>

lemma find_sub_append:
  "find_sub p needle = Some (a, b) \<Longrightarrow> find_sub (p @ q) needle = Some (a, b @ q)"
proof (induction p arbitrary: a)
  case Nil
  then show ?case
    by (auto simp: find_sub.simps [of "[]"] find_sub.simps [of q] split: if_splits list.splits)
next
  case (Cons x xs)
  then have len: "length needle \<le> length (x # xs)"
    using find_sub_Some [OF Cons.prems] by (metis length_append length_take min.cobounded1 trans_le_add2 min.absorb_iff2 nat_le_linear)
  then have eq: "take (length needle) ((x # xs) @ q) = take (length needle) (x # xs)"
    using take_append [of "length needle" "x # xs" q] by simp
  show ?case
  proof (cases "take (length needle) (x # xs) = needle")
    case True
    then have "find_sub ((x # xs) @ q) needle = Some ([], (x # xs) @ q)"
      by (subst find_sub.simps) (simp only: eq simp_thms if_True)
    with True Cons.prems show ?thesis by (auto simp: find_sub.simps [of "x # xs"])
  next
    case False
    with Cons.prems obtain a' where a': "find_sub xs needle = Some (a', b)" "a = x # a'"
      by (auto simp: find_sub.simps [of "x # xs"])
    have "find_sub ((x # xs) @ q) needle = map_option (\<lambda>(a, b). (x # a, b)) (find_sub (xs @ q) needle)"
      by (subst find_sub.simps, subst eq, subst if_not_P [OF False]) simp
    then show ?thesis using Cons.IH [OF a'(1)] a'(2) by simp
  qed
qed

lemma date_line_of_append:
  assumes "date_line_of p = Some l"
  shows "date_line_of (p @ q) = Some l"
proof -
  obtain a dl b c where f: "find_sub p DATE_MARK = Some (a, dl)"
    and g: "find_sub (drop 2 dl) [CHR 0x0D, CHR 0x0A] = Some (b, c)" and l: "l = take 2 dl @ b"
    using assms by (auto simp: date_line_of_def split: option.splits)
  have "take 8 dl = DATE_MARK" using find_sub_Some [OF f] by simp
  then have "2 \<le> length dl" by (cases dl; cases "tl dl") (auto simp: DATE_MARK_def)
  then have "drop 2 (dl @ q) = drop 2 dl @ q" "take 2 (dl @ q) = take 2 dl" by simp_all
  with find_sub_append [OF f, of q] find_sub_append [OF g, of q] l show ?thesis
    by (simp add: date_line_of_def)
qed

lemma date_line_of_Nil: "date_line_of [] = None"
  by (simp add: date_line_of_def find_sub.simps [of "[]"] DATE_MARK_def)

text \<open>What the reader returns for a whole answer, however it arrives.\<close>

definition http_answer_date :: "string \<Rightarrow> int \<times> uint32 option" where
  "http_answer_date text =
     (case date_line_of (take (MAX_HTTP_HEADERS_SIZE - 1) text) of
        Some line \<Rightarrow> handle_date_line (c_str line)
      | None \<Rightarrow> (if length text < MAX_HTTP_HEADERS_SIZE - 1 then 0 else -2, None))"

context chunked_bio
begin

lemma http_date_loop_chunks:
  "length buf \<le> MAX_HTTP_HEADERS_SIZE - 1 \<Longrightarrow> date_line_of buf = None \<Longrightarrow>
     \<exists>b'. http_date_loop ops buf b =
       Inr (fst (http_answer_date (buf @ map char_at (pending b))), snd (http_answer_date (buf @ map char_at (pending b))), b')"
proof (induction "MAX_HTTP_HEADERS_SIZE - length buf" arbitrary: buf b rule: less_induct)
  case less
  define n where "n = MAX_HTTP_HEADERS_SIZE - length buf - 1"
  show ?case
  proof (cases "length buf < MAX_HTTP_HEADERS_SIZE - 1")
    case False
    then have "take (MAX_HTTP_HEADERS_SIZE - 1) (buf @ map char_at (pending b)) = buf" using less.prems(1) by simp
    with False less.prems show ?thesis
      by (simp add: http_date_loop.simps [of ops buf b] http_answer_date_def)
  next
    case room: True
    then have n: "0 < n" "length buf + n = MAX_HTTP_HEADERS_SIZE - 1" by (simp_all add: n_def)
    show ?thesis
    proof (cases "pending b = []")
      case True
      obtain rd b' where "BIO_read ops n b = (rd, b')" "read_ret rd \<le> 0"
        using read_end [OF n(1) True] by (metis prod.collapse)
      with room less.prems True show ?thesis
        by (simp add: http_date_loop.simps [of ops buf b] http_answer_date_def n_def)
    next
      case False
      obtain k b' where k: "1 \<le> k" "k \<le> n" "k \<le> length (pending b)"
        and rd: "BIO_read ops n b = (Got (take k (pending b)), b')" and p: "pending b' = drop k (pending b)"
        using read_chunk [OF n(1) False] by blast
      define buf' where "buf' = buf @ map char_at (take k (pending b))"
      have len: "length buf' = length buf + k" using k by (simp add: buf'_def)
      have whole: "buf @ map char_at (pending b) = buf' @ map char_at (pending b')"
        by (simp add: buf'_def p flip: map_append)
      have fits: "\<not> int MAX_HTTP_HEADERS_SIZE - (1 + int (length buf)) < int k"
        using k n by linarith
      have loop: "http_date_loop ops buf b =
          (case date_line_of buf' of None \<Rightarrow> http_date_loop ops buf' b'
           | Some dateline \<Rightarrow> (let (r, t) = handle_date_line (c_str dateline) in Inr (r, t, b')))"
        using room rd k fits unfolding buf'_def by (simp add: http_date_loop.simps [of ops buf b] n_def Let_def)
      show ?thesis
      proof (cases "date_line_of buf'")
        case None
        then show ?thesis
          unfolding whole loop using less.hyps [of buf' b'] len k n by simp
      next
        case (Some l)
        have "date_line_of (take (MAX_HTTP_HEADERS_SIZE - 1) (buf' @ map char_at (pending b'))) = Some l"
          using date_line_of_append [OF Some] len k n by simp
        with Some show ?thesis unfolding whole loop by (simp add: http_answer_date_def split: prod.split)
      qed
    qed
  qed
qed

lemma read_http_date_chunks:
  "\<exists>b'. read_http_date_from_bio ops b =
     Inr (fst (http_answer_date (map char_at (pending b))), snd (http_answer_date (map char_at (pending b))), b')"
  using http_date_loop_chunks [of "[]" b] by (simp add: read_http_date_from_bio_def date_line_of_Nil)

lemma write_all_chunks:
  "\<exists>b'. write_all_to_bio ops str b = (1, b') \<and> sent b' = sent b @ str \<and> pending b' = pending b"
proof (induction "length str" arbitrary: str b rule: less_induct)
  case less
  show ?case
  proof (cases "str = []")
    case True
    then show ?thesis by (simp add: write_all_to_bio.simps)
  next
    case False
    then obtain k b1 where k: "1 \<le> k" "k \<le> length str" "BIO_write ops str b = (int k, b1)"
      "sent b1 = sent b @ take k str" "pending b1 = pending b"
      using write_chunk by blast
    then have "length (drop k str) < length str" using False by simp
    from less [OF this, of b1] k False show ?thesis
      by (subst write_all_to_bio.simps) auto
  qed
qed

end



text \<open>No earlier occurrence of a marker, as an executable check.\<close>

definition first_at_end :: "string \<Rightarrow> string \<Rightarrow> bool" where
  "first_at_end s needle \<longleftrightarrow> (\<forall>i \<in> set [0..<length s]. take (length needle) (drop i (s @ needle)) \<noteq> needle)"

lemma first_at_endI: "first_at_end s needle \<Longrightarrow> \<forall>i < length s. take (length needle) (drop i (s @ needle)) \<noteq> needle"
  by (simp add: first_at_end_def)

lemma find_sub_first:
  assumes "\<forall>i < length head. take (length needle) (drop i (head @ needle)) \<noteq> needle" and "needle \<noteq> []"
  shows "find_sub (head @ needle @ rest) needle = Some (head, needle @ rest)"
  using assms(1)
proof (induction head)
  case Nil
  then show ?case by (simp add: find_sub.simps [of "needle @ rest"])
next
  case (Cons x xs)
  have "take (length needle) (drop 0 ((x # xs) @ needle)) \<noteq> needle" using Cons.prems by blast
  moreover have "take (length needle) ((x # xs) @ needle @ rest) = take (length needle) ((x # xs) @ needle)"
    using take_append [of "length needle" "(x # xs) @ needle" rest] by simp
  ultimately have now: "take (length needle) (x # xs @ needle @ rest) \<noteq> needle" by simp
  have "\<forall>i < length xs. take (length needle) (drop i (xs @ needle)) \<noteq> needle"
    using Cons.prems by (metis Suc_less_eq drop_Suc_Cons append_Cons length_Cons)
  from Cons.IH [OF this] now show ?case by (simp add: find_sub.simps [of "x # xs @ needle @ rest"])
qed

lemma http_answer_date_line:
  assumes "first_at_end head DATE_MARK" and "first_at_end (''Date: '' @ line) [CHR 0x0D, CHR 0x0A]" and "NUL \<notin> set line"
    and "length (head @ DATE_MARK @ line) + 2 < MAX_HTTP_HEADERS_SIZE"
  shows "http_answer_date (head @ DATE_MARK @ line @ [CHR 0x0D, CHR 0x0A] @ rest) = handle_date_line (DATE_MARK @ line)"
proof -
  define rest' where "rest' = take (MAX_HTTP_HEADERS_SIZE - 1 - length (head @ DATE_MARK @ line @ [CHR 0x0D, CHR 0x0A])) rest"
  have "take (MAX_HTTP_HEADERS_SIZE - 1) ((head @ DATE_MARK @ line @ [CHR 0x0D, CHR 0x0A]) @ rest) =
      head @ DATE_MARK @ line @ [CHR 0x0D, CHR 0x0A] @ rest'"
    unfolding take_append [of _ "head @ DATE_MARK @ line @ [CHR 0x0D, CHR 0x0A]"] rest'_def using assms(4) by simp
  moreover have "find_sub (head @ DATE_MARK @ line @ [CHR 0x0D, CHR 0x0A] @ rest') DATE_MARK =
      Some (head, DATE_MARK @ line @ [CHR 0x0D, CHR 0x0A] @ rest')"
    by (rule find_sub_first [OF first_at_endI [OF assms(1)]]) (simp add: DATE_MARK_def)
  moreover have "find_sub ((''Date: '' @ line) @ [CHR 0x0D, CHR 0x0A] @ rest') [CHR 0x0D, CHR 0x0A] =
      Some (''Date: '' @ line, [CHR 0x0D, CHR 0x0A] @ rest')"
    by (rule find_sub_first [OF first_at_endI [OF assms(2)]]) simp
  ultimately have "date_line_of (take (MAX_HTTP_HEADERS_SIZE - 1) (head @ DATE_MARK @ line @ [CHR 0x0D, CHR 0x0A] @ rest)) =
      Some (DATE_MARK @ line)"
    by (simp add: date_line_of_def DATE_MARK_def)
  moreover have "c_str (DATE_MARK @ line) = DATE_MARK @ line"
    using assms(3) by (intro c_str_id) (auto simp: DATE_MARK_def NUL_def)
  ultimately show ?thesis by (simp add: http_answer_date_def)
qed

lemma first_at_end_no_hd:
  assumes "x \<notin> set s"
  shows "first_at_end s (x # xs)"
proof -
  have "take (length (x # xs)) (drop i (s @ x # xs)) \<noteq> x # xs" if "i < length s" for i
  proof -
    have "drop i (s @ x # xs) = s ! i # drop (Suc i) (s @ x # xs)"
      using Cons_nth_drop_Suc [of i "s @ x # xs"] that by (simp add: nth_append)
    then show ?thesis using assms that by (metis list.inject nth_mem take_Suc_Cons length_Cons)
  qed
  then show ?thesis by (simp add: first_at_end_def)
qed

lemma dec_nat_clean: "CHR 0x0D \<notin> set (dec_nat n)" "NUL \<notin> set (dec_nat n)"
  by (auto dest: dec_nat_digits simp: isdigit_def NUL_def)

lemma print_1123_clean:
  assumes "CHR 0x0D \<notin> set wd" "NUL \<notin> set wd" and "mon < 12"
  shows "CHR 0x0D \<notin> set (print_1123 wd y mon d h mi s)" "NUL \<notin> set (print_1123 wd y mon d h mi s)"
proof -
  have "CHR 0x0D \<notin> set (MONTHS ! mon)" "NUL \<notin> set (MONTHS ! mon)"
    using assms(3) by (rule month_cases; simp add: MONTHS_def NUL_def)+
  moreover have "CHR 0x0D \<notin> set (pad2 n)" "NUL \<notin> set (pad2 n)" for n
    using dec_nat_clean [of n] by (auto simp: pad2_def NUL_def)
  ultimately show "CHR 0x0D \<notin> set (print_1123 wd y mon d h mi s)" "NUL \<notin> set (print_1123 wd y mon d h mi s)"
    using assms dec_nat_clean [of y] by (simp_all add: print_1123_def hms_def) (simp_all add: NUL_def)
qed

text \<open>An answer with a date in the preferred format, wherever the header stands in it.\<close>

lemma http_answer_date_calendar:
  assumes "calendar_day n = (int y, mon, int d)" and "h < 24" "mi < 60" "s \<le> 60"
    and "t = 86400 * n + 3600 * h + 60 * mi + s" and "t < 2 ^ 32"
    and "wd \<noteq> []" "\<forall>c \<in> set wd. letter c" and "length (print_1123 wd y mon d h mi s) \<le> 32"
    and "first_at_end head DATE_MARK" and "length head < MAX_HTTP_HEADERS_SIZE - 42"
  shows "http_answer_date (head @ DATE_MARK @ print_1123 wd y mon d h mi s @ [CHR 0x0D, CHR 0x0A] @ rest) = (1, Some (word_of_nat t))"
proof -
  have mon: "mon < 12" using calendar_day_small(1) [OF assms(1)] assms(5,6) by simp
  have wd: "CHR '' '' \<notin> set wd" "CHR 0x0D \<notin> set wd" "NUL \<notin> set wd"
    using assms(8) by (auto simp: letter_def isupper_def islower_def NUL_def)
  note clean = print_1123_clean [OF wd(2,3) mon, of y d h mi s]
  have "handle_date_line (DATE_MARK @ print_1123 wd y mon d h mi s) = (1, Some (word_of_nat t))"
    using handle_date_line_reads [OF assms(1-6) wd(1) assms(7)] assms(9) by blast
  moreover have "first_at_end (''Date: '' @ print_1123 wd y mon d h mi s) [CHR 0x0D, CHR 0x0A]"
    using clean(1) by (intro first_at_end_no_hd) simp
  ultimately show ?thesis
    using http_answer_date_line [OF assms(10) _ clean(2), of rest] assms(9,11) by simp
qed

section \<open>Properties of the reader\<close>

text \<open>
  C12. How the answer arrives does not matter: over any connection that delivers the bytes in order,
  in pieces of any size, the reader returns what the date line of the whole answer (its first
  8191 bytes) gives, 0 when the answer ends without a date line, and -2 when the buffer is full
  without one. The reader never writes beyond its buffer.
\<close>

theorem read_http_date_any_chunks:
  assumes "chunked_bio ops sent pending"
  shows "\<exists>b'. read_http_date_from_bio ops b =
     Inr (fst (http_answer_date (map char_at (pending b))), snd (http_answer_date (map char_at (pending b))), b')"
  by (rule chunked_bio.read_http_date_chunks [OF assms])

definition sample_answer :: string where
  "sample_answer = ''HTTP/1.1 200 OK'' @ DATE_MARK @ ''Tue, 10 Feb 1970 08:49:37 GMT'' @ [CHR 0x0D, CHR 0x0A, CHR 0x0D, CHR 0x0A]"

lemma sample_answer_date: "http_answer_date sample_answer = (1, Some 3487777)"
proof -
  have c: "calendar_day 40 = (int 1970, 1, int 10)" by code_simp
  have p: "print_1123 ''Tue'' 1970 1 10 8 49 37 = ''Tue, 10 Feb 1970 08:49:37 GMT''" by code_simp
  have "first_at_end ''HTTP/1.1 200 OK'' DATE_MARK" "\<forall>c \<in> set ''Tue''. letter c" by code_simp+
  then show ?thesis
    using http_answer_date_calendar [OF c, of 8 49 37 3487777 "''Tue''" "''HTTP/1.1 200 OK''" "[CHR 0x0D, CHR 0x0A]"]
    unfolding p sample_answer_def by (simp add: limit_defs)
qed

theorem read_http_date_any_chunks_witness:
  "\<exists>b'. read_http_date_from_bio test_methods \<lparr>t_out = [], t_in = bytes_of sample_answer\<rparr> = Inr (1, Some 3487777, b')"
proof -
  have "map char_at (bytes_of sample_answer) = sample_answer" by simp
  moreover have "http_answer_date sample_answer = (1, Some 3487777)" by (rule sample_answer_date)
  ultimately show ?thesis
    using read_http_date_any_chunks [OF test_bio.chunked_bio_axioms, of "\<lparr>t_out = [], t_in = bytes_of sample_answer\<rparr>"] by simp
qed


end
