(* ===== verification/Cert_Names.thy ===== *)
theory Cert_Names
  imports Clib
begin

text \<open>
  The checks on the server's certificate in \<^verbatim>\<open>src/tlsdate-helper.c\<close>: the host name against the
  common name and the subject alternative names with their wildcards, the result of the chain
  verification and the size of the key. OpenSSL is a parameter: a certificate is the record of what
  its accessors return. \<^verbatim>\<open>die\<close> exits with status 1.
\<close>

section \<open>Wildcards\<close>

lemma strtok_r_Some_shorter: "strtok_r s delim = (Some tok, rest) \<Longrightarrow> length rest < length s"
proof -
  assume a: "strtok_r s delim = (Some tok, rest)"
  define s' where "s' = dropWhile (\<lambda>c. c \<in> set delim) s"
  have ne: "s' \<noteq> []" and r: "rest = drop 1 (dropWhile (\<lambda>c. c \<notin> set delim) s')"
    using a by (auto simp: strtok_r_def s'_def Let_def split: if_splits)
  have "length s' \<le> length s" unfolding s'_def by (rule dropWhile_length_le)
  moreover have "length (dropWhile (\<lambda>c. c \<notin> set delim) s') \<le> length s'" by (rule dropWhile_length_le)
  ultimately show "length rest < length s" using ne r by (cases s') auto
qed

text \<open>The loop of \<^verbatim>\<open>dns_label_count\<close>, with the pointer from which \<^verbatim>\<open>strtok_r\<close> goes on.\<close>

function label_loop :: "string \<Rightarrow> nat \<Rightarrow> string \<Rightarrow> nat" where
  "label_loop delim label_count saveptr =
     (case strtok_r saveptr delim of
        (None, _) \<Rightarrow> label_count + 1
      | (Some _, saveptr') \<Rightarrow> label_loop delim (label_count + 1) saveptr')"
  by pat_completeness auto
termination
  by (relation "measure (\<lambda>(delim, n, s). length s)") (auto dest: sym [THEN strtok_r_Some_shorter])

declare label_loop.simps [simp del]

text \<open>
  The first call of \<^verbatim>\<open>strtok_r\<close> is assigned to the very variable in which it saved its position: the
  scan then goes on at the first token, which has been cut off by a NUL, and not behind it.
\<close>

definition dns_label_count :: "string \<Rightarrow> string \<Rightarrow> nat" where
  "dns_label_count label delim =
     (case fst (strtok_r label delim) of
        None \<Rightarrow> 0
      | Some saveptr \<Rightarrow>
          label_loop delim (if (saveptr @ [NUL]) ! 0 \<noteq> (delim @ [NUL]) ! 0 then 1 else 0) saveptr)"

definition RFC2595_MIN_LABEL_COUNT :: nat where [limit_defs]: "RFC2595_MIN_LABEL_COUNT = 3"

lemma strsep_shorter: "strsep (Some s) delim = (Some l, Some rest) \<Longrightarrow> length rest < length s"
proof -
  assume "strsep (Some s) delim = (Some l, Some rest)"
  then obtain c where "dropWhile (\<lambda>c. c \<notin> set delim) s = c # rest"
    by (auto simp: strsep_def split: list.splits)
  then show "length rest < length s" using dropWhile_length_le [of "\<lambda>c. c \<notin> set delim" s] by simp
qed

text \<open>The loop over the labels: \<open>ok\<close> and \<open>wildcard_encountered\<close> when it is left.\<close>

function wildcard_loop :: "nat \<Rightarrow> string option \<Rightarrow> string option \<Rightarrow> bool \<Rightarrow> bool \<Rightarrow> bool \<times> bool" where
  "wildcard_loop label_count cert_wild_card hostname ok wildcard_encountered =
     (case (strsep cert_wild_card ''.'', strsep hostname ''.'') of
        ((Some wildcard_label, Some cert'), (Some expected_label, Some host')) \<Rightarrow>
          (if (wildcard_label @ [NUL]) ! 0 = CHR ''*'' \<and> \<not> wildcard_encountered \<and> \<not> ok then
             (if label_count \<le> RFC2595_MIN_LABEL_COUNT
              then wildcard_loop label_count (Some cert') (Some host') ok True
              else (ok, True))
           else if strcaseeq expected_label wildcard_label \<and> label_count \<ge> RFC2595_MIN_LABEL_COUNT
           then (True, wildcard_encountered)
           else (False, wildcard_encountered))
      | _ \<Rightarrow> (ok, wildcard_encountered))"
  by pat_completeness auto
termination
proof (relation "measure (\<lambda>(n, cert, host, ok, w). case cert of None \<Rightarrow> 0 | Some s \<Rightarrow> Suc (length s))", goal_cases)
  case 1
  show ?case by simp
next
  case (2 label_count cert host ok w)
  then show ?case by (cases cert) (auto simp: strsep_def [of None] dest: sym [THEN strsep_shorter])
qed

declare wildcard_loop.simps [simp del]

definition check_wildcard_match_rfc2595 :: "string \<Rightarrow> string \<Rightarrow> nat" where
  "check_wildcard_match_rfc2595 orig_hostname orig_cert_wild_card =
     (let label_count = dns_label_count orig_cert_wild_card ''.'';
          (ok, wildcard_encountered) =
            (if CHR ''.'' \<in> set orig_cert_wild_card \<and> CHR ''.'' \<in> set orig_hostname \<and>
                label_count \<le> RFC2595_MIN_LABEL_COUNT
             then (if (orig_cert_wild_card @ [NUL]) ! 0 = CHR ''*''
                   then wildcard_loop label_count (Some orig_cert_wild_card) (Some orig_hostname) False False
                   else (False, False))
             else (False, False))
      in if wildcard_encountered \<and> ok \<and> label_count \<ge> RFC2595_MIN_LABEL_COUNT then 1 else 0)"

section \<open>The certificate\<close>

datatype pkey_type = EVP_PKEY_RSA | EVP_PKEY_RSA2 | EVP_PKEY_DSA | EVP_PKEY_DSA1 | EVP_PKEY_DSA2 | EVP_PKEY_DSA3
  | EVP_PKEY_DSA4 | EVP_PKEY_DH | EVP_PKEY_EC | EVP_PKEY_OTHER

text \<open>The bit lengths that \<^verbatim>\<open>BN_num_bits\<close> and \<^verbatim>\<open>EVP_PKEY_bits\<close> return for the parts of a key.\<close>

record pkey =
  pk_type :: pkey_type
  rsa_n_bits :: nat
  dsa_p_bits :: nat
  dh_pub_bits :: nat
  evp_bits :: nat

text \<open>
  An extension: its short name, and the names and values that its method prints, behind the three
  points where decoding may stop: no method, no value, no printing function.
\<close>

datatype ext_values = No_Method | No_Value | No_I2v | Values "(string \<times> string) list"

record certificate =
  cn_text :: "nat \<Rightarrow> int \<times> string"
  extensions :: "(string \<times> ext_values) list"
  pubkey :: "pkey option"

record ssl =
  peer_certificate :: "certificate option"
  verify_result :: int
  server_random :: "byte list"

definition TLSDATE_HOST_NAME_MAX :: nat where "TLSDATE_HOST_NAME_MAX = 255"

text \<open>The buffer is cleared before the name is copied into it.\<close>

definition check_cn :: "ssl \<Rightarrow> string \<Rightarrow> nat result" where
  "check_cn S hostname =
     (case peer_certificate S of
        None \<Rightarrow> Inl (Exit 1)
      | Some cert \<Rightarrow>
          (let (ret, text) = cn_text cert TLSDATE_HOST_NAME_MAX; cn_buf = c_str text
           in if ret = -1 \<or> ret \<noteq> int (length cn_buf) then Inl (Exit 1)
              else if \<not> strcaseeq cn_buf hostname then Inr 0
              else Inr 1))"

fun san_values :: "string \<Rightarrow> (string \<times> string) list \<Rightarrow> nat \<Rightarrow> nat" where
  "san_values hostname [] ok = ok"
| "san_values hostname ((name, val) # vals) ok =
     (if (strcaseeq name ''DNS'' \<and> strcaseeq val hostname) \<or> (strcaseeq name ''iPAddress'' \<and> strcaseeq val hostname) then 1
      else if strcaseeq name ''DNS'' then
        (let ok' = check_wildcard_match_rfc2595 hostname val
         in if ok' \<noteq> 0 then ok' else san_values hostname vals ok')
      else san_values hostname vals ok)"

fun san_extensions :: "string \<Rightarrow> (string \<times> ext_values) list \<Rightarrow> nat \<Rightarrow> nat" where
  "san_extensions hostname [] ok = ok"
| "san_extensions hostname ((extstr, v) # exts) ok =
     (if extstr = ''subjectAltName'' then
        (case v of
           No_Method \<Rightarrow> ok
         | No_Value \<Rightarrow> ok
         | No_I2v \<Rightarrow> (if ok \<noteq> 0 then ok else san_extensions hostname exts ok)
         | Values vals \<Rightarrow>
             (let ok' = san_values hostname vals ok
              in if ok' \<noteq> 0 then ok' else san_extensions hostname exts ok'))
      else if ok \<noteq> 0 then ok
      else san_extensions hostname exts ok)"

definition check_san :: "ssl \<Rightarrow> string \<Rightarrow> nat result" where
  "check_san S hostname =
     (case peer_certificate S of
        None \<Rightarrow> Inl (Exit 1)
      | Some cert \<Rightarrow> Inr (san_extensions hostname (extensions cert) 0))"

definition check_name :: "ssl \<Rightarrow> string \<Rightarrow> nat result" where
  "check_name S hostname =
     bind_res (check_cn S hostname) (\<lambda>cn.
     bind_res (check_san S hostname) (\<lambda>san.
       let ret = cn + san in if ret \<noteq> 0 \<and> 0 < ret then Inr ret else Inl (Exit 1)))"

text \<open>\<^verbatim>\<open>X509_V_OK\<close> is 0; the two codes for self-signed certificates are 18 and 19.\<close>

definition verify_signature :: "ssl \<Rightarrow> unit result" where
  "verify_signature S =
     (case peer_certificate S of
        None \<Rightarrow> Inl (Exit 1)
      | Some _ \<Rightarrow>
          (if verify_result S = 18 \<or> verify_result S = 19 then Inl (Exit 1)
           else if verify_result S = 0 then Inr ()
           else Inl (Exit 1)))"

definition get_certificate_keybits :: "pkey \<Rightarrow> nat result" where
  "get_certificate_keybits k =
     (case pk_type k of
        EVP_PKEY_RSA \<Rightarrow> Inr (rsa_n_bits k)
      | EVP_PKEY_RSA2 \<Rightarrow> Inr (rsa_n_bits k)
      | EVP_PKEY_DSA \<Rightarrow> Inr (dsa_p_bits k)
      | EVP_PKEY_DSA1 \<Rightarrow> Inr (dsa_p_bits k)
      | EVP_PKEY_DSA2 \<Rightarrow> Inr (dsa_p_bits k)
      | EVP_PKEY_DSA3 \<Rightarrow> Inr (dsa_p_bits k)
      | EVP_PKEY_DSA4 \<Rightarrow> Inr (dsa_p_bits k)
      | EVP_PKEY_DH \<Rightarrow> Inr (dh_pub_bits k)
      | EVP_PKEY_EC \<Rightarrow> Inr (evp_bits k)
      | EVP_PKEY_OTHER \<Rightarrow> Inl (Exit 1))"

definition MIN_PUB_KEY_LEN :: nat where [limit_defs]: "MIN_PUB_KEY_LEN = 1023"
definition MIN_ECC_PUB_KEY_LEN :: nat where [limit_defs]: "MIN_ECC_PUB_KEY_LEN = 160"
definition MAX_ECC_PUB_KEY_LEN :: nat where [limit_defs]: "MAX_ECC_PUB_KEY_LEN = 521"

definition check_key_length :: "ssl \<Rightarrow> unit result" where
  "check_key_length S =
     (case peer_certificate S of
        None \<Rightarrow> Inl (Exit 1)
      | Some cert \<Rightarrow>
          (case pubkey cert of
             None \<Rightarrow> Inl (Exit 1)
           | Some key \<Rightarrow>
               bind_res (get_certificate_keybits key) (\<lambda>key_bits.
                 if MIN_PUB_KEY_LEN \<ge> key_bits \<and> pk_type key \<noteq> EVP_PKEY_EC then Inl (Exit 1)
                 else if pk_type key = EVP_PKEY_EC then
                   (if key_bits \<ge> MIN_ECC_PUB_KEY_LEN \<and> key_bits \<le> MAX_ECC_PUB_KEY_LEN then Inr () else Inl (Exit 1))
                 else Inr ())))"

definition inspect_key :: "ssl \<Rightarrow> string \<Rightarrow> unit result" where
  "inspect_key S hostname =
     bind_res (verify_signature S) (\<lambda>_. bind_res (check_name S hostname) (\<lambda>_. Inr ()))"


section \<open>Facts\<close>

lemma strtok_r_token:
  assumes "strtok_r s delim = (Some tok, rest)"
  shows "tok \<noteq> []" "\<forall>c \<in> set tok. c \<notin> set delim"
proof -
  obtain s' where s': "s' = dropWhile (\<lambda>c. c \<in> set delim) s" "s' \<noteq> []" and t: "tok = takeWhile (\<lambda>c. c \<notin> set delim) s'"
    using assms by (auto simp: strtok_r_def Let_def split: if_splits)
  then obtain x xs where "s' = x # xs" "x \<notin> set delim" by (metis dropWhile_hd neq_Nil_conv)
  then show "tok \<noteq> []" using t by simp
  show "\<forall>c \<in> set tok. c \<notin> set delim" using t by (auto dest: set_takeWhileD)
qed

lemma strtok_r_whole:
  assumes "tok \<noteq> []" and "\<forall>c \<in> set tok. c \<notin> set delim"
  shows "strtok_r tok delim = (Some tok, [])"
proof -
  have "dropWhile (\<lambda>c. c \<in> set delim) tok = tok" using assms by (cases tok) auto
  moreover have "takeWhile (\<lambda>c. c \<notin> set delim) tok = tok" "dropWhile (\<lambda>c. c \<notin> set delim) tok = []"
    using assms(2) by simp_all
  ultimately show ?thesis using assms(1) by (simp only: strtok_r_def Let_def if_False drop_Nil)
qed

text \<open>The count does not depend on the number of labels.\<close>

lemma dns_label_count_eq:
  "dns_label_count label ''.'' = (if \<forall>c \<in> set label. c = CHR ''.'' then 0 else 3)"
proof (cases "strtok_r label ''.''")
  case (Pair tok rest)
  show ?thesis
  proof (cases tok)
    case None
    then have "\<forall>c \<in> set label. c = CHR ''.''"
      using Pair dropWhile_eq_Nil_conv [of "\<lambda>c. c = CHR ''.''" label]
      by (auto simp: strtok_r_def Let_def split: if_splits)
    with None Pair show ?thesis by (simp add: dns_label_count_def)
  next
    case (Some t)
    note t = strtok_r_token [OF Pair [unfolded Some]]
    have "strtok_r t ''.'' = (Some t, [])" by (rule strtok_r_whole [OF t])
    moreover have "strtok_r [] ''.'' = (None, [])" by (simp add: strtok_r_def)
    ultimately have "label_loop ''.'' 1 t = 3"
      by (simp add: label_loop.simps [of _ _ t] label_loop.simps [of _ _ "[]"])
    moreover have "(t @ [NUL]) ! 0 \<noteq> CHR ''.''" using t by (cases t) auto
    moreover have "\<not> (\<forall>c \<in> set label. c = CHR ''.'')"
      using Pair Some dropWhile_eq_Nil_conv [of "\<lambda>c. c = CHR ''.''" label]
      by (auto simp: strtok_r_def Let_def split: if_splits)
    ultimately show ?thesis using Pair Some by (simp add: dns_label_count_def)
  qed
qed

lemma strsep_dot:
  "strsep (Some s) ''.'' = (Some l, Some rest) \<longleftrightarrow> s = l @ ''.'' @ rest \<and> CHR ''.'' \<notin> set l"
proof
  assume a: "strsep (Some s) ''.'' = (Some l, Some rest)"
  then obtain c where d: "dropWhile (\<lambda>c. c \<noteq> CHR ''.'') s = c # rest" and l: "l = takeWhile (\<lambda>c. c \<noteq> CHR ''.'') s"
    by (auto simp: strsep_def split: list.splits)
  have "c = CHR ''.''" using dropWhile_hd [OF d] by simp
  with d l show "s = l @ ''.'' @ rest \<and> CHR ''.'' \<notin> set l"
    using takeWhile_dropWhile_id [of "\<lambda>c. c \<noteq> CHR ''.''" s] by (auto dest: set_takeWhileD)
next
  assume a: "s = l @ ''.'' @ rest \<and> CHR ''.'' \<notin> set l"
  then have "takeWhile (\<lambda>c. c \<noteq> CHR ''.'') s = l" "dropWhile (\<lambda>c. c \<noteq> CHR ''.'') s = CHR ''.'' # rest"
    by (auto intro!: takeWhile_append_stop dropWhile_append_stop)
  then show "strsep (Some s) ''.'' = (Some l, Some rest)" by (simp add: strsep_def)
qed

text \<open>The first label and what follows it, if the name has a dot.\<close>

definition split_label :: "string \<Rightarrow> (string \<times> string) option" where
  "split_label s = (case strsep (Some s) ''.'' of (Some l, Some rest) \<Rightarrow> Some (l, rest) | _ \<Rightarrow> None)"

lemma split_label_iff: "split_label s = Some (l, rest) \<longleftrightarrow> s = l @ ''.'' @ rest \<and> CHR ''.'' \<notin> set l"
  unfolding strsep_dot [symmetric] by (auto simp: split_label_def split: prod.splits option.splits)

lemma wildcard_loop_cases:
  "wildcard_loop n (Some cert) (Some host) ok w =
     (case (split_label cert, split_label host) of
        (Some (wl, cert'), Some (el, host')) \<Rightarrow>
          (if (wl @ [NUL]) ! 0 = CHR ''*'' \<and> \<not> w \<and> \<not> ok then
             (if n \<le> 3 then wildcard_loop n (Some cert') (Some host') ok True else (ok, True))
           else (strcaseeq el wl \<and> 3 \<le> n, w))
      | _ \<Rightarrow> (ok, w))"
  by (subst wildcard_loop.simps)
    (auto simp: split_label_def limit_defs strsep_def split: list.splits option.splits)

lemma split_label_hd: "split_label s = Some (l, r) \<Longrightarrow> (s @ [NUL]) ! 0 = CHR ''*'' \<longleftrightarrow> (l @ [NUL]) ! 0 = CHR ''*''"
  by (cases l) (auto simp: split_label_iff NUL_def)

lemma label_count_star: "take 1 cert = ''*'' \<Longrightarrow> dns_label_count cert ''.'' = 3"
  by (cases cert) (auto simp: dns_label_count_eq)

lemma split_label_None: "split_label s = None \<longleftrightarrow> CHR ''.'' \<notin> set s"
proof -
  have "CHR ''.'' \<in> set s \<longleftrightarrow> (\<exists>l r. s = l @ ''.'' @ r \<and> CHR ''.'' \<notin> set l)"
    by (metis append_Cons append_Nil in_set_conv_decomp split_list_first)
  then show ?thesis by (metis not_Some_eq option.distinct(1) split_label_iff surj_pair)
qed

lemma check_wildcard_first:
  "check_wildcard_match_rfc2595 host cert =
     (if take 1 cert = ''*'' \<and> split_label cert \<noteq> None \<and> split_label host \<noteq> None \<and>
         wildcard_loop 3 (Some cert) (Some host) False False = (True, True) then 1 else 0)"
proof -
  have "(cert @ [NUL]) ! 0 = CHR ''*'' \<longleftrightarrow> take 1 cert = ''*''" by (cases cert) (auto simp: NUL_def)
  then show ?thesis
    using label_count_star [of cert]
    by (auto simp: check_wildcard_match_rfc2595_def split_label_None limit_defs Let_def split: prod.splits)
qed

lemma check_wildcard_second:
  assumes "take 1 cert = ''*''" and "split_label cert = Some (w, c1)" "split_label host = Some (h, h1)"
  shows "check_wildcard_match_rfc2595 host cert =
     (if \<exists>l r l' r'. split_label c1 = Some (l, r) \<and> split_label h1 = Some (l', r') \<and> strcaseeq l' l then 1 else 0)"
proof -
  have "(w @ [NUL]) ! 0 = CHR ''*''"
    using assms(1) split_label_hd [OF assms(2)] by (cases cert) auto
  then have "wildcard_loop 3 (Some cert) (Some host) False False = wildcard_loop 3 (Some c1) (Some h1) False True"
    using assms by (subst wildcard_loop_cases) simp
  also have "\<dots> = (\<exists>l r l' r'. split_label c1 = Some (l, r) \<and> split_label h1 = Some (l', r') \<and> strcaseeq l' l, True)"
    by (subst wildcard_loop_cases) (auto split: option.splits)
  finally show ?thesis using assms by (simp add: check_wildcard_first)
qed

text \<open>What a value of the extension must be to count.\<close>

definition san_matches :: "string \<Rightarrow> string \<Rightarrow> string \<Rightarrow> bool" where
  "san_matches hostname name val \<longleftrightarrow>
     (strcaseeq name ''DNS'' \<or> strcaseeq name ''iPAddress'') \<and> strcaseeq val hostname \<or>
     strcaseeq name ''DNS'' \<and> check_wildcard_match_rfc2595 hostname val \<noteq> 0"

lemma san_values_iff: "san_values hostname vals 0 \<noteq> 0 \<longleftrightarrow> (\<exists>(name, val) \<in> set vals. san_matches hostname name val)"
proof (induction vals)
  case Nil
  show ?case by simp
next
  case (Cons nv vals)
  then show ?case by (cases nv) (auto simp: san_matches_def Let_def)
qed

lemma san_extensions_sound:
  "san_extensions hostname exts 0 \<noteq> 0 \<Longrightarrow>
     \<exists>vals name val. (''subjectAltName'', Values vals) \<in> set exts \<and> (name, val) \<in> set vals \<and> san_matches hostname name val"
proof (induction exts)
  case Nil
  then show ?case by simp
next
  case (Cons ev exts)
  obtain sn v where ev: "ev = (sn, v)" by (cases ev)
  show ?case
  proof (cases "\<exists>vals. sn = ''subjectAltName'' \<and> v = Values vals \<and> san_values hostname vals 0 \<noteq> 0")
    case True
    then obtain vals where "sn = ''subjectAltName''" "v = Values vals" "san_values hostname vals 0 \<noteq> 0" by blast
    then show ?thesis using ev san_values_iff [of hostname vals] by auto
  next
    case False
    then have "san_extensions hostname exts 0 \<noteq> 0"
      using Cons.prems ev by (auto simp: Let_def split: if_splits ext_values.splits)
    with Cons.IH show ?thesis by auto
  qed
qed

section \<open>Properties\<close>

text \<open>
  C14. Which names a wildcard matches: one that begins with a star matches every host name that has
  at least two dots and the same second label, whatever follows; nothing else matches. The labels
  after the second are never compared, and the count of labels never refuses a name.
\<close>

theorem wildcard_match_iff:
  "check_wildcard_match_rfc2595 host cert =
     (if (\<exists>w l l' h r r'. cert = w @ ''.'' @ l @ ''.'' @ r \<and> host = h @ ''.'' @ l' @ ''.'' @ r' \<and>
           CHR ''.'' \<notin> set w \<union> set l \<union> set h \<union> set l' \<and> take 1 w = ''*'' \<and> strcaseeq l' l) then 1 else 0)"
  (is "_ = (if ?match then 1 else 0)")
proof (cases "take 1 cert = ''*'' \<and> split_label cert \<noteq> None \<and> split_label host \<noteq> None")
  case False
  then have "\<not> ?match" by (auto simp: split_label_None)
  moreover have "check_wildcard_match_rfc2595 host cert = 0"
    using False by (auto simp: check_wildcard_first)
  ultimately show ?thesis by simp
next
  case True
  then obtain w c1 h h1 where s: "split_label cert = Some (w, c1)" "split_label host = Some (h, h1)" and star: "take 1 cert = ''*''"
    by auto
  have "?match \<longleftrightarrow> (\<exists>l r l' r'. split_label c1 = Some (l, r) \<and> split_label h1 = Some (l', r') \<and> strcaseeq l' l)"
  proof
    assume ?match
    then obtain w2 l l' h2 r r' where m: "cert = w2 @ ''.'' @ l @ ''.'' @ r" "host = h2 @ ''.'' @ l' @ ''.'' @ r'"
      "CHR ''.'' \<notin> set w2 \<union> set l \<union> set h2 \<union> set l'" "strcaseeq l' l" by blast
    then have "split_label cert = Some (w2, l @ ''.'' @ r)" "split_label host = Some (h2, l' @ ''.'' @ r')"
      unfolding split_label_iff by simp_all
    with s have "c1 = l @ ''.'' @ r" "h1 = l' @ ''.'' @ r'" by simp_all
    with m(3,4) show "\<exists>l r l' r'. split_label c1 = Some (l, r) \<and> split_label h1 = Some (l', r') \<and> strcaseeq l' l"
      unfolding split_label_iff by auto
  next
    assume "\<exists>l r l' r'. split_label c1 = Some (l, r) \<and> split_label h1 = Some (l', r') \<and> strcaseeq l' l"
    then obtain l r l' r' where m: "split_label c1 = Some (l, r)" "split_label h1 = Some (l', r')" "strcaseeq l' l"
      by blast
    have "take 1 w = ''*''" using star s(1) unfolding split_label_iff by (cases w) auto
    with s m show ?match
      unfolding split_label_iff by (intro exI [of _ w] exI [of _ l] exI [of _ l'] exI [of _ h] exI [of _ r] exI [of _ r']) simp
  qed
  with check_wildcard_second [OF star s] show ?thesis by auto
qed


text \<open>
  C13. What the two checks of the certificate establish when they return: the chain was verified,
  the name of the certificate is the host name, as a common name without an embedded NUL or as a
  subject alternative name, and the key is of a known kind with more than 1023 bits, or 160 to 521
  bits for an elliptic curve.
\<close>

theorem certificate_checks_sound:
  assumes "inspect_key S hostname = Inr ()" and "check_key_length S = Inr ()"
  shows "\<exists>cert key. peer_certificate S = Some cert \<and> pubkey cert = Some key \<and> verify_result S = 0 \<and>
     (let (ret, buf) = cn_text cert TLSDATE_HOST_NAME_MAX
      in ret = int (length (c_str buf)) \<and>
         (strcaseeq (c_str buf) hostname \<or>
          (\<exists>vals name val. (''subjectAltName'', Values vals) \<in> set (extensions cert) \<and> (name, val) \<in> set vals \<and>
             san_matches hostname name val))) \<and>
     (pk_type key = EVP_PKEY_EC \<and> 160 \<le> evp_bits key \<and> evp_bits key \<le> 521 \<or>
      pk_type key \<notin> {EVP_PKEY_EC, EVP_PKEY_OTHER} \<and> (\<exists>bits. get_certificate_keybits key = Inr bits \<and> 1023 < bits))"
proof -
  obtain cert where cert: "peer_certificate S = Some cert" and v: "verify_result S = 0" and n: "\<exists>r. check_name S hostname = Inr r"
    using assms(1) by (auto simp: inspect_key_def verify_signature_def split: option.splits if_splits)
  obtain ret buf where cn: "cn_text cert TLSDATE_HOST_NAME_MAX = (ret, buf)" by (cases "cn_text cert TLSDATE_HOST_NAME_MAX")
  have name: "ret = int (length (c_str buf))" "strcaseeq (c_str buf) hostname \<or> san_extensions hostname (extensions cert) 0 \<noteq> 0"
    using n cert cn by (auto simp: check_name_def check_cn_def check_san_def Let_def split: if_splits)
  obtain key bits where key: "pubkey cert = Some key" and bits: "get_certificate_keybits key = Inr bits"
    and ok: "\<not> (MIN_PUB_KEY_LEN \<ge> bits \<and> pk_type key \<noteq> EVP_PKEY_EC)"
      "pk_type key = EVP_PKEY_EC \<Longrightarrow> bits \<ge> MIN_ECC_PUB_KEY_LEN \<and> bits \<le> MAX_ECC_PUB_KEY_LEN"
    using assms(2) cert by (auto simp: check_key_length_def split: option.splits if_splits)
  have "pk_type key = EVP_PKEY_EC \<and> 160 \<le> evp_bits key \<and> evp_bits key \<le> 521 \<or>
      pk_type key \<notin> {EVP_PKEY_EC, EVP_PKEY_OTHER} \<and> 1023 < bits"
  proof (cases "pk_type key = EVP_PKEY_EC")
    case True
    then show ?thesis using bits ok(2)
      by (simp add: get_certificate_keybits_def limit_defs)
  next
    case False
    then show ?thesis using bits ok(1) by (auto simp: get_certificate_keybits_def limit_defs)
  qed
  with cert v key bits cn name show ?thesis using san_extensions_sound [of hostname "extensions cert"] by auto
qed

definition sample_key :: pkey where
  "sample_key = \<lparr>pk_type = EVP_PKEY_RSA, rsa_n_bits = 2048, dsa_p_bits = 0, dh_pub_bits = 0, evp_bits = 2048\<rparr>"

definition sample_certificate :: certificate where
  "sample_certificate = \<lparr>cn_text = (\<lambda>_. (11, ''example.org'')),
     extensions = [(''keyUsage'', No_I2v), (''subjectAltName'', Values [(''DNS'', ''*.example.org'')])], pubkey = Some sample_key\<rparr>"

definition sample_ssl :: ssl where
  "sample_ssl = \<lparr>peer_certificate = Some sample_certificate, verify_result = 0, server_random = [0x5a, 0, 0, 0]\<rparr>"

theorem certificate_checks_sound_witness:
  "\<exists>cert. peer_certificate sample_ssl = Some cert \<and>
     (\<exists>vals name val. (''subjectAltName'', Values vals) \<in> set (extensions cert) \<and> (name, val) \<in> set vals \<and>
        san_matches ''www.example.org'' name val)"
proof -
  have "inspect_key sample_ssl ''www.example.org'' = Inr ()" "check_key_length sample_ssl = Inr ()"
    "\<not> strcaseeq ''example.org'' ''www.example.org''" "c_str ''example.org'' = ''example.org''"
    by code_simp+
  then show ?thesis
    using certificate_checks_sound [of sample_ssl "''www.example.org''"]
    by (auto simp: sample_ssl_def sample_certificate_def)
qed

end
