(* ===== verification/Helper.thy ===== *)
theory Helper
  imports Sane_Time Privs Proxy_Uri Http_Date Cert_Names
begin

text \<open>
  The helper that fetches the time, \<^verbatim>\<open>src/tlsdate-helper.c\<close> (built on OpenSSL) with
  \<^verbatim>\<open>src/compat/clock-linux.c\<close>: the gate on the server's time during the handshake, the child that
  talks to the server, and the parent that measures the round trip, refuses implausible times
  and sets the clock. OpenSSL, the network, the clock and the process calls are inputs: \<open>conn\<close> is
  what a connection attempt brings, \<open>helper_env\<close> what the system calls return.
\<close>

section \<open>Byte order\<close>

text \<open>A 32-bit word in memory, in network byte order.\<close>

definition htonl_bytes :: "uint32 \<Rightarrow> byte list" where
  "htonl_bytes w = map (\<lambda>i. word_of_nat (unat w div 256 ^ i)) [3, 2, 1, 0]"

definition ntohl_bytes :: "byte list \<Rightarrow> uint32" where
  "ntohl_bytes bs = word_of_nat (foldl (\<lambda>acc b. 256 * acc + unat b) 0 (take 4 bs))"

section \<open>The clock\<close>

record tlsdate_time =
  tv_sec :: time_t
  tv_nsec :: int

definition clock_init_time :: "time_t \<Rightarrow> int \<Rightarrow> tlsdate_time" where
  "clock_init_time sec nsec = \<lparr>tv_sec = sec, tv_nsec = nsec\<rparr>"

definition CLOCK_USEC :: "tlsdate_time \<Rightarrow> int" where
  "CLOCK_USEC t = c_div (tv_nsec t) 1000"

section \<open>The gate during the handshake\<close>

definition MAX_REASONABLE_TIME :: int where [limit_defs]: "MAX_REASONABLE_TIME = 1999991337"

text \<open>
  One call of the info callback: whether it reports a step of the client state machine, whether
  that machine is reading the server hello, the random bytes of the server, and the verification
  time set so far.
\<close>

definition openssl_time_callback ::
  "build \<Rightarrow> bool \<Rightarrow> bool \<Rightarrow> byte list \<Rightarrow> time_t option \<Rightarrow> time_t option result" where
  "openssl_time_callback B connect_loop srvr_hello random frozen =
     (if connect_loop \<and> srvr_hello then
        (let compiled_time = (word_of_int (RECENT_COMPILE_DATE B) :: uint32);
             max_reasonable_time = (word_of_int MAX_REASONABLE_TIME :: uint32);
             server_time = ntohl_bytes random
         in if compiled_time < server_time \<and> server_time < max_reasonable_time
            then Inr (Some (uint server_time + 86400))
            else Inl (Exit 1))
      else Inr frozen)"

fun callbacks :: "build \<Rightarrow> (bool \<times> bool) list \<Rightarrow> byte list \<Rightarrow> time_t option \<Rightarrow> time_t option result" where
  "callbacks B [] random frozen = Inr frozen"
| "callbacks B ((l, h) # evs) random frozen =
     bind_res (openssl_time_callback B l h random frozen) (callbacks B evs random)"

section \<open>The child\<close>

text \<open>
  A connection: the info callbacks of the handshake in order and whether the handshake completes,
  the server's random bytes and certificate, the result of the chain verification as a function of
  the time it is made to assume, and the stream of application data.
\<close>

record 'b conn =
  handshake_events :: "(bool \<times> bool) list"
  handshake_ok :: bool
  conn_random :: "byte list"
  conn_certificate :: "certificate option"
  conn_verify :: "time_t option \<Rightarrow> int"
  conn_bio :: 'b

datatype file_kind = Regular | Directory | Special

record 'b tls_env =
  method_ok :: bool
  stat_ca :: "string \<Rightarrow> file_kind option"
  load_verify_ok :: bool
  bios_ok :: bool
  conn_settings_ok :: bool
  bio_do_connect :: "string \<Rightarrow> string \<Rightarrow> proxy_ctx option \<Rightarrow> 'b conn option"
  app_data :: "'b bio_ops"
  HTTPS_USER_AGENT :: string

text \<open>The globals that \<^verbatim>\<open>main\<close> fills from its arguments.\<close>

record helper_opts =
  h_target :: target
  hostname_to_verify :: string
  h_protocol :: string
  ca_cert_container :: string
  ca_racket :: bool

definition http_request :: "string \<Rightarrow> string \<Rightarrow> string" where
  "http_request agent hostname =
     ''HEAD / HTTP/1.1'' @ CRLF @ ''User-Agent: '' @ agent @ CRLF @ ''Host: '' @ hostname @ CRLF @ CRLF"

definition load_ca :: "'b tls_env \<Rightarrow> string \<Rightarrow> unit result" where
  "load_ca E container =
     (case stat_ca E container of
        None \<Rightarrow> Inl (Exit 1)
      | Some Regular \<Rightarrow> Inr ()
      | Some Directory \<Rightarrow> Inr ()
      | Some Special \<Rightarrow> (if load_verify_ok E then Inr () else Inl (Exit 1)))"

text \<open>The connect and SSL BIOs with the proxy between them: \<open>bios_ok\<close> says that they can be made.\<close>

definition make_ssl_bio :: "'b tls_env \<Rightarrow> target \<Rightarrow> (proxy_ctx option \<times> target) result" where
  "make_ssl_bio E t = (if \<not> bios_ok E then Inl (Exit 1) else setup_proxy t)"

text \<open>Asking for the date: the four bytes that replace those of the handshake.\<close>

definition fetch_http_date :: "'b tls_env \<Rightarrow> string \<Rightarrow> 'b \<Rightarrow> byte list result" where
  "fetch_http_date E hostname b =
     (let buf = http_request (HTTPS_USER_AGENT E) hostname
      in if length buf \<ge> 1024 then Inl (Exit 1)
         else let (w, b1) = write_all_to_bio (app_data E) (bytes_of buf) b
         in if w \<noteq> 1 then Inl (Exit 1)
            else bind_res (read_http_date_from_bio (app_data E) b1) (\<lambda>(r, t, b2).
              case t of
                Some result_time \<Rightarrow> if r \<noteq> 1 then Inl (Exit 1) else Inr (htonl_bytes result_time)
              | None \<Rightarrow> Inl (Exit 1)))"

definition run_ssl :: "build \<Rightarrow> 'b tls_env \<Rightarrow> helper_opts \<Rightarrow> bool \<Rightarrow> bool \<Rightarrow> byte list result" where
  "run_ssl B E o' time_is_an_illusion http =
     (if h_protocol o' \<notin> {''sslv23'', ''sslv3'', ''tlsv1''} then Inl (Exit 1)
      else if \<not> method_ok E then Inl (Exit 1)
      else bind_res (if ca_racket o' then load_ca E (ca_cert_container o') else Inr ()) (\<lambda>_.
           bind_res (make_ssl_bio E (h_target o')) (\<lambda>(proxy, t).
             if \<not> conn_settings_ok E then Inl (Exit 1)
             else (case bio_do_connect E (t_host t) (t_port t) proxy of
               None \<Rightarrow> Inl (Exit 1)
             | Some c \<Rightarrow>
                 bind_res (if time_is_an_illusion then callbacks B (handshake_events c) (conn_random c) None else Inr None) (\<lambda>frozen.
                   if \<not> handshake_ok c then Inl (Exit 1)
                   else
                     bind_res (if http then fetch_http_date E (hostname_to_verify o') (conn_bio c)
                               else Inr (take 4 (conn_random c))) (\<lambda>result_time.
                     let S = \<lparr>peer_certificate = conn_certificate c, verify_result = conn_verify c frozen, server_random = conn_random c\<rparr>
                     in bind_res (if ca_racket o' then inspect_key S (hostname_to_verify o') else Inr ()) (\<lambda>_.
                        bind_res (check_key_length S) (\<lambda>_. Inr result_time))))))))"

section \<open>The parent\<close>

definition TLS_RTT_UNREASONABLE :: int where [limit_defs]: "TLS_RTT_UNREASONABLE = 30000"

text \<open>
  What the system calls of \<^verbatim>\<open>main\<close> return. The clock is read at the start, again after a time warp,
  and after the child has ended. \<open>child_reaped\<close>: the child runs to its end and is reaped by the
  wait; a child that dies by a signal never counts as a success.
\<close>

record helper_env =
  privs :: priv_env
  creds0 :: creds
  mmap_ok :: bool
  clk_start :: "tlsdate_time option"
  warp_ok :: bool
  clk_warped :: "tlsdate_time option"
  h_fork_ok :: bool
  child_reaped :: bool
  clk_end :: "tlsdate_time option"
  strftime_ok :: bool
  clk_set_ok :: bool

text \<open>What the program does: the times it tries to set the clock to, and what it prints.\<close>

record helper_out =
  clock_sets :: "tlsdate_time list"
  raw_out :: "uint32 list"
  human_out :: "time_t list"

definition no_out :: helper_out where
  "no_out = \<lparr>clock_sets = [], raw_out = [], human_out = []\<rparr>"

definition round_trip_ms :: "tlsdate_time \<Rightarrow> tlsdate_time \<Rightarrow> int" where
  "round_trip_ms start_time end_time =
     (let rt = (tv_sec end_time - tv_sec start_time) * 1000 + c_div (CLOCK_USEC end_time - CLOCK_USEC start_time) 1000
      in if rt < 0 then 0 else rt)"

text \<open>The bytes that \<^verbatim>\<open>fwrite\<close> puts on the standard output for one raw time, in host byte order.\<close>

definition raw_bytes :: "uint32 \<Rightarrow> byte list" where
  "raw_bytes w = map (\<lambda>i. word_of_int (uint w div 256 ^ i)) [0..<4]"

text \<open>The part of \<^verbatim>\<open>main\<close> that sets the clock: the exit status and what has been done.\<close>

definition set_clock :: "build \<Rightarrow> helper_env \<Rightarrow> uint32 \<Rightarrow> int \<Rightarrow> helper_out \<Rightarrow> int \<times> helper_out" where
  "set_clock B E server_time_s rt_time_ms out =
     (let server_time = clock_init_time (uint server_time_s + c_div (c_div rt_time_ms 2) 1000) (c_mod (c_div rt_time_ms 2) 1000)
      in if tv_sec server_time \<ge> MAX_REASONABLE_TIME then (1, out)
         else if tv_sec server_time \<le> RECENT_COMPILE_DATE B then (1, out)
         else (if clk_set_ok E then 0 else 1, out\<lparr>clock_sets := clock_sets out @ [server_time]\<rparr>))"

text \<open>From the end of the child on, with the time read from the shared memory.\<close>

definition finish :: "build \<Rightarrow> helper_env \<Rightarrow> string list \<Rightarrow> tlsdate_time \<Rightarrow> uint32 \<Rightarrow> helper_out \<Rightarrow> int \<times> helper_out" where
  "finish B E argv start_time server_time_s out =
     (case clk_end E of
        None \<Rightarrow> (1, out)
      | Some end_time \<Rightarrow>
          (let rt_time_ms = round_trip_ms start_time end_time
           in if server_time_s = 0 then (1, out)
              else if rt_time_ms > TLS_RTT_UNREASONABLE then (1, out)
              else
                let out1 = (if argv ! 8 = ''showtime=raw'' then out\<lparr>raw_out := raw_out out @ [server_time_s]\<rparr> else out)
                in if argv ! 8 = ''showtime'' \<and> \<not> strftime_ok E then (1, out1)
                   else
                     let out2 = (if argv ! 8 = ''showtime'' then out1\<lparr>human_out := human_out out1 @ [uint server_time_s]\<rparr> else out1)
                     in if argv ! 7 = ''setclock'' then set_clock B E server_time_s rt_time_ms out2
                        else (0, out2)))"

definition helper_opts_of :: "string list \<Rightarrow> helper_opts" where
  "helper_opts_of argv =
     \<lparr>h_target = \<lparr>t_host = argv ! 1, t_port = argv ! 2, t_proxy = (if argv ! 11 = ''none'' then None else Some (argv ! 11))\<rparr>,
      hostname_to_verify = argv ! 1, h_protocol = argv ! 3, ca_cert_container = argv ! 6,
      ca_racket = (argv ! 4 \<noteq> ''unchecked'')\<rparr>"

text \<open>The child: it drops its privileges and runs the exchange, whose result the parent sees in
  shared memory; every other way to end is a failure for the parent.\<close>

definition ssl_child :: "build \<Rightarrow> 'b tls_env \<Rightarrow> helper_env \<Rightarrow> creds \<Rightarrow> string list \<Rightarrow> byte list result" where
  "ssl_child B T E c argv =
     bind_res (drop_privs_to (privs E) (UNPRIV_USER B) (UNPRIV_GROUP B) c) (\<lambda>_.
       run_ssl B T (helper_opts_of argv) (argv ! 10 = ''leapaway'') (argv ! 12 = ''http''))"

text \<open>
  The parent, for either TLS library: \<open>child_time\<close> is what it reads from the shared memory after a
  child with the given credentials has ended well.
\<close>

definition after_warp :: "build \<Rightarrow> uint32 result \<Rightarrow> helper_env \<Rightarrow> string list \<Rightarrow> tlsdate_time \<Rightarrow> helper_out \<Rightarrow> int \<times> helper_out" where
  "after_warp B child_time E argv start_time out =
     (if \<not> h_fork_ok E then (1, out)
      else (case child_time of
              Inl _ \<Rightarrow> (1, out)
            | Inr server_time_s \<Rightarrow>
                if \<not> child_reaped E then (1, out) else finish B E argv start_time server_time_s out))"

text \<open>Times are compared as \<^verbatim>\<open>unsigned long\<close>.\<close>

definition parent_main :: "build \<Rightarrow> (creds \<Rightarrow> uint32 result) \<Rightarrow> helper_env \<Rightarrow> string list \<Rightarrow> int \<times> helper_out" where
  "parent_main B child_time E argv =
     (if length argv \<noteq> 13 then (1, no_out)
      else
        let setclock = (argv ! 7 = ''setclock''); timewarp = (argv ! 9 = ''timewarp'');
            warp_time = clock_init_time (RECENT_COMPILE_DATE B) 0
        in (case (if \<not> setclock \<and> \<not> timewarp then drop_privs_to (privs E) (UNPRIV_USER B) (UNPRIV_GROUP B) (creds0 E) else Inr (creds0 E)) of
              Inl _ \<Rightarrow> (1, no_out)
            | Inr c \<Rightarrow>
                (if \<not> mmap_ok E then (1, no_out)
                 else (case clk_start E of
                   None \<Rightarrow> (1, no_out)
                 | Some start_time \<Rightarrow>
                     if (word_of_int (tv_sec start_time) :: 64 word) < word_of_int (tv_sec warp_time) \<and> timewarp then
                       (let out = no_out\<lparr>clock_sets := [warp_time]\<rparr>
                        in if \<not> warp_ok E then (1, out)
                           else (case clk_warped E of
                                   None \<Rightarrow> (1, out)
                                 | Some start_time' \<Rightarrow> after_warp B (child_time c) E argv start_time' out))
                     else after_warp B (child_time c) E argv start_time no_out))))"

text \<open>The OpenSSL build stores the time in network byte order.\<close>

definition helper_main :: "build \<Rightarrow> 'b tls_env \<Rightarrow> helper_env \<Rightarrow> string list \<Rightarrow> int \<times> helper_out" where
  "helper_main B T E argv = parent_main B (\<lambda>c. bind_res (ssl_child B T E c argv) (\<lambda>time_map. Inr (ntohl_bytes time_map))) E argv"

section \<open>Facts\<close>

lemma ntohl_htonl [simp]: "ntohl_bytes (htonl_bytes w) = w"
proof -
  define n where "n = unat w"
  have n: "n < 256 ^ 4" using unsigned_less [of w] by (simp add: n_def)
  have "unat (word_of_nat k :: byte) = k mod 256" for k by (simp add: unat_of_nat)
  moreover have "unat (ucast w :: byte) = n mod 256" by (simp add: n_def unsigned_ucast_eq take_bit_eq_mod)
  ultimately have "foldl (\<lambda>acc b. 256 * acc + unat b) 0 (take 4 (htonl_bytes w)) =
      256 * (256 * (256 * (n div 256 ^ 3 mod 256) + n div 256 ^ 2 mod 256) + n div 256 mod 256) + n mod 256"
    by (simp add: htonl_bytes_def n_def)
  also have "\<dots> = n"
  proof -
    have "n div 256 ^ 3 mod 256 = n div 256 ^ 3" using n by simp
    moreover have "256 * (n div 256 ^ 3) + n div 256 ^ 2 mod 256 = n div 256 ^ 2"
      using mult_div_mod_eq [of 256 "n div 256 ^ 2"] by (simp add: div_mult2_eq [symmetric])
    moreover have "256 * (n div 256 ^ 2) + n div 256 mod 256 = n div 256"
      using mult_div_mod_eq [of 256 "n div 256"] by (simp add: div_mult2_eq [symmetric])
    ultimately show ?thesis by (simp add: mult_div_mod_eq)
  qed
  finally show ?thesis by (simp add: ntohl_bytes_def n_def)
qed

lemma round_trip_nonneg: "0 \<le> round_trip_ms s e"
  by (simp add: round_trip_ms_def Let_def)

lemma set_clock_cases:
  obtains "set_clock B E w rt out = (1, out)"
  | t where "set_clock B E w rt out = (if clk_set_ok E then 0 else 1, out\<lparr>clock_sets := clock_sets out @ [t]\<rparr>)"
      "t = clock_init_time (uint w + c_div (c_div rt 2) 1000) (c_mod (c_div rt 2) 1000)"
      "RECENT_COMPILE_DATE B < tv_sec t" "tv_sec t < MAX_REASONABLE_TIME"
proof -
  define t where "t = clock_init_time (uint w + c_div (c_div rt 2) 1000) (c_mod (c_div rt 2) 1000)"
  have "set_clock B E w rt out =
      (if tv_sec t \<ge> MAX_REASONABLE_TIME then (1, out) else if tv_sec t \<le> RECENT_COMPILE_DATE B then (1, out)
       else (if clk_set_ok E then 0 else 1, out\<lparr>clock_sets := clock_sets out @ [t]\<rparr>))"
    by (simp only: set_clock_def Let_def t_def)
  then show ?thesis
    using that t_def by (cases "tv_sec t \<ge> MAX_REASONABLE_TIME \<or> tv_sec t \<le> RECENT_COMPILE_DATE B") (auto simp: not_le)
qed

text \<open>The correction for the round trip: at most fifteen seconds, and less than a microsecond.\<close>

lemma half_round_trip:
  assumes "0 \<le> rt" and "rt \<le> TLS_RTT_UNREASONABLE"
  shows "0 \<le> c_div (c_div rt 2) 1000 \<and> c_div (c_div rt 2) 1000 \<le> 15" "0 \<le> c_mod (c_div rt 2) 1000 \<and> c_mod (c_div rt 2) 1000 < 1000"
proof -
  have h: "c_div rt 2 = rt div 2" "0 \<le> rt div 2" "rt div 2 \<le> 15000"
    using assms by (auto simp: c_div_nonneg limit_defs)
  have "0 \<le> d div 1000 \<and> d div 1000 \<le> 15" if "0 \<le> d" "d \<le> 15000" for d :: int
    using that zdiv_mono1 [OF that(2), of 1000] by (simp add: pos_imp_zdiv_nonneg_iff)
  with h show "0 \<le> c_div (c_div rt 2) 1000 \<and> c_div (c_div rt 2) 1000 \<le> 15" by (simp add: c_div_nonneg)
  show "0 \<le> c_mod (c_div rt 2) 1000 \<and> c_mod (c_div rt 2) 1000 < 1000" using h by (simp add: c_mod_nonneg)
qed

text \<open>A time that the clock was set to from the network: its source and its bounds.\<close>

definition network_set :: "build \<Rightarrow> uint32 \<Rightarrow> tlsdate_time \<Rightarrow> bool" where
  "network_set B server_time_s t \<longleftrightarrow>
     RECENT_COMPILE_DATE B < tv_sec t \<and> tv_sec t < MAX_REASONABLE_TIME \<and> server_time_s \<noteq> 0 \<and>
     uint server_time_s \<le> tv_sec t \<and> tv_sec t \<le> uint server_time_s + 15 \<and>
     0 \<le> tv_nsec t \<and> tv_nsec t < 1000"

lemma finish_sets:
  assumes "finish B E argv st w out = (status, out')"
  shows "clock_sets out' = clock_sets out \<or>
     argv ! 7 = ''setclock'' \<and> (\<exists>t. clock_sets out' = clock_sets out @ [t] \<and> network_set B w t)"
proof (cases "clk_end E")
  case None
  then show ?thesis using assms by (simp add: finish_def)
next
  case (Some e)
  define rt where "rt = round_trip_ms st e"
  define out2 where "out2 = (let out1 = (if argv ! 8 = ''showtime=raw'' then out\<lparr>raw_out := raw_out out @ [w]\<rparr> else out)
     in if argv ! 8 = ''showtime'' then out1\<lparr>human_out := human_out out1 @ [uint w]\<rparr> else out1)"
  have sets: "clock_sets out2 = clock_sets out" by (simp add: out2_def Let_def)
  consider "clock_sets out' = clock_sets out"
    | "argv ! 7 = ''setclock''" "w \<noteq> 0" "rt \<le> TLS_RTT_UNREASONABLE"
      "set_clock B E w rt out2 = (status, out')"
    using assms Some sets by (fastforce simp: finish_def rt_def out2_def Let_def split: if_splits)
  then show ?thesis
  proof cases
    case 1
    then show ?thesis by simp
  next
    case 2
    show ?thesis
    proof (rule set_clock_cases [of B E "w" rt out2])
      assume "set_clock B E w rt out2 = (1, out2)"
      then show ?thesis using 2(4) sets by simp
    next
      fix t
      assume s: "set_clock B E w rt out2 = (if clk_set_ok E then 0 else 1, out2\<lparr>clock_sets := clock_sets out2 @ [t]\<rparr>)"
        "t = clock_init_time (uint w + c_div (c_div rt 2) 1000) (c_mod (c_div rt 2) 1000)"
        "RECENT_COMPILE_DATE B < tv_sec t" "tv_sec t < MAX_REASONABLE_TIME"
      have "0 \<le> rt" by (simp add: rt_def round_trip_nonneg)
      note h = half_round_trip [OF this 2(3)]
      have "network_set B w t" using s(2-4) h 2(2) by (simp add: network_set_def clock_init_time_def)
      moreover have "clock_sets out' = clock_sets out @ [t]" using s(1) 2(4) sets by auto
      ultimately show ?thesis using 2(1) by blast
    qed
  qed
qed

lemma after_warp_sets:
  assumes "after_warp B child_time E argv st out = (status, out')"
  shows "clock_sets out' = clock_sets out \<or>
     argv ! 7 = ''setclock'' \<and> (\<exists>w t. child_time = Inr w \<and> clock_sets out' = clock_sets out @ [t] \<and> network_set B w t)"
  using assms finish_sets [of B E argv st _ out status out']
  by (auto simp: after_warp_def split: if_splits sum.splits)

lemma parent_main_sets:
  assumes "parent_main B child_time E argv = (status, out)"
  obtains "clock_sets out = []"
  | "argv ! 9 = ''timewarp''" "clock_sets out = [clock_init_time (RECENT_COMPILE_DATE B) 0]"
  | c st pre where "after_warp B (child_time c) E argv st pre = (status, out)" "clock_sets pre = []"
  | c st pre where "after_warp B (child_time c) E argv st pre = (status, out)" "argv ! 9 = ''timewarp''"
      "clock_sets pre = [clock_init_time (RECENT_COMPILE_DATE B) 0]"
proof -
  have no: "clock_sets no_out = []" by (simp add: no_out_def)
  show ?thesis
  proof (cases "length argv = 13 \<and> mmap_ok E")
    case False
    then have "out = no_out" using assms by (auto simp: parent_main_def Let_def split: sum.splits if_splits)
    then show ?thesis using that(1) no by simp
  next
    case True
    let ?D = "if argv ! 7 \<noteq> ''setclock'' \<and> argv ! 9 \<noteq> ''timewarp''
      then drop_privs_to (privs E) (UNPRIV_USER B) (UNPRIV_GROUP B) (creds0 E) else Inr (creds0 E)"
    consider "out = no_out" | c st where "?D = Inr c" "clk_start E = Some st"
      using assms True by (cases ?D; cases "clk_start E") (simp_all add: parent_main_def Let_def)
    then show ?thesis
    proof cases
      case 1
      then show ?thesis using that(1) no by simp
    next
      case (2 c st)
      define warp where "warp \<longleftrightarrow> (word_of_int (tv_sec st) :: 64 word) < word_of_int (RECENT_COMPILE_DATE B) \<and> argv ! 9 = ''timewarp''"
      define out1 where "out1 = no_out\<lparr>clock_sets := [clock_init_time (RECENT_COMPILE_DATE B) 0]\<rparr>"
      have main: "(status, out) = (if warp then
            (if \<not> warp_ok E then (1, out1)
             else case clk_warped E of None \<Rightarrow> (1, out1) | Some st' \<Rightarrow> after_warp B (child_time c) E argv st' out1)
          else after_warp B (child_time c) E argv st no_out)"
        using 2 True unfolding assms [symmetric] parent_main_def Let_def warp_def out1_def
        by (simp add: clock_init_time_def cong: if_cong)
      have o1: "clock_sets out1 = [clock_init_time (RECENT_COMPILE_DATE B) 0]" by (simp add: out1_def)
      show ?thesis
      proof (cases warp)
        case False
        then show ?thesis using main that(3) [of c st no_out] no by simp
      next
        case w: True
        then have tw: "argv ! 9 = ''timewarp''" by (simp add: warp_def)
        show ?thesis
          using main w tw o1 that(2) that(4) [of c _ out1] by (auto split: if_splits option.splits)
      qed
    qed
  qed
qed

lemma parent_sets_reasonable_times:
  assumes "parent_main B child_time E argv = (status, out)"
  shows "\<exists>warp net. clock_sets out = warp @ net \<and>
     (warp = [] \<or> argv ! 9 = ''timewarp'' \<and> warp = [clock_init_time (RECENT_COMPILE_DATE B) 0]) \<and>
     (net = [] \<or> argv ! 7 = ''setclock'' \<and> (\<exists>c w t. child_time c = Inr w \<and> net = [t] \<and> network_set B w t))"
  using assms
proof (cases rule: parent_main_sets)
  case 1
  then show ?thesis by simp
next
  case 2
  then show ?thesis by auto
next
  case (3 c st pre)
  with after_warp_sets [OF 3(1)] show ?thesis by (metis append_Nil)
next
  case (4 c st pre)
  with after_warp_sets [OF 4(1)] show ?thesis by (metis append_Nil2)
qed

lemma run_ssl_Inr:
  assumes "run_ssl B T opts illusion http = Inr tm"
  obtains proxy t cn frozen where "setup_proxy (h_target opts) = Inr (proxy, t)"
    "bio_do_connect T (t_host t) (t_port t) proxy = Some cn" "handshake_ok cn"
    "(if illusion then callbacks B (handshake_events cn) (conn_random cn) None else Inr None) = Inr frozen"
    "(if http then fetch_http_date T (hostname_to_verify opts) (conn_bio cn) else Inr (take 4 (conn_random cn))) = Inr tm"
    "ca_racket opts \<Longrightarrow> inspect_key \<lparr>peer_certificate = conn_certificate cn, verify_result = conn_verify cn frozen,
        server_random = conn_random cn\<rparr> (hostname_to_verify opts) = Inr ()"
    "check_key_length \<lparr>peer_certificate = conn_certificate cn, verify_result = conn_verify cn frozen,
        server_random = conn_random cn\<rparr> = Inr ()"
  using assms unfolding run_ssl_def make_ssl_bio_def Let_def
  by (fastforce split: if_splits option.splits)

text \<open>The verification time is only ever moved to a day after a plausible time of the server.\<close>

lemma uint_gate:
  assumes "0 \<le> RECENT_COMPILE_DATE B" and "RECENT_COMPILE_DATE B < 2 ^ 32"
  shows "(word_of_int (RECENT_COMPILE_DATE B) :: uint32) < w \<and> w < word_of_int MAX_REASONABLE_TIME \<longleftrightarrow>
    RECENT_COMPILE_DATE B < uint w \<and> uint w < MAX_REASONABLE_TIME"
  using assms by (simp add: word_less_def uint_word_of_int limit_defs)

lemma callbacks_gate:
  assumes "0 \<le> RECENT_COMPILE_DATE B" and "RECENT_COMPILE_DATE B < 2 ^ 32"
    and "callbacks B evs random fr = Inr frozen"
  shows "frozen = fr \<or> (RECENT_COMPILE_DATE B < uint (ntohl_bytes random) \<and> uint (ntohl_bytes random) < MAX_REASONABLE_TIME \<and>
    frozen = Some (uint (ntohl_bytes random) + 86400))"
  using assms(3)
proof (induction evs arbitrary: fr)
  case Nil
  then show ?case by simp
next
  case (Cons e evs)
  obtain l h where e: "e = (l, h)" by (cases e)
  then obtain fr' where "openssl_time_callback B l h random fr = Inr fr'" "callbacks B evs random fr' = Inr frozen"
    using Cons.prems by auto
  then show ?case
    using Cons.IH [of fr'] uint_gate [OF assms(1,2), of "ntohl_bytes random"]
    by (auto simp: openssl_time_callback_def Let_def split: if_splits)
qed

text \<open>The exchange over a connection: the request goes out whole and the answer is read however it arrives.\<close>

lemma fetch_http_date_answer:
  assumes "chunked_bio (app_data T) sent pending" and "length (http_request (HTTPS_USER_AGENT T) hostname) < 1024"
    and "http_answer_date (map char_at (pending b)) = (1, Some w)"
  shows "fetch_http_date T hostname b = Inr (htonl_bytes w)"
proof -
  obtain b1 where b1: "write_all_to_bio (app_data T) (bytes_of (http_request (HTTPS_USER_AGENT T) hostname)) b = (1, b1)" "pending b1 = pending b"
    using chunked_bio.write_all_chunks [OF assms(1), of "bytes_of (http_request (HTTPS_USER_AGENT T) hostname)" b] by blast
  obtain b2 where "read_http_date_from_bio (app_data T) b1 = Inr (1, Some w, b2)"
    using chunked_bio.read_http_date_chunks [OF assms(1), of b1] b1(2) assms(3) by auto
  with b1(1) assms(2) show ?thesis by (simp add: fetch_http_date_def Let_def)
qed

text \<open>Every system and library call succeeds.\<close>

definition calls_succeed :: "'b tls_env \<Rightarrow> helper_env \<Rightarrow> bool" where
  "calls_succeed T E \<longleftrightarrow> method_ok T \<and> load_verify_ok T \<and> bios_ok T \<and> conn_settings_ok T \<and>
     mmap_ok E \<and> h_fork_ok E \<and> child_reaped E \<and> strftime_ok E \<and> clk_set_ok E"

definition conn_ssl :: "'b conn \<Rightarrow> ssl" where
  "conn_ssl cn = \<lparr>peer_certificate = conn_certificate cn, verify_result = conn_verify cn None, server_random = conn_random cn\<rparr>"

definition http_argv :: "string \<Rightarrow> string \<Rightarrow> string \<Rightarrow> string \<Rightarrow> string list" where
  "http_argv host port ca st_arg =
     [''tlsdate-helper'', host, port, ''tlsv1'', ''racket'', ''quiet'', ca, ''setclock'', st_arg, ''no-fun'', ''holdfast'', ''none'', ''http'']"

lemma http_argv_nth [simp]:
  "length (http_argv host port ca st_arg) = 13" "http_argv host port ca st_arg ! Suc 0 = host" "http_argv host port ca st_arg ! 2 = port"
  "http_argv host port ca st_arg ! 3 = ''tlsv1''" "http_argv host port ca st_arg ! 4 = ''racket''" "http_argv host port ca st_arg ! 6 = ca"
  "http_argv host port ca st_arg ! 7 = ''setclock''" "http_argv host port ca st_arg ! 9 = ''no-fun''" "http_argv host port ca st_arg ! 10 = ''holdfast''"
  "http_argv host port ca st_arg ! 11 = ''none''" "http_argv host port ca st_arg ! 12 = ''http''"
  by (simp_all add: http_argv_def)

lemma ssl_child_http:
  assumes "calls_succeed T E" and "drop_privs_to (privs E) (UNPRIV_USER B) (UNPRIV_GROUP B) cr = Inr cr'"
    and "stat_ca T ca \<noteq> None" and "bio_do_connect T host port None = Some cn" and "handshake_ok cn"
    and "fetch_http_date T host (conn_bio cn) = Inr tm"
    and "inspect_key (conn_ssl cn) host = Inr ()" and "check_key_length (conn_ssl cn) = Inr ()"
  shows "ssl_child B T E cr (http_argv host port ca st_arg) = Inr tm"
proof -
  have "load_ca T ca = Inr ()"
    using assms(1,3) by (auto simp: load_ca_def calls_succeed_def split: file_kind.splits)
  then show ?thesis
    using assms by (simp add: ssl_child_def run_ssl_def helper_opts_of_def make_ssl_bio_def setup_proxy_def
        calls_succeed_def conn_ssl_def Let_def)
qed

lemma finish_sets_clock:
  assumes "calls_succeed T E" and "clk_end E = Some e" and "argv ! 7 = ''setclock''"
    and "w \<noteq> 0" and "round_trip_ms st e = rt" "rt \<le> TLS_RTT_UNREASONABLE"
    and "RECENT_COMPILE_DATE B < uint w" "uint w + 15 < MAX_REASONABLE_TIME"
  shows "\<exists>out'. finish B E argv st w out = (0, out') \<and>
    clock_sets out' = clock_sets out @ [clock_init_time (uint w + c_div (c_div rt 2) 1000) (c_mod (c_div rt 2) 1000)]"
proof -
  have "0 \<le> rt" using assms(5) round_trip_nonneg [of st e] by simp
  note h = half_round_trip [OF this assms(6)]
  have "set_clock B E w rt o' = (0, o'\<lparr>clock_sets := clock_sets o' @
      [clock_init_time (uint w + c_div (c_div rt 2) 1000) (c_mod (c_div rt 2) 1000)]\<rparr>)" for o'
    using h assms(1,7,8) by (simp add: set_clock_def Let_def clock_init_time_def calls_succeed_def)
  then show ?thesis
    using assms by (simp add: finish_def Let_def calls_succeed_def)
qed

section \<open>A sample run\<close>

definition sample_conn :: "test_ctx conn" where
  "sample_conn = \<lparr>handshake_events = [(True, True)], handshake_ok = True, conn_random = htonl_bytes 3487777,
     conn_certificate = Some sample_certificate, conn_verify = (\<lambda>_. 0), conn_bio = \<lparr>t_out = [], t_in = bytes_of sample_answer\<rparr>\<rparr>"

definition sample_tls :: "test_ctx tls_env" where
  "sample_tls = \<lparr>method_ok = True, stat_ca = (\<lambda>_. Some Directory), load_verify_ok = True, bios_ok = True, conn_settings_ok = True,
     bio_do_connect = (\<lambda>_ _ _. Some sample_conn), app_data = test_methods, HTTPS_USER_AGENT = ''TLSDate/0.0.13''\<rparr>"

definition sample_helper_env :: helper_env where
  "sample_helper_env = \<lparr>privs = \<lparr>getpwnam = (\<lambda>_. Some \<lparr>pw_uid = 99, pw_gid = 98\<rparr>), getgrnam = (\<lambda>_. Some 98),
       initgroups_ok = True, setresgid_ok = True, setresuid_ok = True\<rparr>,
     creds0 = \<lparr>c_uid = 0, c_gid = 0, c_groups = None\<rparr>, mmap_ok = True, clk_start = Some \<lparr>tv_sec = 1500, tv_nsec = 0\<rparr>,
     warp_ok = True, clk_warped = None, h_fork_ok = True, child_reaped = True, clk_end = Some \<lparr>tv_sec = 1502, tv_nsec = 0\<rparr>,
     strftime_ok = True, clk_set_ok = True\<rparr>"

text \<open>A program built early in 1970, so that the date of the sample answer is plausible.\<close>

definition early_build :: build where
  "early_build = sample_build\<lparr>RECENT_COMPILE_DATE := 1000000\<rparr>"

lemma sample_calls: "calls_succeed sample_tls sample_helper_env"
  by (simp add: calls_succeed_def sample_tls_def sample_helper_env_def)

lemma sample_drop:
  "drop_privs_to (privs sample_helper_env) (UNPRIV_USER early_build) (UNPRIV_GROUP early_build) (creds0 sample_helper_env) =
     Inr \<lparr>c_uid = 99, c_gid = 98, c_groups = Some (UNPRIV_USER early_build, 98)\<rparr>"
  by (simp add: drop_privs_to_def sample_helper_env_def)

lemma sample_checks:
  "inspect_key (conn_ssl sample_conn) ''www.example.org'' = Inr ()" "check_key_length (conn_ssl sample_conn) = Inr ()"
proof -
  have "inspect_key sample_ssl ''www.example.org'' = Inr ()" "check_key_length sample_ssl = Inr ()" by code_simp+
  then show "inspect_key (conn_ssl sample_conn) ''www.example.org'' = Inr ()" "check_key_length (conn_ssl sample_conn) = Inr ()"
    by (simp_all add: inspect_key_def verify_signature_def check_name_def check_cn_def check_san_def check_key_length_def
        conn_ssl_def sample_conn_def sample_ssl_def)
qed

lemma sample_request: "length (http_request (HTTPS_USER_AGENT sample_tls) ''www.example.org'') < 1024"
  by (simp add: http_request_def sample_tls_def CRLF_def)

lemma sample_chunked: "chunked_bio (app_data sample_tls) t_out t_in"
  using test_bio.chunked_bio_axioms by (simp add: sample_tls_def)

lemma sample_child:
  "ssl_child early_build sample_tls sample_helper_env (creds0 sample_helper_env) (http_argv ''www.example.org'' ''443'' ''/ca'' ''no'') =
     Inr (htonl_bytes 3487777)"
proof -
  have "http_answer_date (map char_at (t_in (conn_bio sample_conn))) = (1, Some 3487777)"
    using sample_answer_date by (simp add: sample_conn_def)
  note fetch = fetch_http_date_answer [OF sample_chunked sample_request this]
  show ?thesis
    by (rule ssl_child_http [OF sample_calls sample_drop _ _ _ fetch sample_checks]) (simp_all add: sample_tls_def sample_conn_def)
qed

section \<open>Properties\<close>

text \<open>
  C8. The helper sets the clock only in two ways: to the build date, when it was told to warp time,
  and once, when it was told to set the clock, to the time its child brought from the server plus
  at most fifteen seconds for the round trip; that time lies strictly between the build date and
  the latest reasonable time. The nanoseconds it sets are always fewer than a thousand.
\<close>

theorem helper_sets_reasonable_times:
  assumes "helper_main B T E argv = (status, out)"
  shows "\<exists>warp net. clock_sets out = warp @ net \<and>
     (warp = [] \<or> argv ! 9 = ''timewarp'' \<and> warp = [clock_init_time (RECENT_COMPILE_DATE B) 0]) \<and>
     (net = [] \<or> argv ! 7 = ''setclock'' \<and>
        (\<exists>c tm t. ssl_child B T E c argv = Inr tm \<and> net = [t] \<and> network_set B (ntohl_bytes tm) t))"
proof -
  have "(\<exists>c w t. bind_res (ssl_child B T E c argv) (\<lambda>time_map. Inr (ntohl_bytes time_map)) = Inr w \<and> net = [t] \<and> network_set B w t) \<longleftrightarrow>
      (\<exists>c tm t. ssl_child B T E c argv = Inr tm \<and> net = [t] \<and> network_set B (ntohl_bytes tm) t)" for net
    by auto
  then show ?thesis
    using parent_sets_reasonable_times [OF assms [unfolded helper_main_def]] by (simp only:)
qed

theorem helper_sets_reasonable_times_witness:
  "\<exists>warp net. clock_sets (snd (helper_main early_build sample_tls sample_helper_env
        (http_argv ''www.example.org'' ''443'' ''/ca'' ''no''))) = warp @ net \<and> warp = [] \<and>
     (net = [] \<or> (\<exists>c tm t. ssl_child early_build sample_tls sample_helper_env c
        (http_argv ''www.example.org'' ''443'' ''/ca'' ''no'') = Inr tm \<and> net = [t] \<and> network_set early_build (ntohl_bytes tm) t))"
  using helper_sets_reasonable_times [OF surjective_pairing, of early_build sample_tls sample_helper_env
      "http_argv ''www.example.org'' ''443'' ''/ca'' ''no''"]
  by auto

text \<open>
  C9. A time from the network is authenticated: unless verification was switched off, a child that
  succeeds has connected to the host (or to the proxy, whose address never replaces the name to
  verify), has completed the handshake, and the certificate passed both checks for the name on
  the command line, with the chain verified at the current time or, under \<^verbatim>\<open>leapaway\<close>, at a day
  after a plausible time of the server.
\<close>

theorem child_time_authenticated:
  assumes "ssl_child B T E c argv = Inr tm" and "argv ! 4 \<noteq> ''unchecked''"
    and "0 \<le> RECENT_COMPILE_DATE B" and "RECENT_COMPILE_DATE B < 2 ^ 32"
  shows "\<exists>proxy t cn frozen S. setup_proxy (h_target (helper_opts_of argv)) = Inr (proxy, t) \<and>
     bio_do_connect T (t_host t) (t_port t) proxy = Some cn \<and> handshake_ok cn \<and>
     S = \<lparr>peer_certificate = conn_certificate cn, verify_result = conn_verify cn frozen, server_random = conn_random cn\<rparr> \<and>
     inspect_key S (argv ! 1) = Inr () \<and> check_key_length S = Inr () \<and>
     (frozen = None \<or> argv ! 10 = ''leapaway'' \<and> RECENT_COMPILE_DATE B < uint (ntohl_bytes (conn_random cn)) \<and>
        uint (ntohl_bytes (conn_random cn)) < MAX_REASONABLE_TIME \<and> frozen = Some (uint (ntohl_bytes (conn_random cn)) + 86400)) \<and>
     (argv ! 12 \<noteq> ''http'' \<longrightarrow> tm = take 4 (conn_random cn))"
proof -
  have "run_ssl B T (helper_opts_of argv) (argv ! 10 = ''leapaway'') (argv ! 12 = ''http'') = Inr tm"
    using assms(1) by (auto simp: ssl_child_def)
  then show ?thesis
  proof (cases rule: run_ssl_Inr)
    case (1 proxy t cn frozen)
    have "frozen = None \<or> argv ! 10 = ''leapaway'' \<and> RECENT_COMPILE_DATE B < uint (ntohl_bytes (conn_random cn)) \<and>
        uint (ntohl_bytes (conn_random cn)) < MAX_REASONABLE_TIME \<and> frozen = Some (uint (ntohl_bytes (conn_random cn)) + 86400)"
      using 1(4) callbacks_gate [OF assms(3,4), of "handshake_events cn" "conn_random cn" None frozen]
      by (simp split: if_splits)
    moreover have "ca_racket (helper_opts_of argv)" "hostname_to_verify (helper_opts_of argv) = argv ! 1"
      using assms(2) by (simp_all add: helper_opts_of_def)
    ultimately show ?thesis using 1 by (simp split: if_splits) blast+
  qed
qed


theorem child_time_authenticated_witness:
  "\<exists>cn frozen S. bio_do_connect sample_tls ''www.example.org'' ''443'' None = Some cn \<and>
     S = \<lparr>peer_certificate = conn_certificate cn, verify_result = conn_verify cn frozen, server_random = conn_random cn\<rparr> \<and>
     inspect_key S ''www.example.org'' = Inr () \<and> check_key_length S = Inr () \<and> frozen = None"
  using child_time_authenticated [OF sample_child]
  by (auto simp: early_build_def helper_opts_of_def setup_proxy_def)

text \<open>
  C7. The whole way of a date: if the server, connected without a proxy over a connection that cuts its
  answer into pieces of any size, sends as its first date header a date of the Gregorian calendar in
  the preferred format, that of RFC 1123, within the size of the buffer for the answer, its certificate
  passes the checks and all calls succeed within a reasonable round trip, the request fits its
  buffer and the date lies after the build date and fifteen seconds before the latest reasonable
  time, then the helper exits with status 0 after setting the clock, once.
  The seconds it sets are those of the date plus the whole seconds of half the round trip; what half
  the round trip has beyond whole seconds is a number of milliseconds that goes into the field for
  nanoseconds, so that up to 999 milliseconds of the correction are lost.
\<close>

theorem helper_sets_http_time:
  assumes "chunked_bio (app_data T) sent pending" and "calls_succeed T E"
    and "drop_privs_to (privs E) (UNPRIV_USER B) (UNPRIV_GROUP B) (creds0 E) = Inr cr"
    and "stat_ca T ca \<noteq> None" and "bio_do_connect T host port None = Some cn" and "handshake_ok cn"
    and "inspect_key (conn_ssl cn) host = Inr ()" and "check_key_length (conn_ssl cn) = Inr ()"
    and "length (http_request (HTTPS_USER_AGENT T) host) < 1024"
    and "map char_at (pending (conn_bio cn)) =
           head @ DATE_MARK @ print_1123 wd y mon d h mi s @ [CHR 0x0D, CHR 0x0A] @ rest"
    and "first_at_end head DATE_MARK" and "length head < MAX_HTTP_HEADERS_SIZE - 42"
    and "wd \<noteq> []" "\<forall>c \<in> set wd. letter c" and "length (print_1123 wd y mon d h mi s) \<le> 32"
    and "calendar_day n = (int y, mon, int d)" and "h < 24" "mi < 60" "s \<le> 60"
    and "t = 86400 * n + 3600 * h + 60 * mi + s"
    and "0 \<le> RECENT_COMPILE_DATE B" "RECENT_COMPILE_DATE B < int t" "int t + 15 < MAX_REASONABLE_TIME"
    and "clk_start E = Some st" "clk_end E = Some e" and "round_trip_ms st e = rt" "rt \<le> TLS_RTT_UNREASONABLE"
  shows "\<exists>out. helper_main B T E (http_argv host port ca st_arg) = (0, out) \<and>
     clock_sets out = [clock_init_time (int t + c_div (c_div rt 2) 1000) (c_mod (c_div rt 2) 1000)]"
proof -
  have t32: "t < 2 ^ 32" using assms(23) by (simp add: limit_defs)
  then have u: "uint (word_of_nat t :: uint32) = int t" by (simp add: uint_nat unat_of_nat)
  then have nz: "(word_of_nat t :: uint32) \<noteq> 0" using assms(21,22) by auto
  have "http_answer_date (map char_at (pending (conn_bio cn))) = (1, Some (word_of_nat t))"
    unfolding assms(10)
    by (rule http_answer_date_calendar [OF assms(16-20) t32 assms(13-15) assms(11,12)])
  note child = ssl_child_http [OF assms(2-6) fetch_http_date_answer [OF assms(1,9) this] assms(7,8), of st_arg]
  obtain out where "finish B E (http_argv host port ca st_arg) st (word_of_nat t) no_out = (0, out)"
    "clock_sets out = [clock_init_time (int t + c_div (c_div rt 2) 1000) (c_mod (c_div rt 2) 1000)]"
    using finish_sets_clock [OF assms(2,25) http_argv_nth(7) nz assms(26,27), of B host port ca st_arg no_out]
      assms(22,23) u
    by (auto simp: no_out_def)
  then show ?thesis
    using child assms(2,24) by (simp add: helper_main_def parent_main_def Let_def after_warp_def calls_succeed_def)
qed

theorem helper_sets_http_time_witness:
  "\<exists>out. helper_main early_build sample_tls sample_helper_env (http_argv ''www.example.org'' ''443'' ''/ca'' ''no'') = (0, out) \<and>
     clock_sets out = [clock_init_time 3487778 0]"
proof -
  have c: "calendar_day 40 = (int 1970, 1, int 10)" by code_simp
  have p: "print_1123 ''Tue'' 1970 1 10 8 49 37 = ''Tue, 10 Feb 1970 08:49:37 GMT''" by code_simp
  have "first_at_end ''HTTP/1.1 200 OK'' DATE_MARK" "\<forall>c \<in> set ''Tue''. letter c" by code_simp+
  moreover have "round_trip_ms \<lparr>tv_sec = 1500, tv_nsec = 0\<rparr> \<lparr>tv_sec = 1502, tv_nsec = 0\<rparr> = 2000"
    "c_div (c_div 2000 2) 1000 = 1" "c_mod (c_div 2000 2) 1000 = 0" by code_simp+
  ultimately show ?thesis
    using helper_sets_http_time [OF sample_chunked sample_calls sample_drop _ _ _ sample_checks sample_request,
        of "''/ca''" "''443''" "''HTTP/1.1 200 OK''" "''Tue''" 1970 1 10 8 49 37 "[CHR 0x0D, CHR 0x0A]" 40 3487777
          "\<lparr>tv_sec = 1500, tv_nsec = 0\<rparr>" "\<lparr>tv_sec = 1502, tv_nsec = 0\<rparr>" 2000 "''no''"] c
    unfolding p
    by (simp add: sample_tls_def sample_helper_env_def sample_conn_def sample_answer_def early_build_def
        limit_defs)
qed

end
