(* ===== verification/Tlsdate_Cli.thy ===== *)
theory Tlsdate_Cli
  imports Monitor
begin

text \<open>
  The command line program, \<^verbatim>\<open>src/tlsdate.c\<close>: it reads its options with \<^verbatim>\<open>getopt_long\<close> and replaces
  itself by the helper with thirteen positional arguments. \<^verbatim>\<open>getopt_long\<close> belongs to the C library
  and is modelled for what the program uses: short options with no, a required or an optional
  argument, long options with unambiguous abbreviations, the permutation of the arguments, and
  \<^verbatim>\<open>?\<close> for an error. \<^verbatim>\<open>optarg\<close> is an option: it is NULL for an option without argument.
\<close>

section \<open>getopt\_long\<close>

datatype arg_kind = no_argument | required_argument | optional_argument

text \<open>One argument of short options: the options found, and the one that still needs its argument.\<close>

fun short_options :: "(char \<Rightarrow> arg_kind option) \<Rightarrow> string \<Rightarrow> (char \<times> string option) list \<times> char option" where
  "short_options spec [] = ([], None)"
| "short_options spec (c # cs) =
     (case spec c of
        None \<Rightarrow> (let (os, p) = short_options spec cs in ((CHR ''?'', None) # os, p))
      | Some no_argument \<Rightarrow> (let (os, p) = short_options spec cs in ((c, None) # os, p))
      | Some optional_argument \<Rightarrow> ([(c, if cs \<noteq> [] then Some cs else None)], None)
      | Some required_argument \<Rightarrow> if cs \<noteq> [] then ([(c, Some cs)], None) else ([], Some c))"

type_synonym long_table = "(string \<times> arg_kind \<times> char) list"

text \<open>A name is matched exactly or as the prefix of one entry only.\<close>

definition find_long :: "long_table \<Rightarrow> string \<Rightarrow> (arg_kind \<times> char) option" where
  "find_long table nm =
     (case map_of table nm of
        Some e \<Rightarrow> Some e
      | None \<Rightarrow> (case filter (\<lambda>(n, _). take (length nm) n = nm) table of [(_, e)] \<Rightarrow> Some e | _ \<Rightarrow> None))"

definition long_option :: "long_table \<Rightarrow> string \<Rightarrow> (char \<times> string option) list \<times> char option" where
  "long_option table a =
     (let nm = takeWhile (\<lambda>c. c \<noteq> CHR ''='') a;
          val = (if CHR ''='' \<in> set a then Some (drop (Suc (length nm)) a) else None)
      in (case find_long table nm of
            None \<Rightarrow> ([(CHR ''?'', None)], None)
          | Some (no_argument, c) \<Rightarrow> (if val \<noteq> None then ([(CHR ''?'', None)], None) else ([(c, None)], None))
          | Some (optional_argument, c) \<Rightarrow> ([(c, val)], None)
          | Some (required_argument, c) \<Rightarrow> (if val \<noteq> None then ([(c, val)], None) else ([], Some c))))"

fun getopt_long :: "(char \<Rightarrow> arg_kind option) \<Rightarrow> long_table \<Rightarrow> string list \<Rightarrow> (char \<times> string option) list" where
  "getopt_long spec table [] = []"
| "getopt_long spec table (a # as) =
     (if a = ''--'' then []
      else if length a < 2 \<or> hd a \<noteq> CHR ''-'' then getopt_long spec table as
      else (case (if take 2 a = ''--'' then long_option table (drop 2 a) else short_options spec (tl a)) of
              (os, None) \<Rightarrow> os @ getopt_long spec table as
            | (os, Some c) \<Rightarrow>
                (case as of
                   [] \<Rightarrow> os @ [(CHR ''?'', None)]
                 | b # bs \<Rightarrow> os @ (c, Some b) # getopt_long spec table bs)))"

section \<open>tlsdate.c\<close>

definition tlsdate_short :: "char \<Rightarrow> arg_kind option" where
  "tlsdate_short c =
     (if c \<in> set ''vshntlw'' then Some no_argument
      else if c \<in> set ''HpPCx'' then Some required_argument
      else if c = CHR ''V'' then Some optional_argument
      else None)"

definition long_options :: long_table where
  "long_options =
     [(''verbose'', no_argument, CHR ''v''), (''showtime'', optional_argument, CHR ''V''),
      (''skip-verification'', no_argument, CHR ''s''), (''help'', no_argument, CHR ''h''),
      (''host'', no_argument, CHR ''H''), (''port'', no_argument, CHR ''p''), (''protocol'', no_argument, CHR ''P''),
      (''dont-set-clock'', no_argument, CHR ''n''), (''certcontainer'', no_argument, CHR ''C''),
      (''timewarp'', no_argument, CHR ''t''), (''leap'', no_argument, CHR ''l''), (''proxy'', no_argument, CHR ''x''),
      (''http'', no_argument, CHR ''w'')]"

record cli =
  cli_host :: "string option"
  cli_port :: "string option"
  cli_protocol :: "string option"
  cli_cert :: "string option"
  cli_verbose :: bool
  cli_racket :: bool
  cli_showtime :: nat
  cli_setclock :: bool
  cli_timewarp :: bool
  cli_leap :: bool
  cli_proxy :: "string option"
  cli_http :: bool

text \<open>\<open>certfile\<close> is \<^verbatim>\<open>TLSDATE_CERTFILE\<close>, set by the build.\<close>

definition cli_defaults :: "string \<Rightarrow> cli" where
  "cli_defaults certfile =
     \<lparr>cli_host = Some ''google.com'', cli_port = Some ''443'', cli_protocol = Some ''tlsv1'', cli_cert = Some certfile,
      cli_verbose = False, cli_racket = True, cli_showtime = 0, cli_setclock = True, cli_timewarp = False, cli_leap = False,
      cli_proxy = None, cli_http = False\<rparr>"

definition cli_option :: "char \<Rightarrow> string option \<Rightarrow> cli \<Rightarrow> cli result" where
  "cli_option c optarg o1 =
     (if c = CHR ''v'' then Inr (o1\<lparr>cli_verbose := True\<rparr>)
      else if c = CHR ''V'' then Inr (o1\<lparr>cli_showtime := (if optarg = Some ''raw'' then 2 else 1)\<rparr>)
      else if c = CHR ''s'' then Inr (o1\<lparr>cli_racket := False\<rparr>)
      else if c = CHR ''h'' then Inl (Exit 1)
      else if c = CHR ''H'' then Inr (o1\<lparr>cli_host := optarg\<rparr>)
      else if c = CHR ''p'' then Inr (o1\<lparr>cli_port := optarg\<rparr>)
      else if c = CHR ''P'' then Inr (o1\<lparr>cli_protocol := optarg\<rparr>)
      else if c = CHR ''n'' then Inr (o1\<lparr>cli_setclock := False\<rparr>)
      else if c = CHR ''C'' then Inr (o1\<lparr>cli_cert := optarg\<rparr>)
      else if c = CHR ''t'' then Inr (o1\<lparr>cli_timewarp := True\<rparr>)
      else if c = CHR ''l'' then Inr (o1\<lparr>cli_leap := True\<rparr>)
      else if c = CHR ''x'' then Inr (o1\<lparr>cli_proxy := optarg\<rparr>)
      else if c = CHR ''w'' then Inr (o1\<lparr>cli_http := True\<rparr>)
      else if c = CHR ''?'' then Inr o1
      else Inl (Exit 1))"

fun cli_options :: "(char \<times> string option) list \<Rightarrow> cli \<Rightarrow> cli result" where
  "cli_options [] o1 = Inr o1"
| "cli_options ((c, a) # os) o1 = bind_res (cli_option c a o1) (cli_options os)"

text \<open>\<^verbatim>\<open>execlp\<close> takes its arguments up to the first NULL.\<close>

fun execlp_args :: "string option list \<Rightarrow> string list" where
  "execlp_args [] = []"
| "execlp_args (None # as) = []"
| "execlp_args (Some a # as) = a # execlp_args as"

text \<open>The argument vector of the helper.\<close>

definition helper_args :: "cli \<Rightarrow> string option list" where
  "helper_args o1 =
     [Some ''tlsdate'', cli_host o1, cli_port o1, cli_protocol o1,
      Some (if cli_racket o1 then ''racket'' else ''unchecked''),
      Some (if cli_verbose o1 then ''verbose'' else ''quiet''),
      cli_cert o1,
      Some (if cli_setclock o1 then ''setclock'' else ''dont-set-clock''),
      Some (if cli_showtime o1 \<noteq> 0 then (if cli_showtime o1 = 2 then ''showtime=raw'' else ''showtime'') else ''no-showtime''),
      Some (if cli_timewarp o1 then ''timewarp'' else ''no-fun''),
      Some (if cli_leap o1 then ''leapaway'' else ''holdfast''),
      Some (case cli_proxy o1 of Some p \<Rightarrow> p | None \<Rightarrow> ''none''),
      Some (if cli_http o1 then ''http'' else ''tls'')]"

definition tlsdate_main :: "string \<Rightarrow> string list \<Rightarrow> string list result" where
  "tlsdate_main certfile args =
     bind_res (cli_options (getopt_long tlsdate_short long_options args) (cli_defaults certfile)) (\<lambda>o1.
       Inr (execlp_args (helper_args o1)))"

section \<open>Facts\<close>

lemma getopt_long_required:
  "tlsdate_short c = Some required_argument \<Longrightarrow> c \<noteq> CHR ''-'' \<Longrightarrow>
     getopt_long tlsdate_short table ([CHR ''-'', c] # a # as) = (c, Some a) # getopt_long tlsdate_short table as"
  by simp

lemma getopt_long_flag:
  "tlsdate_short c = Some no_argument \<Longrightarrow> c \<noteq> CHR ''-'' \<Longrightarrow>
     getopt_long tlsdate_short table ([CHR ''-'', c] # as) = (c, None) # getopt_long tlsdate_short table as"
  by simp

lemma tlsdate_short_simps [simp]:
  "tlsdate_short CHR ''H'' = Some required_argument" "tlsdate_short CHR ''p'' = Some required_argument"
  "tlsdate_short CHR ''x'' = Some required_argument" "tlsdate_short CHR ''n'' = Some no_argument"
  "tlsdate_short CHR ''l'' = Some no_argument" "tlsdate_short CHR ''V'' = Some optional_argument"
  by (simp_all add: tlsdate_short_def)

text \<open>The options of the daemon's command line, in order.\<close>

definition daemon_opts :: "opts \<Rightarrow> source \<Rightarrow> (char \<times> string option) list" where
  "daemon_opts o1 src =
     [(CHR ''H'', Some (src_host src)), (CHR ''p'', Some (src_port src))] @
     (case (case opt_proxy o1 of Some p \<Rightarrow> Some p | None \<Rightarrow> src_proxy src) of
        None \<Rightarrow> [] | Some x \<Rightarrow> if x \<noteq> '''' then [(CHR ''x'', Some x)] else []) @
     [(CHR ''V'', Some ''raw''), (CHR ''n'', None)] @ (if opt_leap o1 then [(CHR ''l'', None)] else [])"

lemma daemon_options:
  "getopt_long tlsdate_short table ([''-H'', src_host src, ''-p'', src_port src] @ proxy_args o1 src @ [''-Vraw'', ''-n''] @
     (if opt_leap o1 then [''-l''] else [])) = daemon_opts o1 src"
  by (simp add: proxy_args_def daemon_opts_def split: option.split)

definition proxy_of :: "opts \<Rightarrow> source \<Rightarrow> string" where
  "proxy_of o1 src =
     (case (case opt_proxy o1 of Some p \<Rightarrow> Some p | None \<Rightarrow> src_proxy src) of
        Some x \<Rightarrow> if x \<noteq> '''' then x else ''none'' | None \<Rightarrow> ''none'')"

definition helper_command :: "string \<Rightarrow> opts \<Rightarrow> source \<Rightarrow> string list" where
  "helper_command certfile o1 src =
     [''tlsdate'', src_host src, src_port src, ''tlsv1'', ''racket'', ''quiet'', certfile, ''dont-set-clock'', ''showtime=raw'',
      ''no-fun'', (if opt_leap o1 then ''leapaway'' else ''holdfast''), proxy_of o1 src, ''tls'']"

lemma cli_option_simps:
  "cli_option CHR ''H'' a c = Inr (c\<lparr>cli_host := a\<rparr>)" "cli_option CHR ''p'' a c = Inr (c\<lparr>cli_port := a\<rparr>)"
  "cli_option CHR ''x'' a c = Inr (c\<lparr>cli_proxy := a\<rparr>)" "cli_option CHR ''n'' a c = Inr (c\<lparr>cli_setclock := False\<rparr>)"
  "cli_option CHR ''l'' a c = Inr (c\<lparr>cli_leap := True\<rparr>)" "cli_option CHR ''P'' a c = Inr (c\<lparr>cli_protocol := a\<rparr>)"
  "cli_option CHR ''V'' a c = Inr (c\<lparr>cli_showtime := (if a = Some ''raw'' then 2 else 1)\<rparr>)"
  by (simp_all add: cli_option_def)

lemma daemon_cli:
  "bind_res (cli_options (daemon_opts o1 src) ((cli_defaults certfile)\<lparr>cli_host := hh\<rparr>)) (\<lambda>c. Inr (execlp_args (helper_args c))) =
     Inr (helper_command certfile o1 src)"
  by (cases "opt_proxy o1"; cases "src_proxy src"; cases "opt_leap o1")
    (simp_all add: daemon_opts_def cli_option_simps cli_defaults_def helper_args_def helper_command_def proxy_of_def)

lemma tlsdate_main_daemon:
  assumes "build_argv alloc o1 = Inr (o2, Some av)" and "base_argv o1 = prog # pre" and "pre = [] \<or> pre = [''-H'', h0]"
  shows "\<exists>i. cur_source o2 = Some i \<and> tlsdate_main certfile (tl av) = Inr (helper_command certfile o1 (sources o1 ! i))"
proof -
  define i where "i = next_source (cur_source o1) (length (sources o1))"
  define src where "src = sources o1 ! i"
  have o2: "cur_source o2 = Some i"
    and av: "tl av = pre @ [''-H'', src_host src, ''-p'', src_port src] @ proxy_args o1 src @ [''-Vraw'', ''-n''] @ (if opt_leap o1 then [''-l''] else [])"
    using assms by (auto simp: build_argv_def Let_def i_def src_def split: if_splits)
  let ?pre = "if pre = [] then [] else [(CHR ''H'', Some h0)]"
  have "getopt_long tlsdate_short long_options (pre @ as) = ?pre @ getopt_long tlsdate_short long_options as" for as
    using assms(3) by (elim disjE) simp_all
  then have "getopt_long tlsdate_short long_options (tl av) = ?pre @ daemon_opts o1 src"
    unfolding av by (simp only: daemon_options)
  then have "tlsdate_main certfile (tl av) = Inr (helper_command certfile o1 src)"
    using daemon_cli [of o1 src "Some ''google.com''" certfile] daemon_cli [of o1 src "Some h0" certfile]
    by (cases "pre = []") (simp_all add: tlsdate_main_def cli_option_simps cli_defaults_def)
  with o2 show ?thesis by (auto simp: src_def)
qed

section \<open>Properties\<close>

text \<open>
  C23. The command line that the daemon builds means what it should: the program it starts, either without
  arguments of its own or with the default host, replaces itself by the helper with all thirteen arguments, for
  the chosen source's host, port and proxy whatever characters these contain, with verification on,
  raw output, and never with the permission to set the clock or to warp it.
\<close>

theorem daemon_command_reaches_helper:
  assumes "build_argv alloc o1 = Inr (o2, Some av)" and "base_argv o1 = prog # pre" and "pre = [] \<or> pre = [''-H'', h0]"
  shows "\<exists>i. cur_source o2 = Some i \<and> tlsdate_main certfile (tl av) = Inr (helper_command certfile o1 (sources o1 ! i)) \<and>
     length (helper_command certfile o1 (sources o1 ! i)) = 13"
  using tlsdate_main_daemon [OF assms, of certfile] by (auto simp: helper_command_def)

theorem daemon_command_reaches_helper_witness:
  "\<exists>o2 av i. build_argv True (add_source_to_conf (set_conf_defaults sample_build) ''a'' ''1'' None) = Inr (o2, Some av) \<and>
     cur_source o2 = Some i \<and> tlsdate_main ''/ca'' (tl av) =
       Inr (helper_command ''/ca'' (add_source_to_conf (set_conf_defaults sample_build) ''a'' ''1'' None)
         (sources (add_source_to_conf (set_conf_defaults sample_build) ''a'' ''1'' None) ! i))"
proof -
  let ?o = "add_source_to_conf (set_conf_defaults sample_build) ''a'' ''1'' None"
  obtain o2 av where av: "build_argv True ?o = Inr (o2, Some av)"
    by (simp add: build_argv_def Let_def add_source_to_conf_def set_conf_defaults_def)
  have "base_argv ?o = TLSDATE sample_build # [''-H'', ''google.com'']"
    by (simp add: add_source_to_conf_def set_conf_defaults_def DEFAULT_HOST_def)
  from daemon_command_reaches_helper [OF av this, of "''google.com''" "''/ca''"] av show ?thesis by auto
qed

text \<open>
  C39. The long options whose value is lost. Of the six that \<^verbatim>\<open>usage\<close> documents with a value only
  \<^verbatim>\<open>--showtime\<close> can take one, and only behind an equals sign: \<^verbatim>\<open>--showtime raw\<close> shows the time for
  humans. Followed by its value as an argument of its own, which does not
  start with a hyphen, \<^verbatim>\<open>--host\<close>, \<^verbatim>\<open>--port\<close>, \<^verbatim>\<open>--protocol\<close> or
  \<^verbatim>\<open>--certcontainer\<close> leaves a NULL in the argument vector, at which it ends: the helper, which insists
  on thirteen arguments, gets one, two, three or six of the default ones. After \<^verbatim>\<open>--proxy\<close> it gets all
  thirteen of them, that is no proxy. With the value behind an equals sign these five options are
  refused and forgotten, and the program goes on with its defaults, as it does after \<^verbatim>\<open>--certdir\<close>,
  the name that the manual page has for \<^verbatim>\<open>--certcontainer\<close>.
\<close>

theorem long_options_lose_value:
  assumes "(nm, n) \<in> {(''host'', 1), (''port'', 2), (''protocol'', 3), (''certcontainer'', 6), (''proxy'', 13)}"
    and "take 1 arg \<noteq> ''-''" and "o1 = cli_defaults certfile"
  shows "length (execlp_args (helper_args o1)) = 13 \<and>
     tlsdate_main certfile [''--'' @ nm, arg] = Inr (take n (execlp_args (helper_args o1))) \<and>
     tlsdate_main certfile [''--'' @ nm @ ''='' @ arg] = Inr (execlp_args (helper_args o1)) \<and>
     tlsdate_main certfile [''--showtime'', arg] = Inr (execlp_args (helper_args (o1\<lparr>cli_showtime := 1\<rparr>))) \<and>
     tlsdate_main certfile [''--showtime=raw''] = Inr (execlp_args (helper_args (o1\<lparr>cli_showtime := 2\<rparr>))) \<and>
     tlsdate_main certfile [''--certdir'', arg] = Inr (execlp_args (helper_args o1))"
proof -
  have rest: "getopt_long tlsdate_short long_options [arg] = []"
    using assms(2) by (cases arg) auto
  then have go: "getopt_long tlsdate_short long_options [''--'' @ nm, arg] = os"
    if "long_option long_options nm = (os, None)" "nm \<noteq> []" for nm os
    using that by simp
  have long: "long_option long_options ''host'' = ([(CHR ''H'', None)], None)"
    "long_option long_options ''port'' = ([(CHR ''p'', None)], None)"
    "long_option long_options ''protocol'' = ([(CHR ''P'', None)], None)"
    "long_option long_options ''certcontainer'' = ([(CHR ''C'', None)], None)"
    "long_option long_options ''proxy'' = ([(CHR ''x'', None)], None)"
    "long_option long_options ''showtime'' = ([(CHR ''V'', None)], None)" by code_simp+
  have equals: "tlsdate_main certfile [''--'' @ nm @ ''='' @ arg] = Inr (execlp_args (helper_args o1))"
    if "CHR ''='' \<notin> set nm" "find_long long_options nm = Some (no_argument, c)" for nm c
  proof -
    have "takeWhile (\<lambda>c. c \<noteq> CHR ''='') (nm @ ''='' @ arg) = nm"
      using that(1) by (subst takeWhile_append2) auto
    then have "long_option long_options (nm @ ''='' @ arg) = ([(CHR ''?'', None)], None)"
      using that(2) by (simp add: long_option_def Let_def)
    then show ?thesis by (simp add: tlsdate_main_def cli_option_def assms(3))
  qed
  have found: "find_long long_options ''host'' = Some (no_argument, CHR ''H'')"
    "find_long long_options ''port'' = Some (no_argument, CHR ''p'')"
    "find_long long_options ''protocol'' = Some (no_argument, CHR ''P'')"
    "find_long long_options ''certcontainer'' = Some (no_argument, CHR ''C'')"
    "find_long long_options ''proxy'' = Some (no_argument, CHR ''x'')" by code_simp+
  note run = tlsdate_main_def cli_option_def cli_defaults_def helper_args_def assms(3)
  have shown: "tlsdate_main certfile [''--showtime'', arg] = Inr (execlp_args (helper_args (o1\<lparr>cli_showtime := 1\<rparr>)))"
    using go [OF long(6)] by (simp add: run del: getopt_long.simps)
  have "long_option long_options ''showtime=raw'' = ([(CHR ''V'', Some ''raw'')], None)" by code_simp
  then have raw: "tlsdate_main certfile [''--showtime=raw''] = Inr (execlp_args (helper_args (o1\<lparr>cli_showtime := 2\<rparr>)))"
    by (simp add: run)
  have "long_option long_options ''certdir'' = ([(CHR ''?'', None)], None)" by code_simp
  from go [OF this] have certdir: "tlsdate_main certfile [''--certdir'', arg] = Inr (execlp_args (helper_args o1))"
    by (simp add: run del: getopt_long.simps)
  have "\<exists>c. CHR ''='' \<notin> set nm \<and> find_long long_options nm = Some (no_argument, c)"
    using assms(1) found by (elim insertE emptyE) auto
  then have "tlsdate_main certfile [''--'' @ nm @ ''='' @ arg] = Inr (execlp_args (helper_args o1))"
    using equals by blast
  moreover have "tlsdate_main certfile [''--'' @ nm, arg] = Inr (take n (execlp_args (helper_args o1)))"
    using assms(1) go [OF long(1)] go [OF long(2)] go [OF long(3)] go [OF long(4)] go [OF long(5)]
    by (elim insertE emptyE) (simp_all add: run del: getopt_long.simps)
  ultimately show ?thesis using shown raw certdir by (simp add: run)
qed

theorem long_options_lose_value_witness:
  "tlsdate_main ''/ca'' [''--host'', ''example.org''] = Inr [''tlsdate''] \<and>
   length (execlp_args (helper_args (cli_defaults ''/ca''))) = 13"
  using long_options_lose_value [of "''host''" 1 "''example.org''" "cli_defaults ''/ca''" "''/ca''"]
  by (simp add: helper_args_def)

end
