(* ===== verification/Proxy_Polarssl.thy ===== *)
theory Proxy_Polarssl
  imports Proxy_Bio
begin

text \<open>
  The proxy handshakes for the PolarSSL back end, \<^verbatim>\<open>src/proxy-polarssl.c\<close>. The send and receive
  functions of the context are those of a \<open>bio_ops\<close>; of its operations only writing and reading are
  used. The source repeats \<^verbatim>\<open>src/proxy-bio.c\<close> with small differences, and the theorems say which: the
  handshakes agree but for the return value after an error, the filter does not.
\<close>

datatype polar_kind = Polar_Socks5 | Polar_Socks4a | Polar_Http

record polar_ctx =
  pp_host :: "string option"
  pp_port :: "16 word"
  pp_connected :: bool
  pp_connect :: "polar_kind option"

definition proxy_polarssl_init :: polar_ctx where
  "proxy_polarssl_init = \<lparr>pp_host = None, pp_port = 0, pp_connected = False, pp_connect = None\<rparr>"

definition proxy_polarssl_free :: "polar_ctx \<Rightarrow> int \<times> polar_ctx" where
  "proxy_polarssl_free ctx = (1, ctx\<lparr>pp_host := None\<rparr>)"

definition proxy_polarssl_set_scheme :: "string \<Rightarrow> polar_ctx \<Rightarrow> int \<times> polar_ctx" where
  "proxy_polarssl_set_scheme scheme ctx =
     (if scheme = ''socks5'' then (0, ctx\<lparr>pp_connect := Some Polar_Socks5\<rparr>)
      else if scheme = ''socks4'' then (0, ctx\<lparr>pp_connect := Some Polar_Socks4a\<rparr>)
      else if scheme = ''http'' then (0, ctx\<lparr>pp_connect := Some Polar_Http\<rparr>)
      else (1, ctx))"

definition proxy_polarssl_set_host :: "string \<Rightarrow> polar_ctx \<Rightarrow> int \<times> polar_ctx" where
  "proxy_polarssl_set_host host ctx =
     (if strnlen host NI_MAXHOST = NI_MAXHOST then (1, ctx) else (0, ctx\<lparr>pp_host := Some host\<rparr>))"

definition proxy_polarssl_set_port :: "16 word \<Rightarrow> polar_ctx \<Rightarrow> polar_ctx" where
  "proxy_polarssl_set_port port ctx = ctx\<lparr>pp_port := port\<rparr>"

definition polar_socks4a_connect :: "'b bio_ops \<Rightarrow> string \<Rightarrow> polar_ctx \<Rightarrow> 'b \<Rightarrow> int \<times> polar_ctx \<times> 'b" where
  "polar_socks4a_connect ops host ctx b =
     (let buf = [0x04, 0x01] @ port_n (pp_port ctx) @ [0x00, 0x00, 0x00, 0x01] @ [0x00] @ bytes_of host @ [0x00];
          (r, b1) = BIO_write ops buf b
      in if r \<noteq> int (length buf) then (0, ctx, b1)
         else
           let (rd, b2) = BIO_read ops 8 b1
           in if read_ret rd \<noteq> 8 then (0, ctx, b2)
              else if read_data rd ! 1 = 0x5a then (1, ctx\<lparr>pp_connected := True\<rparr>, b2)
              else (0, ctx, b2))"

function polar_socks5_skip :: "'b bio_ops \<Rightarrow> nat \<Rightarrow> 'b \<Rightarrow> bool \<times> 'b" where
  "polar_socks5_skip ops len b =
     (if len = 0 then (True, b)
      else let (rd, b') = BIO_read ops (min len PACKET_SIZE) b
           in if read_ret rd \<le> 0 then (False, b')
              else polar_socks5_skip ops (len - min len (nat (read_ret rd))) b')"
  by pat_completeness auto
termination
  by (relation "measure (\<lambda>(ops, len, b). len)") auto

declare polar_socks5_skip.simps [simp del]

definition polar_socks5_connect :: "'b bio_ops \<Rightarrow> string \<Rightarrow> polar_ctx \<Rightarrow> 'b \<Rightarrow> int \<times> polar_ctx \<times> 'b" where
  "polar_socks5_connect ops host ctx b =
     (if strnlen host 256 = 256 then (0, ctx, b)
      else
        let (r, b1) = BIO_write ops [0x05, 0x01, 0x00] b
        in if r \<noteq> 3 then (0, ctx, b1)
           else let (rd, b2) = BIO_read ops 2 b1
           in if read_ret rd \<noteq> 2 then (0, ctx, b2)
           else if read_data rd ! 0 \<noteq> 0x05 \<or> read_data rd ! 1 \<noteq> 0x00 then (0, ctx, b2)
           else let buf = [0x05, 0x01, 0x00, 0x03, word_of_nat (length host)] @ bytes_of host @ port_n (pp_port ctx);
                    (r, b3) = BIO_write ops buf b2
           in if r \<noteq> int (length buf) then (0, ctx, b3)
           else let (rd, b4) = BIO_read ops 4 b3
           in if read_ret rd \<noteq> 4 then (0, ctx, b4)
           else if read_data rd ! 0 \<noteq> 0x05 \<or> read_data rd ! 1 \<noteq> 0x00 then (0, ctx, b4)
           else let (ok, b5) =
                  (if read_data rd ! 3 = 0x03 then
                     (let (rd1, b1) = BIO_read ops 1 b4
                      in if read_ret rd1 \<noteq> 1 then (False, b1)
                         else polar_socks5_skip ops (unat (read_data rd1 ! 0) + 2) b1)
                   else if read_data rd ! 3 = 0x01 then
                     (let (rd1, b1) = BIO_read ops 6 b4 in (read_ret rd1 = 6, b1))
                   else (True, b4))
           in if \<not> ok then (0, ctx, b5) else (1, ctx\<lparr>pp_connected := True\<rparr>, b5))"

fun polar_sock_gets :: "'b bio_ops \<Rightarrow> nat \<Rightarrow> 'b \<Rightarrow> int \<times> string \<times> 'b" where
  "polar_sock_gets ops sz b =
     (let (rd, b1) = BIO_read ops 1 b
      in if read_ret rd \<le> 0 \<or> sz \<le> 1 then (1, [], b1)
         else let c = char_at (read_data rd ! 0)
              in if c = CHR 0x0A then (0, [c], b1)
                 else let (r, line, b2) = polar_sock_gets ops (sz - 1) b1 in (r, c # line, b2))"

declare polar_sock_gets.simps [simp del]

text \<open>The loop over the header lines, with fuel.\<close>

fun polar_headers :: "'b bio_ops \<Rightarrow> nat \<Rightarrow> 'b \<Rightarrow> (int \<times> 'b) option" where
  "polar_headers ops 0 b = None"
| "polar_headers ops (Suc fuel) b =
     (let (r, line, b1) = polar_sock_gets ops HTTP_BUF b
      in if r \<noteq> 0 then Some (0, b1)
         else if c_str line = CRLF then Some (1, b1)
         else polar_headers ops fuel b1)"

text \<open>One line of the request: whether it was sent whole.\<close>

definition polar_send_line :: "'b bio_ops \<Rightarrow> string \<Rightarrow> 'b \<Rightarrow> bool \<times> 'b" where
  "polar_send_line ops line b =
     (let (r, b1) = BIO_write ops (bytes_of line) b in (r = int (length line), b1))"

definition polar_http_connect :: "'b bio_ops \<Rightarrow> nat \<Rightarrow> string \<Rightarrow> polar_ctx \<Rightarrow> 'b \<Rightarrow> (int \<times> polar_ctx \<times> 'b) option" where
  "polar_http_connect ops fuel host ctx b =
     (let (ok1, b1) = polar_send_line ops (connect_line host (pp_port ctx)) b
      in if \<not> ok1 then Some (0, ctx, b1)
      else let (ok2, b2) = polar_send_line ops (host_line host (pp_port ctx)) b1
      in if \<not> ok2 then Some (0, ctx, b2)
      else let (ok3, b3) = polar_send_line ops CRLF b2
      in if \<not> ok3 then Some (0, ctx, b3)
      else let (r, line, b4) = polar_sock_gets ops HTTP_BUF b3
      in if r \<noteq> 0 then Some (0, ctx, b4)
      else (case scan_status (c_str line) of
              None \<Rightarrow> Some (0, ctx, b4)
            | Some retcode \<Rightarrow>
                if retcode < 200 \<or> retcode > 299 then Some (0, ctx, b4)
                else (case polar_headers ops fuel b4 of
                        None \<Rightarrow> None
                      | Some (ok, b5) \<Rightarrow>
                          if ok = 1 then Some (1, ctx\<lparr>pp_connected := True\<rparr>, b5)
                          else Some (0, ctx, b5))))"

text \<open>\<^verbatim>\<open>ctx->f_connect (ctx)\<close>: calling a NULL function pointer stops the program.\<close>

definition f_connect :: "'b bio_ops \<Rightarrow> nat \<Rightarrow> polar_ctx \<Rightarrow> 'b \<Rightarrow> (int \<times> polar_ctx \<times> 'b) option result" where
  "f_connect ops fuel ctx b =
     (case pp_connect ctx of
        None \<Rightarrow> Inl Null_Deref
      | Some kind \<Rightarrow>
          (case pp_host ctx of
             None \<Rightarrow> Inl Null_Deref
           | Some host \<Rightarrow>
               Inr (case kind of
                      Polar_Socks5 \<Rightarrow> Some (polar_socks5_connect ops host ctx b)
                    | Polar_Socks4a \<Rightarrow> Some (polar_socks4a_connect ops host ctx b)
                    | Polar_Http \<Rightarrow> polar_http_connect ops fuel host ctx b)))"

definition proxy_polarssl_recv :: "'b bio_ops \<Rightarrow> nat \<Rightarrow> nat \<Rightarrow> polar_ctx \<Rightarrow> 'b \<Rightarrow>
    (int \<times> byte list \<times> polar_ctx \<times> 'b) option result" where
  "proxy_polarssl_recv ops fuel len ctx b =
     (if pp_connected ctx then (let (rd, b') = BIO_read ops len b in Inr (Some (read_ret rd, read_data rd, ctx, b')))
      else bind_res (f_connect ops fuel ctx b) (\<lambda>res.
        case res of None \<Rightarrow> Inr None
        | Some (r, ctx1, b1) \<Rightarrow>
            if r \<noteq> 0 then Inr (Some (r, [], ctx1, b1))
            else let (rd, b2) = BIO_read ops len b1 in Inr (Some (read_ret rd, read_data rd, ctx1, b2))))"

definition proxy_polarssl_send :: "'b bio_ops \<Rightarrow> nat \<Rightarrow> byte list \<Rightarrow> polar_ctx \<Rightarrow> 'b \<Rightarrow>
    (int \<times> polar_ctx \<times> 'b) option result" where
  "proxy_polarssl_send ops fuel data ctx b =
     (if pp_connected ctx then (let (r, b') = BIO_write ops data b in Inr (Some (r, ctx, b')))
      else bind_res (f_connect ops fuel ctx b) (\<lambda>res.
        case res of None \<Rightarrow> Inr None
        | Some (r, ctx1, b1) \<Rightarrow>
            if r \<noteq> 0 then Inr (Some (r, ctx1, b1))
            else let (r', b2) = BIO_write ops data b1 in Inr (Some (r', ctx1, b2))))"

section \<open>Agreement with the BIO filter\<close>

text \<open>The context of \<^verbatim>\<open>proxy-bio.c\<close> with the same contents.\<close>

fun bio_kind :: "polar_kind \<Rightarrow> proxy_kind" where
  "bio_kind Polar_Socks5 = Socks5"
| "bio_kind Polar_Socks4a = Socks4a"
| "bio_kind Polar_Http = Http"

definition bio_ctx :: "polar_ctx \<Rightarrow> proxy_ctx" where
  "bio_ctx c = \<lparr>p_host = pp_host c, p_port = pp_port c, p_connected = pp_connected c, p_connect = map_option bio_kind (pp_connect c)\<rparr>"

text \<open>An error of the other side is an error of this one, without its sign.\<close>

definition no_sign :: "int \<times> 'c \<times> 'b \<Rightarrow> int \<times> 'c \<times> 'b" where
  "no_sign = (\<lambda>(r, c, b). (if r = -1 then 0 else r, c, b))"

definition with_bio_ctx :: "int \<times> polar_ctx \<times> 'b \<Rightarrow> int \<times> proxy_ctx \<times> 'b" where
  "with_bio_ctx = (\<lambda>(r, c, b). (r, bio_ctx c, b))"

lemma bio_ctx_simps [simp]:
  "p_port (bio_ctx c) = pp_port c" "bio_ctx (c\<lparr>pp_connected := True\<rparr>) = (bio_ctx c)\<lparr>p_connected := True\<rparr>"
  "p_host (bio_ctx c) = pp_host c" "p_connect (bio_ctx c) = map_option bio_kind (pp_connect c)"
  by (simp_all add: bio_ctx_def)

lemma polar_skip_eq: "polar_socks5_skip ops len b = socks5_skip ops len b"
proof (induction ops len b rule: polar_socks5_skip.induct)
  case (1 ops len b)
  then show ?case
    by (subst polar_socks5_skip.simps, subst socks5_skip.simps) (auto split: prod.split)
qed

lemma polar_gets_eq: "polar_sock_gets ops sz b = sock_gets ops sz b"
proof (induction ops sz b rule: polar_sock_gets.induct)
  case (1 ops sz b)
  then show ?case
    by (subst polar_sock_gets.simps, subst sock_gets.simps) (auto simp: Let_def split: prod.split)
qed

lemma polar_headers_eq: "polar_headers ops fuel b = http_headers ops fuel b"
  by (induction fuel arbitrary: b) (simp_all add: polar_gets_eq split: prod.split)

lemma polar_socks4a_eq:
  "with_bio_ctx (polar_socks4a_connect ops host ctx b) = no_sign (socks4a_connect ops host (bio_ctx ctx) b)"
  by (auto simp: polar_socks4a_connect_def socks4a_connect_def socks4a_request_def with_bio_ctx_def no_sign_def Let_def
      split: prod.split)

lemma polar_socks5_eq:
  "with_bio_ctx (polar_socks5_connect ops host ctx b) = no_sign (socks5_connect ops host (bio_ctx ctx) b)"
  by (auto simp: polar_socks5_connect_def socks5_connect_def socks5_request_def socks5_hello_def socks5_address_def
      polar_skip_eq with_bio_ctx_def no_sign_def Let_def split: prod.split)

lemma polar_send_line_eq:
  "polar_send_line ops line b = (fst (write_line ops line b) = None, snd (write_line ops line b))"
  by (simp add: polar_send_line_def write_line_def split: prod.split)

lemma write_line_failure: "write_line ops line b = (Some r, b') \<Longrightarrow> r = -1 \<or> r = 0"
  by (auto simp: write_line_def split: prod.splits if_splits)

lemma polar_http_eq:
  "map_option with_bio_ctx (polar_http_connect ops fuel host ctx b) =
     map_option no_sign (http_connect ops fuel host (bio_ctx ctx) b)"
proof -
  have rest: "map_option with_bio_ctx (case polar_headers ops fuel b4 of None \<Rightarrow> None
        | Some (ok, b5) \<Rightarrow> if ok = 1 then Some (1, ctx\<lparr>pp_connected := True\<rparr>, b5) else Some (0, ctx, b5)) =
      map_option no_sign (case http_headers ops fuel b4 of None \<Rightarrow> None
        | Some (ok, b5) \<Rightarrow> if ok = 1 then Some (1, (bio_ctx ctx)\<lparr>p_connected := True\<rparr>, b5) else Some (0, bio_ctx ctx, b5))" for b4
    by (auto simp: polar_headers_eq with_bio_ctx_def no_sign_def split: option.split)
  obtain w1 b1 w2 b2 w3 b3 where w: "write_line ops (connect_line host (pp_port ctx)) b = (w1, b1)"
      "write_line ops (host_line host (pp_port ctx)) b1 = (w2, b2)" "write_line ops CRLF b2 = (w3, b3)"
    by (metis surj_pair)
  obtain r line b4 where g: "sock_gets ops HTTP_BUF b3 = (r, line, b4)" by (metis prod_cases3)
  have failed: "map_option with_bio_ctx (Some (0, ctx, c)) = map_option no_sign (Some (x, bio_ctx ctx, c))"
    if "write_line ops line b0 = (Some x, c)" for line b0 x c
    using write_line_failure [OF that] by (auto simp: with_bio_ctx_def no_sign_def)
  have none: "map_option with_bio_ctx (Some (0, ctx, c)) = map_option no_sign (Some (0, bio_ctx ctx, c))" for c
    by (simp add: with_bio_ctx_def no_sign_def)
  note defs = polar_http_connect_def http_connect_def polar_send_line_eq polar_gets_eq
  consider x where "w1 = Some x" | x where "w1 = None" "w2 = Some x" | x where "w1 = None" "w2 = None" "w3 = Some x"
    | "w1 = None" "w2 = None" "w3 = None" by (cases w1; cases w2; cases w3) auto
  then show ?thesis
  proof cases
    case 1
    with failed w(1) show ?thesis by (simp add: defs del: option.map)
  next
    case 2
    with failed w(1,2) show ?thesis by (simp add: defs del: option.map)
  next
    case 3
    with failed w show ?thesis by (simp add: defs del: option.map)
  next
    case 4
    with w g rest [of b4] none [of b4] show ?thesis
      by (simp add: defs del: option.map split: option.split)
  qed
qed

definition socks4_ctx :: polar_ctx where
  "socks4_ctx = proxy_polarssl_init\<lparr>pp_connect := Some Polar_Socks4a, pp_host := Some ''h''\<rparr>"

text \<open>
  C16. The two copies of the handshakes agree: on any transport, for every kind of proxy, the
  PolarSSL handshake sends and receives the same bytes as the one of the BIO filter, leaves its
  context in the same state and returns the same value, except that an error -1 of the transport
  is reported as 0.
\<close>

theorem polar_connect_agrees:
  assumes "pp_connect ctx = Some kind" and "pp_host ctx = Some host"
  shows "map_sum id (map_option with_bio_ctx) (f_connect ops fuel ctx b) =
     map_sum id (map_option no_sign) (proxy_connect ops fuel (bio_ctx ctx) b)"
  using assms polar_http_eq [of ops fuel host ctx b]
  by (cases kind) (simp_all add: f_connect_def proxy_connect_def polar_socks4a_eq polar_socks5_eq)

theorem polar_connect_agrees_witness:
  "map_sum id (map_option with_bio_ctx) (f_connect test_methods 0 socks4_ctx \<lparr>t_out = [], t_in = [0, 0x5a, 0, 0, 0, 0, 0, 0]\<rparr>) =
     Inr (Some (1, (bio_ctx socks4_ctx)\<lparr>p_connected := True\<rparr>, \<lparr>t_out = socks4a_request ''h'' 0, t_in = []\<rparr>))"
proof -
  have "pp_connect socks4_ctx = Some Polar_Socks4a" "pp_host socks4_ctx = Some ''h''"
    "proxy_connect test_methods 0 (bio_ctx socks4_ctx) \<lparr>t_out = [], t_in = [0, 0x5a, 0, 0, 0, 0, 0, 0]\<rparr> =
       Inr (Some (1, (bio_ctx socks4_ctx)\<lparr>p_connected := True\<rparr>, \<lparr>t_out = socks4a_request ''h'' 0, t_in = []\<rparr>))"
    by code_simp+
  then show ?thesis
    using polar_connect_agrees [of socks4_ctx Polar_Socks4a "''h''" test_methods 0 "\<lparr>t_out = [], t_in = [0, 0x5a, 0, 0, 0, 0, 0, 0]\<rparr>"]
    by (simp add: no_sign_def)
qed

text \<open>
  The filter functions read the result of the handshake the wrong way round: when the
  handshake succeeds within a send, its value 1 is returned as the number of bytes sent although
  none of the data was; when it fails, the data goes out to the proxy in the clear.
\<close>

theorem polar_send_inverted:
  assumes "\<not> pp_connected ctx" and "f_connect ops fuel ctx b = Inr (Some (r, ctx1, b1))"
  shows "(r \<noteq> 0 \<longrightarrow> proxy_polarssl_send ops fuel payload ctx b = Inr (Some (r, ctx1, b1)) \<and>
       proxy_polarssl_recv ops fuel len ctx b = Inr (Some (r, [], ctx1, b1))) \<and>
     (r = 0 \<longrightarrow> proxy_polarssl_send ops fuel payload ctx b =
       Inr (Some (fst (BIO_write ops payload b1), ctx1, snd (BIO_write ops payload b1))))"
  using assms by (simp add: proxy_polarssl_send_def proxy_polarssl_recv_def split: prod.split)

theorem polar_send_inverted_witness:
  "proxy_polarssl_send test_methods 0 [7, 9] socks4_ctx \<lparr>t_out = [], t_in = [0, 0x5a, 0, 0, 0, 0, 0, 0]\<rparr> =
     Inr (Some (1, socks4_ctx\<lparr>pp_connected := True\<rparr>, \<lparr>t_out = socks4a_request ''h'' 0, t_in = []\<rparr>)) \<and>
   proxy_polarssl_send test_methods 0 [7, 9] socks4_ctx \<lparr>t_out = [], t_in = [0, 0x5b, 0, 0, 0, 0, 0, 0]\<rparr> =
     Inr (Some (2, socks4_ctx, \<lparr>t_out = socks4a_request ''h'' 0 @ [7, 9], t_in = []\<rparr>))"
proof -
  have "f_connect test_methods 0 socks4_ctx \<lparr>t_out = [], t_in = [0, 0x5a, 0, 0, 0, 0, 0, 0]\<rparr> =
     Inr (Some (1, socks4_ctx\<lparr>pp_connected := True\<rparr>, \<lparr>t_out = socks4a_request ''h'' 0, t_in = []\<rparr>))"
   "f_connect test_methods 0 socks4_ctx \<lparr>t_out = [], t_in = [0, 0x5b, 0, 0, 0, 0, 0, 0]\<rparr> =
     Inr (Some (0, socks4_ctx, \<lparr>t_out = socks4a_request ''h'' 0, t_in = []\<rparr>))"
   "BIO_write test_methods [7, 9] \<lparr>t_out = socks4a_request ''h'' 0, t_in = []\<rparr> =
     (2, \<lparr>t_out = socks4a_request ''h'' 0 @ [7, 9], t_in = []\<rparr>)" by code_simp+
  then show ?thesis
    using polar_send_inverted [of socks4_ctx test_methods 0 "\<lparr>t_out = [], t_in = [0, 0x5a, 0, 0, 0, 0, 0, 0]\<rparr>"]
      polar_send_inverted [of socks4_ctx test_methods 0 "\<lparr>t_out = [], t_in = [0, 0x5b, 0, 0, 0, 0, 0, 0]\<rparr>"]
    by (simp add: socks4_ctx_def proxy_polarssl_init_def)
qed

end
