(* ===== verification/Helper_Polarssl.thy ===== *)
theory Helper_Polarssl
  imports Helper Proxy_Polarssl
begin

text \<open>
  The helper built on PolarSSL: the parts of \<^verbatim>\<open>src/tlsdate-helper.c\<close> under \<^verbatim>\<open>USE_POLARSSL\<close>. Here the
  handshake is driven step by step until the server hello has been read, whose random bytes carry
  the time. PolarSSL is a parameter: \<open>polar_ops\<close> are its functions on a session of unknown type, and
  the transport below is a \<open>bio_ops\<close>. The loops over its functions end only if it makes them end:
  they take fuel, one unit per call, and \<open>None\<close> says that they have not ended. The parent process is
  the one of \<open>Helper\<close>; it reads the shared memory as the number the child stored.
\<close>

unbundle bit_operations_syntax

section \<open>PolarSSL\<close>

record 's polar_ops =
  at_server_hello :: "'s \<Rightarrow> bool"
  ssl_handshake_step :: "'s \<Rightarrow> int \<times> 's"
  ssl_handshake :: "'s \<Rightarrow> int \<times> 's"
  in_msg :: "'s \<Rightarrow> nat \<Rightarrow> byte"
  ssl_get_verify_result :: "'s \<Rightarrow> uint32"
  peer_key_bits :: "'s \<Rightarrow> nat option"
  WANT_READ :: int
  WANT_WRITE :: int

text \<open>
  The rest of the surroundings. \<open>polar_session\<close> is the session made ready for the handshake, from the
  name to verify, the proxy context its transport goes through and the transport. \<open>stack_host\<close> is
  what the proxy context on the stack holds as its host before anyone has written to it.
\<close>

record ('b, 's) polar_env =
  polar_stat :: "string \<Rightarrow> file_kind option"
  ctr_drbg_ok :: bool
  ssl_init_ok :: bool
  net_connect :: "string \<Rightarrow> int \<Rightarrow> 'b option"
  net_ops :: "'b bio_ops"
  polar_session :: "string \<Rightarrow> polar_ctx option \<Rightarrow> 'b \<Rightarrow> 's"
  ssl_ops :: "'s polar_ops"
  stack_host :: "string option"

section \<open>Checks\<close>

definition BADCERT_EXPIRED :: uint32 where "BADCERT_EXPIRED = 0x01"
definition BADCERT_REVOKED :: uint32 where "BADCERT_REVOKED = 0x02"
definition BADCERT_CN_MISMATCH :: uint32 where "BADCERT_CN_MISMATCH = 0x04"
definition BADCERT_NOT_TRUSTED :: uint32 where "BADCERT_NOT_TRUSTED = 0x08"

definition polar_verify_signature :: "'s polar_ops \<Rightarrow> 's \<Rightarrow> unit result" where
  "polar_verify_signature L s =
     (let ssl_verify_result = ssl_get_verify_result L s
      in if ssl_verify_result AND BADCERT_EXPIRED \<noteq> 0 then Inl (Exit 1)
         else if ssl_verify_result AND BADCERT_REVOKED \<noteq> 0 then Inl (Exit 1)
         else if ssl_verify_result AND BADCERT_CN_MISMATCH \<noteq> 0 then Inl (Exit 1)
         else if ssl_verify_result AND BADCERT_NOT_TRUSTED \<noteq> 0 then Inl (Exit 1)
         else if 0 = ssl_verify_result then Inr ()
         else Inl (Exit 1))"

definition polar_inspect_key :: "'s polar_ops \<Rightarrow> 's \<Rightarrow> unit result" where
  "polar_inspect_key L s = polar_verify_signature L s"

definition polar_check_key_length :: "'s polar_ops \<Rightarrow> 's \<Rightarrow> unit result" where
  "polar_check_key_length L s =
     (case peer_key_bits L s of
        None \<Rightarrow> Inl (Exit 1)
      | Some key_bits \<Rightarrow> if MIN_PUB_KEY_LEN \<ge> key_bits then Inl (Exit 1) else Inr ())"

definition check_timestamp :: "build \<Rightarrow> uint32 \<Rightarrow> unit result" where
  "check_timestamp B server_time =
     (let compiled_time = word_of_int (RECENT_COMPILE_DATE B);
          max_reasonable_time = word_of_int MAX_REASONABLE_TIME
      in if compiled_time < server_time \<and> server_time < max_reasonable_time then Inr () else Inl (Exit 1))"

section \<open>The handshake\<close>

text \<open>The steps up to the server hello, and the one that reads it.\<close>

fun ssl_do_handshake_part :: "'s polar_ops \<Rightarrow> nat \<Rightarrow> 's \<Rightarrow> 's result option" where
  "ssl_do_handshake_part L 0 s = None"
| "ssl_do_handshake_part L (Suc fuel) s =
     (let (ret, s') = ssl_handshake_step L s
      in if at_server_hello L s then Some (if ret \<noteq> 0 then Inl (Exit 1) else Inr s')
         else if ret \<noteq> 0 then Some (Inl (Exit 1))
         else ssl_do_handshake_part L fuel s')"

text \<open>The rest of the handshake, on a socket that may have to wait.\<close>

fun handshake_loop :: "'s polar_ops \<Rightarrow> nat \<Rightarrow> 's \<Rightarrow> 's result option" where
  "handshake_loop L 0 s = None"
| "handshake_loop L (Suc fuel) s =
     (let (ret, s') = ssl_handshake L s
      in if ret = 0 then Some (Inr s')
         else if WANT_READ L \<noteq> ret \<and> WANT_WRITE L \<noteq> ret then Some (Inl (Exit 1))
         else handshake_loop L fuel s')"

definition hello_timestamp :: "'s polar_ops \<Rightarrow> 's \<Rightarrow> uint32" where
  "hello_timestamp L s =
     (push_bit 24 (ucast (in_msg L s 6))) OR (push_bit 16 (ucast (in_msg L s 7))) OR
     (push_bit 8 (ucast (in_msg L s 8))) OR (ucast (in_msg L s 9))"

text \<open>The handshake through the proxy, as a call that may not return.\<close>

definition proxy_handshake :: "'b bio_ops \<Rightarrow> nat \<Rightarrow> polar_ctx \<Rightarrow> 'b \<Rightarrow> (polar_ctx \<times> 'b) result option" where
  "proxy_handshake ops fuel ctx b =
     (case f_connect ops fuel ctx b of
        Inl e \<Rightarrow> Some (Inl e)
      | Inr None \<Rightarrow> None
      | Inr (Some (r, ctx', b')) \<Rightarrow> Some (if 0 = r then Inl (Exit 1) else Inr (ctx', b')))"

definition polar_open :: "('b, 's) polar_env \<Rightarrow> nat \<Rightarrow> target \<Rightarrow> (polar_ctx option \<times> 'b) result option" where
  "polar_open P fuel t =
     (case t_proxy t of
        Some uri \<Rightarrow>
          bind_run (Some (parse_proxy_uri uri)) (\<lambda>(scheme, proxy_host, proxy_port).
            case net_connect P proxy_host (atoi proxy_port) of
              None \<Rightarrow> Some (Inl (Exit 1))
            | Some b \<Rightarrow>
                let c1 = snd (proxy_polarssl_set_host (t_host t) proxy_polarssl_init);
                    c2 = proxy_polarssl_set_port (word_of_int (atoi (t_port t))) c1;
                    c3 = snd (proxy_polarssl_set_scheme scheme c2)
                in bind_run (proxy_handshake (net_ops P) fuel c3 b) (\<lambda>(ctx, b'). Some (Inr (Some ctx, b'))))
      | None \<Rightarrow>
          (case net_connect P (t_host t) (atoi (t_port t)) of
             None \<Rightarrow> Some (Inl (Exit 1))
           | Some b \<Rightarrow> Some (Inr (None, b))))"

definition polar_load_ca :: "('b, 's) polar_env \<Rightarrow> string \<Rightarrow> unit result" where
  "polar_load_ca P container =
     (case polar_stat P container of
        None \<Rightarrow> Inl (Exit 1)
      | Some Regular \<Rightarrow> Inr ()
      | Some Directory \<Rightarrow> Inr ()
      | Some Special \<Rightarrow> Inl (Exit 1))"

text \<open>
  At the end the proxy context is freed, whether there was a proxy or not: without one, its host is
  what happened to be on the stack, and freeing that stops the program.
\<close>

definition free_proxy :: "('b, 's) polar_env \<Rightarrow> polar_ctx option \<Rightarrow> unit result" where
  "free_proxy P proxy =
     (case proxy of
        Some ctx \<Rightarrow> (case proxy_polarssl_free ctx of (_, _) \<Rightarrow> Inr ())
      | None \<Rightarrow> if stack_host P \<noteq> None then Inl Abort else Inr ())"

definition polar_run_ssl :: "build \<Rightarrow> ('b, 's) polar_env \<Rightarrow> nat \<Rightarrow> helper_opts \<Rightarrow> bool \<Rightarrow> bool \<Rightarrow> uint32 result option" where
  "polar_run_ssl B P fuel o' time_is_an_illusion http =
     (let L = ssl_ops P in
      bind_run (Some (if ca_racket o' then polar_load_ca P (ca_cert_container o') else Inr ())) (\<lambda>_.
      if \<not> ctr_drbg_ok P then Some (Inl (Exit 1))
      else if \<not> ssl_init_ok P then Some (Inl (Exit 1))
      else
      bind_run (polar_open P fuel (h_target o')) (\<lambda>(proxy, b).
      bind_run (ssl_do_handshake_part L fuel (polar_session P (hostname_to_verify o') proxy b)) (\<lambda>s.
      let timestamp = hello_timestamp L s in
      bind_run (Some (check_timestamp B timestamp)) (\<lambda>_.
      bind_run (handshake_loop L fuel s) (\<lambda>s'.
      bind_run (Some (if ca_racket o' then polar_inspect_key L s' else Inr ())) (\<lambda>_.
      bind_run (Some (polar_check_key_length L s')) (\<lambda>_.
      bind_run (Some (free_proxy P proxy)) (\<lambda>_. Some (Inr timestamp))))))))))"

text \<open>The child. One that has not ended within the fuel never ends well for its parent.\<close>

definition polar_ssl_child :: "build \<Rightarrow> ('b, 's) polar_env \<Rightarrow> nat \<Rightarrow> helper_env \<Rightarrow> creds \<Rightarrow> string list \<Rightarrow> uint32 result" where
  "polar_ssl_child B P fuel E c argv =
     bind_res (drop_privs_to (privs E) (UNPRIV_USER B) (UNPRIV_GROUP B) c) (\<lambda>_.
       case polar_run_ssl B P fuel (helper_opts_of argv) (argv ! 10 = ''leapaway'') (argv ! 12 = ''http'') of
         None \<Rightarrow> Inl Abort
       | Some r \<Rightarrow> r)"

definition polar_helper_main :: "build \<Rightarrow> ('b, 's) polar_env \<Rightarrow> nat \<Rightarrow> helper_env \<Rightarrow> string list \<Rightarrow> int \<times> helper_out" where
  "polar_helper_main B P fuel E argv = parent_main B (\<lambda>c. polar_ssl_child B P fuel E c argv) E argv"

section \<open>Facts\<close>

lemma word_bytes_or:
  fixes a b c d :: byte
  shows "push_bit 24 (ucast a :: uint32) OR push_bit 16 (ucast b) OR push_bit 8 (ucast c) OR ucast d =
    ((of_nat (unat a) * 256 + of_nat (unat b)) * 256 + of_nat (unat c)) * 256 + of_nat (unat d)"
proof -
  have small: "bit (w :: byte) n \<Longrightarrow> n < 8" for w n using bit_imp_le_length [of w n] by simp
  have "push_bit 8 (ucast c :: uint32) OR ucast d = push_bit 8 (ucast c) + ucast d"
    by (rule disjunctive_add [symmetric]) (auto simp: bit_simps dest: small)
  moreover have "push_bit 16 (ucast b :: uint32) OR (push_bit 8 (ucast c) OR ucast d) =
      push_bit 16 (ucast b) + (push_bit 8 (ucast c) OR ucast d)"
    by (rule disjunctive_add [symmetric]) (auto simp: bit_simps dest: small)
  moreover have "push_bit 24 (ucast a :: uint32) OR (push_bit 16 (ucast b) OR push_bit 8 (ucast c) OR ucast d) =
      push_bit 24 (ucast a) + (push_bit 16 (ucast b) OR push_bit 8 (ucast c) OR ucast d)"
    by (rule disjunctive_add [symmetric]) (auto simp: bit_simps dest: small)
  moreover have "of_nat (unat (w :: byte)) = (ucast w :: uint32)" for w by simp
  ultimately show ?thesis
    by (simp add: or.assoc push_bit_eq_mult algebra_simps)
qed

text \<open>The time of the hello is read as the parent of the OpenSSL build reads it from memory.\<close>

lemma hello_timestamp_eq: "hello_timestamp L s = ntohl_bytes (map (in_msg L s) [6, 7, 8, 9])"
  unfolding hello_timestamp_def word_bytes_or by (simp add: ntohl_bytes_def algebra_simps)

lemma polar_verify_signature_iff: "polar_verify_signature L s = Inr () \<longleftrightarrow> ssl_get_verify_result L s = 0"
  by (simp add: polar_verify_signature_def Let_def)

lemma polar_check_key_length_iff:
  "polar_check_key_length L s = Inr () \<longleftrightarrow> (\<exists>bits. peer_key_bits L s = Some bits \<and> bits > MIN_PUB_KEY_LEN)"
  by (auto simp: polar_check_key_length_def split: option.splits)

lemma check_timestamp_iff:
  assumes "0 \<le> RECENT_COMPILE_DATE B" and "RECENT_COMPILE_DATE B < 2 ^ 32"
  shows "check_timestamp B w = Inr () \<longleftrightarrow> RECENT_COMPILE_DATE B < uint w \<and> uint w < MAX_REASONABLE_TIME"
  unfolding check_timestamp_def Let_def uint_gate [OF assms, symmetric] by simp

text \<open>A handshake that returns a value other than 0 has connected, and from then on the filter is transparent.\<close>

lemma f_connect_connected:
  assumes "f_connect ops fuel ctx b = Inr (Some (r, ctx', b'))" and "r \<noteq> 0"
  shows "pp_connected ctx'"
  using assms
  by (auto simp: f_connect_def polar_socks5_connect_def polar_socks4a_connect_def polar_http_connect_def Let_def
      split: option.splits polar_kind.splits prod.splits if_splits)

lemma proxy_handshake_connected:
  "proxy_handshake ops fuel ctx b = Some (Inr (ctx', b')) \<Longrightarrow> pp_connected ctx'"
  by (auto simp: proxy_handshake_def dest: f_connect_connected split: sum.splits option.splits if_splits)

lemma polar_open_connected:
  assumes "polar_open P fuel t = Some (Inr (Some ctx, b))"
  shows "pp_connected ctx"
  using assms by (auto simp: polar_open_def Let_def dest: proxy_handshake_connected split: option.splits)

lemma polar_open_direct:
  assumes "polar_open P fuel t = Some (Inr (proxy, b))"
  shows "proxy = None \<longleftrightarrow> t_proxy t = None"
  using assms by (auto simp: polar_open_def Let_def split: option.splits)

text \<open>What a child that succeeds has done.\<close>

lemma polar_run_ssl_Inr:
  assumes "polar_run_ssl B P fuel opts illusion http = Some (Inr w)"
  obtains proxy b s s' where "polar_open P fuel (h_target opts) = Some (Inr (proxy, b))"
    "ssl_do_handshake_part (ssl_ops P) fuel (polar_session P (hostname_to_verify opts) proxy b) = Some (Inr s)"
    "w = hello_timestamp (ssl_ops P) s" "check_timestamp B w = Inr ()"
    "handshake_loop (ssl_ops P) fuel s = Some (Inr s')"
    "ca_racket opts \<Longrightarrow> polar_inspect_key (ssl_ops P) s' = Inr ()"
    "polar_check_key_length (ssl_ops P) s' = Inr ()" "free_proxy P proxy = Inr ()"
  using assms unfolding polar_run_ssl_def Let_def
  by (auto split: if_splits)

lemma parent_main_child_fails:
  assumes "\<And>c. \<exists>e. child_time c = Inl e"
  shows "fst (parent_main B child_time E argv) = 1"
proof -
  have "fst (after_warp B (child_time c) E argv st out) = 1" for c st out
    using assms [of c] by (auto simp: after_warp_def)
  then show ?thesis
    by (simp add: parent_main_def Let_def split: sum.split option.split)
qed

text \<open>
  The evidence for a time from the network: a session for the name on the command line, over a
  transport that is connected through the proxy if there is one, whose hello carried the time, whose
  handshake was completed, whose certificate drew no complaint and has a key of sufficient length.
\<close>

definition polar_evidence :: "build \<Rightarrow> ('b, 's) polar_env \<Rightarrow> nat \<Rightarrow> string list \<Rightarrow> uint32 \<Rightarrow> bool" where
  "polar_evidence B P fuel argv w \<longleftrightarrow>
     RECENT_COMPILE_DATE B < uint w \<and> uint w < MAX_REASONABLE_TIME \<and>
     (\<exists>proxy b s s' bits.
        ssl_do_handshake_part (ssl_ops P) fuel (polar_session P (argv ! 1) proxy b) = Some (Inr s) \<and>
        w = ntohl_bytes (map (in_msg (ssl_ops P) s) [6, 7, 8, 9]) \<and>
        handshake_loop (ssl_ops P) fuel s = Some (Inr s') \<and> ssl_get_verify_result (ssl_ops P) s' = 0 \<and>
        peer_key_bits (ssl_ops P) s' = Some bits \<and> bits > MIN_PUB_KEY_LEN \<and>
        (proxy = None \<longleftrightarrow> argv ! 11 = ''none'') \<and> (\<forall>ctx. proxy = Some ctx \<longrightarrow> pp_connected ctx))"

lemma polar_child_evidence:
  assumes "polar_ssl_child B P fuel E c argv = Inr w" and "argv ! 4 \<noteq> ''unchecked''"
    and "0 \<le> RECENT_COMPILE_DATE B" and "RECENT_COMPILE_DATE B < 2 ^ 32"
  shows "polar_evidence B P fuel argv w"
proof -
  have "polar_run_ssl B P fuel (helper_opts_of argv) (argv ! 10 = ''leapaway'') (argv ! 12 = ''http'') = Some (Inr w)"
    using assms(1) by (auto simp: polar_ssl_child_def split: option.splits)
  then show ?thesis
  proof (cases rule: polar_run_ssl_Inr)
    case (1 proxy b s s')
    have opts: "ca_racket (helper_opts_of argv)" "hostname_to_verify (helper_opts_of argv) = argv ! 1"
      "t_proxy (h_target (helper_opts_of argv)) = None \<longleftrightarrow> argv ! 11 = ''none''"
      using assms(2) by (simp_all add: helper_opts_of_def)
    have "RECENT_COMPILE_DATE B < uint w \<and> uint w < MAX_REASONABLE_TIME"
      using 1(4) check_timestamp_iff [OF assms(3,4), of w] by simp
    moreover have "w = ntohl_bytes (map (in_msg (ssl_ops P) s) [6, 7, 8, 9])" using 1(3) hello_timestamp_eq by metis
    moreover have "ssl_get_verify_result (ssl_ops P) s' = 0"
      using 1(6) opts(1) by (simp add: polar_inspect_key_def polar_verify_signature_iff)
    moreover obtain bits where "peer_key_bits (ssl_ops P) s' = Some bits" "bits > MIN_PUB_KEY_LEN"
      using 1(7) by (auto simp: polar_check_key_length_iff)
    moreover have "proxy = None \<longleftrightarrow> argv ! 11 = ''none''" using polar_open_direct [OF 1(1)] opts(3) by simp
    moreover have "\<forall>ctx. proxy = Some ctx \<longrightarrow> pp_connected ctx" using 1(1) by (auto dest: polar_open_connected)
    ultimately show ?thesis using 1(2,5) opts(2) unfolding polar_evidence_def by metis
  qed
qed

section \<open>A sample run\<close>

text \<open>A session that counts its steps: it reads the hello in the second step and waits once.\<close>

definition sample_ssl_ops :: "nat polar_ops" where
  "sample_ssl_ops = \<lparr>at_server_hello = (\<lambda>s. s = 1), ssl_handshake_step = (\<lambda>s. (0, s + 1)),
     ssl_handshake = (\<lambda>s. (if s = 2 then -10 else 0, s + 1)),
     in_msg = (\<lambda>s i. ([2, 0, 0, 70, 3, 1] @ htonl_bytes 3487777) ! i),
     ssl_get_verify_result = (\<lambda>_. 0), peer_key_bits = (\<lambda>_. Some 2048), WANT_READ = -10, WANT_WRITE = -11\<rparr>"

definition sample_polar :: "string option \<Rightarrow> (test_ctx, nat) polar_env" where
  "sample_polar garbage = \<lparr>polar_stat = (\<lambda>_. Some Directory), ctr_drbg_ok = True, ssl_init_ok = True,
     net_connect = (\<lambda>_ _. Some \<lparr>t_out = [], t_in = [0, 0x5a, 0, 0, 0, 0, 0, 0]\<rparr>), net_ops = test_methods,
     polar_session = (\<lambda>_ _ _. 0), ssl_ops = sample_ssl_ops, stack_host = garbage\<rparr>"

definition polar_argv :: "string \<Rightarrow> string list" where
  "polar_argv proxy = [''tlsdate-helper'', ''www.example.org'', ''443'', ''tlsv1'', ''racket'', ''quiet'', ''/ca'', ''setclock'',
     ''no'', ''no-fun'', ''holdfast'', proxy, ''tls'']"

lemma sample_polar_child:
  "polar_ssl_child early_build (sample_polar None) 3 sample_helper_env (creds0 sample_helper_env) (polar_argv ''none'') =
     Inr 3487777"
proof -
  have "hello_timestamp sample_ssl_ops 2 = ntohl_bytes (htonl_bytes 3487777)"
    by (simp add: hello_timestamp_eq sample_ssl_ops_def htonl_bytes_def)
  then have t: "hello_timestamp sample_ssl_ops 2 = 3487777" by simp
  have "check_timestamp early_build 3487777 = Inr ()" by (simp add: check_timestamp_iff early_build_def limit_defs)
  moreover have "ssl_do_handshake_part sample_ssl_ops 3 0 = Some (Inr 2)" "handshake_loop sample_ssl_ops 3 2 = Some (Inr 4)"
    by (simp_all add: eval_nat_numeral sample_ssl_ops_def)
  moreover have "polar_inspect_key sample_ssl_ops s = Inr ()" "polar_check_key_length sample_ssl_ops s = Inr ()" for s
    by (simp_all add: polar_inspect_key_def polar_verify_signature_iff polar_check_key_length_def sample_ssl_ops_def limit_defs)
  ultimately show ?thesis
    using sample_drop t
    by (simp add: polar_ssl_child_def polar_argv_def polar_run_ssl_def helper_opts_of_def sample_polar_def polar_load_ca_def
        polar_open_def free_proxy_def)
qed

section \<open>Properties\<close>

text \<open>
  C15. The PolarSSL build, from the socket to the clock: apart from the build date on a time warp,
  the clock is set at most once, only on demand, to a time within fifteen seconds of the one in
  the server's hello, and for that time there is evidence: a session for the name on the command
  line, connected through the proxy if there is one, with a completed handshake, a certificate
  verified without complaint and a key that is long enough; the time in the hello itself lies
  between the build date and the latest reasonable time.
\<close>

theorem polar_helper_sets_authenticated_time:
  assumes "polar_helper_main B P fuel E argv = (status, out)" and "argv ! 4 \<noteq> ''unchecked''"
    and "0 \<le> RECENT_COMPILE_DATE B" and "RECENT_COMPILE_DATE B < 2 ^ 32"
  shows "\<exists>warp net. clock_sets out = warp @ net \<and>
     (warp = [] \<or> argv ! 9 = ''timewarp'' \<and> warp = [clock_init_time (RECENT_COMPILE_DATE B) 0]) \<and>
     (net = [] \<or> argv ! 7 = ''setclock'' \<and> (\<exists>w t. net = [t] \<and> network_set B w t \<and> polar_evidence B P fuel argv w))"
proof -
  obtain warp net where wn: "clock_sets out = warp @ net"
    "warp = [] \<or> argv ! 9 = ''timewarp'' \<and> warp = [clock_init_time (RECENT_COMPILE_DATE B) 0]"
    "net = [] \<or> argv ! 7 = ''setclock'' \<and> (\<exists>c w t. polar_ssl_child B P fuel E c argv = Inr w \<and> net = [t] \<and> network_set B w t)"
    using parent_sets_reasonable_times [OF assms(1) [unfolded polar_helper_main_def]] by blast
  then show ?thesis using polar_child_evidence [OF _ assms(2-4)] by blast
qed

lemma sample_polar_main:
  "\<exists>out. polar_helper_main early_build (sample_polar None) 3 sample_helper_env (polar_argv ''none'') = (0, out) \<and>
     clock_sets out = [clock_init_time 3487778 0]"
proof -
  have "round_trip_ms \<lparr>tv_sec = 1500, tv_nsec = 0\<rparr> \<lparr>tv_sec = 1502, tv_nsec = 0\<rparr> = 2000"
    "c_div (c_div 2000 2) 1000 = 1" "c_mod (c_div 2000 2) 1000 = 0" by code_simp+
  then obtain out where "finish early_build sample_helper_env (polar_argv ''none'') \<lparr>tv_sec = 1500, tv_nsec = 0\<rparr> 3487777 no_out = (0, out)"
    "clock_sets out = [clock_init_time 3487778 0]"
    using finish_sets_clock [OF sample_calls, of "\<lparr>tv_sec = 1502, tv_nsec = 0\<rparr>" "polar_argv ''none''" 3487777
        "\<lparr>tv_sec = 1500, tv_nsec = 0\<rparr>" 2000 early_build no_out]
    by (auto simp: sample_helper_env_def polar_argv_def limit_defs early_build_def no_out_def)
  then show ?thesis
    using sample_polar_child
    by (simp add: polar_helper_main_def parent_main_def Let_def after_warp_def polar_argv_def sample_helper_env_def)
qed

theorem polar_helper_sets_authenticated_time_witness:
  "\<exists>out t w. polar_helper_main early_build (sample_polar None) 3 sample_helper_env (polar_argv ''none'') = (0, out) \<and>
     clock_sets out = [t] \<and> network_set early_build w t \<and> polar_evidence early_build (sample_polar None) 3 (polar_argv ''none'') w"
proof -
  obtain out where o: "polar_helper_main early_build (sample_polar None) 3 sample_helper_env (polar_argv ''none'') = (0, out)"
    "clock_sets out = [clock_init_time 3487778 0]"
    using sample_polar_main by blast
  show ?thesis
    using polar_helper_sets_authenticated_time [OF o(1)] o by (auto simp: polar_argv_def early_build_def)
qed

text \<open>
  Without a proxy the PolarSSL build depends on what the stack holds: the proxy context is
  freed although it was never initialised, so that, whatever the server does, the program fails
  and sets no time from the network if the pointer it finds there happens not to be NULL.
\<close>

theorem polar_uninitialised_free:
  assumes "argv ! 11 = ''none''" and "stack_host P \<noteq> None"
  shows "fst (polar_helper_main B P fuel E argv) = 1 \<and> polar_ssl_child B P fuel E c argv \<noteq> Inr w"
proof -
  have child: "\<exists>e. polar_ssl_child B P fuel E c argv = Inl e" for c
  proof (cases "polar_ssl_child B P fuel E c argv")
    case (Inr w)
    then have "polar_run_ssl B P fuel (helper_opts_of argv) (argv ! 10 = ''leapaway'') (argv ! 12 = ''http'') = Some (Inr w)"
      by (auto simp: polar_ssl_child_def split: option.splits)
    then show ?thesis
    proof (cases rule: polar_run_ssl_Inr)
      case (1 proxy b s s')
      then have "proxy = None" using polar_open_direct [OF 1(1)] assms(1) by (simp add: helper_opts_of_def)
      with 1(8) assms(2) show ?thesis by (simp add: free_proxy_def)
    qed
  qed simp
  then show ?thesis
    using parent_main_child_fails [of "\<lambda>c. polar_ssl_child B P fuel E c argv" B E argv]
    by (metis polar_helper_main_def sum.distinct(1))
qed

theorem polar_uninitialised_free_witness:
  "fst (polar_helper_main early_build (sample_polar (Some ''?'')) 3 sample_helper_env (polar_argv ''none'')) = 1"
  using polar_uninitialised_free [of "polar_argv ''none''" "sample_polar (Some ''?'')"]
  by (simp add: polar_argv_def sample_polar_def)

end
