(* ===== verification/Seccomp.thy ===== *)
theory Seccomp
  imports Setter
begin

text \<open>
  The sandbox of the setter, \<^verbatim>\<open>src/seccomp.c\<close>: a program for the kernel's packet filter machine that
  decides, by its number, what becomes of a system call. The instructions of the machine that the
  program uses are a datatype with an interpreter; the numbers of the system calls, which the
  headers of the platform define, are a parameter \<open>NR\<close>, with \<open>None\<close> for a call the platform lacks.
  The reference is a table from numbers to verdicts. The system calls that the confined setter attempts
  follow from \<^verbatim>\<open>src/tlsdate-setter.c\<close> and from \<^verbatim>\<open>rtc_write\<close> and \<^verbatim>\<open>logat\<close> of \<^verbatim>\<open>src/util.c\<close>.
\<close>

unbundle bit_operations_syntax

section \<open>The filter machine\<close>

text \<open>What the kernel passes to the filter: the first two fields of \<^verbatim>\<open>struct seccomp_data\<close>.\<close>

record seccomp_data =
  sd_nr :: uint32
  sd_arch :: uint32

datatype sock_filter =
    LD_W_ABS nat
  | JEQ_K uint32 nat nat
  | RET_K uint32

definition load_word :: "seccomp_data \<Rightarrow> nat \<Rightarrow> uint32 option" where
  "load_word d off = (if off = 0 then Some (sd_nr d) else if off = 4 then Some (sd_arch d) else None)"

text \<open>A jump skips instructions; running off the end or loading from elsewhere has no verdict.\<close>

function bpf_run :: "sock_filter list \<Rightarrow> seccomp_data \<Rightarrow> uint32 \<Rightarrow> uint32 option" where
  "bpf_run [] d acc = None"
| "bpf_run (LD_W_ABS off # is) d acc = (case load_word d off of None \<Rightarrow> None | Some w \<Rightarrow> bpf_run is d w)"
| "bpf_run (JEQ_K k jt jf # is) d acc = bpf_run (drop (if acc = k then jt else jf) is) d acc"
| "bpf_run (RET_K k # is) d acc = Some k"
  by pat_completeness auto
termination
  by (relation "measure (\<lambda>(is, d, acc). length is)") auto

section \<open>The program\<close>

definition SECCOMP_RET_KILL :: uint32 where "SECCOMP_RET_KILL = 0x00000000"
definition SECCOMP_RET_TRAP :: uint32 where "SECCOMP_RET_TRAP = 0x00030000"
definition SECCOMP_RET_ALLOW :: uint32 where "SECCOMP_RET_ALLOW = 0x7fff0000"
definition SECCOMP_RET_ERRNO :: uint32 where "SECCOMP_RET_ERRNO = 0x00050000"
definition EINVAL :: uint32 where "EINVAL = 22"

text \<open>What the build fixes: the architecture, the debugging switch and the numbers of the calls.\<close>

record sbox_build =
  SECCOMP_AUDIT_ARCH :: uint32
  SECCOMP_FILTER_DEBUG :: bool
  NR :: "string \<Rightarrow> uint32 option"

definition SECCOMP_FILTER_FAIL :: "sbox_build \<Rightarrow> uint32" where
  "SECCOMP_FILTER_FAIL S = (if SECCOMP_FILTER_DEBUG S then SECCOMP_RET_TRAP else SECCOMP_RET_KILL)"

definition SC_VERDICT :: "sbox_build \<Rightarrow> uint32 \<Rightarrow> string \<Rightarrow> sock_filter list" where
  "SC_VERDICT S v call = (case NR S call of None \<Rightarrow> [] | Some k \<Rightarrow> [JEQ_K k 0 1, RET_K v])"

definition SC_DENY :: "sbox_build \<Rightarrow> string \<Rightarrow> uint32 \<Rightarrow> sock_filter list" where
  "SC_DENY S call errno = SC_VERDICT S (SECCOMP_RET_ERRNO OR errno) call"

definition SC_ALLOW :: "sbox_build \<Rightarrow> string \<Rightarrow> sock_filter list" where
  "SC_ALLOW S call = SC_VERDICT S SECCOMP_RET_ALLOW call"

definition setter_insns :: "sbox_build \<Rightarrow> sock_filter list" where
  "setter_insns S =
     [LD_W_ABS 4, JEQ_K (SECCOMP_AUDIT_ARCH S) 1 0, RET_K (SECCOMP_FILTER_FAIL S), LD_W_ABS 0] @
     SC_ALLOW S ''read'' @ SC_ALLOW S ''write'' @ SC_ALLOW S ''pwritev'' @
     SC_ALLOW S ''settimeofday'' @ SC_ALLOW S ''ioctl'' @ SC_ALLOW S ''time'' @
     SC_ALLOW S ''lseek'' @ SC_ALLOW S ''close'' @ SC_ALLOW S ''munmap'' @
     SC_ALLOW S ''exit_group'' @ SC_ALLOW S ''exit'' @
     SC_DENY S ''open'' EINVAL @ SC_DENY S ''fcntl'' EINVAL @ SC_DENY S ''fstat'' EINVAL @
     SC_DENY S ''mmap'' EINVAL @ SC_DENY S ''mmap2'' EINVAL @ SC_DENY S ''sendto'' EINVAL @
     SC_DENY S ''socket'' EINVAL @ SC_DENY S ''socketcall'' EINVAL @
     [RET_K (SECCOMP_FILTER_FAIL S)]"

text \<open>\<open>no_new_privs_ret\<close> and \<open>set_seccomp_ret\<close> are the results of the two \<^verbatim>\<open>prctl\<close> calls.\<close>

definition enable_setter_seccomp :: "int \<Rightarrow> int \<Rightarrow> int" where
  "enable_setter_seccomp no_new_privs_ret set_seccomp_ret =
     (if no_new_privs_ret \<noteq> 0 then 1 else if set_seccomp_ret \<noteq> 0 then 1 else 0)"

text \<open>\<^verbatim>\<open>enable_seccomp\<close> of \<^verbatim>\<open>src/util.c\<close>; \<open>compiled_in\<close>: the build has the filter.\<close>

definition enable_seccomp :: "bool \<Rightarrow> int \<Rightarrow> int \<Rightarrow> unit result" where
  "enable_seccomp compiled_in no_new_privs_ret set_seccomp_ret =
     (if compiled_in \<and> enable_setter_seccomp no_new_privs_ret set_seccomp_ret \<noteq> 0
      then Inl (Exit SETTER_NO_SBOX) else Inr ())"

section \<open>The table\<close>

definition ALLOWED :: "string list" where
  "ALLOWED = [''read'', ''write'', ''pwritev'', ''settimeofday'', ''ioctl'', ''time'', ''lseek'', ''close'', ''munmap'',
     ''exit_group'', ''exit'']"

definition DENIED :: "string list" where
  "DENIED = [''open'', ''fcntl'', ''fstat'', ''mmap'', ''mmap2'', ''sendto'', ''socket'', ''socketcall'']"

text \<open>Verdicts on the names of the calls, and on a number that no call of the table has.\<close>

definition verdicts :: "(string \<times> uint32) list" where
  "verdicts = map (\<lambda>c. (c, SECCOMP_RET_ALLOW)) ALLOWED @ map (\<lambda>c. (c, SECCOMP_RET_ERRNO OR EINVAL)) DENIED"

fun first_verdict :: "sbox_build \<Rightarrow> (string \<times> uint32) list \<Rightarrow> uint32 \<Rightarrow> uint32" where
  "first_verdict S [] nr = SECCOMP_FILTER_FAIL S"
| "first_verdict S ((c, v) # table) nr = (if NR S c = Some nr then v else first_verdict S table nr)"

section \<open>Facts\<close>

text \<open>A pair of jump and return decides one number and passes every other on.\<close>

lemma run_verdict:
  "bpf_run (SC_VERDICT S v c @ is) d acc = (if NR S c = Some acc then Some v else bpf_run is d acc)"
  by (simp add: SC_VERDICT_def split: option.split)

lemma run_table:
  "bpf_run (concat (map (\<lambda>(c, v). SC_VERDICT S v c) table) @ [RET_K (SECCOMP_FILTER_FAIL S)]) d acc =
     Some (first_verdict S table acc)"
  by (induction table) (auto simp: run_verdict)

lemma setter_insns_table:
  "setter_insns S = [LD_W_ABS 4, JEQ_K (SECCOMP_AUDIT_ARCH S) 1 0, RET_K (SECCOMP_FILTER_FAIL S), LD_W_ABS 0] @
     concat (map (\<lambda>(c, v). SC_VERDICT S v c) verdicts) @ [RET_K (SECCOMP_FILTER_FAIL S)]"
  by (simp add: setter_insns_def verdicts_def ALLOWED_def DENIED_def SC_ALLOW_def SC_DENY_def)

lemma first_verdict_in:
  assumes "map_of table c = Some v" and "NR S c = Some nr" and inj: "\<And>c'. NR S c' = Some nr \<Longrightarrow> c' = c"
  shows "first_verdict S table nr = v"
  using assms(1)
proof (induction table)
  case (Cons e table)
  obtain c' v' where e: "e = (c', v')" by (cases e)
  show ?case
  proof (cases "NR S c' = Some nr")
    case True
    then have "c' = c" by (rule inj)
    then show ?thesis using Cons.prems e True by simp
  next
    case False
    then have "c' \<noteq> c" using assms(2) by auto
    then show ?thesis using Cons e False by simp
  qed
qed simp

lemma first_verdict_allow:
  assumes "first_verdict S table nr = SECCOMP_RET_ALLOW"
  shows "\<exists>c. (c, SECCOMP_RET_ALLOW) \<in> set table \<and> NR S c = Some nr"
  using assms
  by (induction table) (auto simp: SECCOMP_FILTER_FAIL_def SECCOMP_RET_KILL_def SECCOMP_RET_TRAP_def SECCOMP_RET_ALLOW_def split: if_splits)

lemma setter_filter_table_run:
  "bpf_run (setter_insns S) d 0 =
     Some (if sd_arch d = SECCOMP_AUDIT_ARCH S then first_verdict S verdicts (sd_nr d) else SECCOMP_FILTER_FAIL S)"
  unfolding setter_insns_table by (simp add: load_word_def run_table)

section \<open>The system calls of the setter\<close>

text \<open>
  The calls that the setter attempts between entering the sandbox and its end, in their order and by
  their names. A call that \<^verbatim>\<open>IGNORE_EINTR\<close> repeats stands for its repetitions. What the functions of
  the C library call on their own is a parameter: \<^verbatim>\<open>gmtime_r\<close> may read the time zone, \<^verbatim>\<open>strerror\<close> a
  catalogue, \<^verbatim>\<open>fprintf\<close> writes, and \<^verbatim>\<open>vsyslog\<close> may open a socket and sends.
\<close>

record libc_calls =
  of_gmtime_r :: "string list"
  of_strerror :: "string list"
  of_fprintf :: "string list"
  of_vsyslog :: "string list"

definition libc_all :: "libc_calls \<Rightarrow> string list" where
  "libc_all L = of_gmtime_r L @ of_strerror L @ of_fprintf L @ of_vsyslog L"

text \<open>\<^verbatim>\<open>logat\<close>; \<open>vb\<close> is the global flag \<^verbatim>\<open>verbose\<close>.\<close>

definition logat_calls :: "libc_calls \<Rightarrow> bool \<Rightarrow> bool \<Rightarrow> string list" where
  "logat_calls L vb isverbose =
     (if isverbose \<and> \<not> vb then [] else of_fprintf L @ of_fprintf L @ of_vsyslog L)"

text \<open>\<^verbatim>\<open>rtc_write\<close>: \<^verbatim>\<open>pinfo\<close> after a failure, \<^verbatim>\<open>info\<close> after a success.\<close>

definition rtc_write_calls :: "libc_calls \<Rightarrow> bool \<Rightarrow> bool \<Rightarrow> string list" where
  "rtc_write_calls L vb ioctl_ok =
     of_gmtime_r L @ [''ioctl''] @
     (if ioctl_ok then logat_calls L vb False else of_strerror L @ logat_calls L vb True)"

definition set_sane_calls :: "libc_calls \<Rightarrow> bool \<Rightarrow> opts \<Rightarrow> setter_call \<Rightarrow> bool \<Rightarrow> save_file \<Rightarrow> string list" where
  "set_sane_calls L vb o1 c save f =
     (if dry_run o1 then []
      else ''settimeofday'' #
        (if \<not> set_ok c then []
         else (if should_sync_hwclock o1 then rtc_write_calls L vb (rtc_ok c) else []) @
           (if should_sync_hwclock o1 \<and> \<not> rtc_ok c then []
            else if save \<and> f \<noteq> None then [''pwritev''] else [])))"

definition turn_calls :: "libc_calls \<Rightarrow> bool \<Rightarrow> build \<Rightarrow> opts \<Rightarrow> setter_call \<Rightarrow> save_file \<Rightarrow> string list" where
  "turn_calls L vb B o1 c f = ''read'' #
     (case msg_read c of
        Rd_Err e \<Rightarrow> []
      | Rd bs \<Rightarrow>
          (if length bs \<noteq> 8 then []
           else
             (let t0 = bytes_time bs; save = (0 \<le> t0); t = (if t0 < 0 then - t0 else t0)
              in if t = 0 then []
                 else if is_sane_time B t
                 then set_sane_calls L vb o1 c save f @
                   (case set_sane_time o1 c save t f of (Again st, _) \<Rightarrow> [''write''] | (Die st, _) \<Rightarrow> [])
                 else [''write''])))"

text \<open>The label \<^verbatim>\<open>notify_and_die\<close>.\<close>

definition leave_calls :: "string list" where
  "leave_calls = [''write'', ''close'', ''close'', ''exit_group'']"

fun loop_calls :: "libc_calls \<Rightarrow> bool \<Rightarrow> build \<Rightarrow> opts \<Rightarrow> setter_call list \<Rightarrow> int option \<Rightarrow> save_file \<Rightarrow> string list" where
  "loop_calls L vb B o1 [] status f = [''read'']"
| "loop_calls L vb B o1 (c # cs) status f =
     turn_calls L vb B o1 c f @
     (case setter_turn B o1 c status f of
        (Die st, f', es) \<Rightarrow> leave_calls
      | (Again st, f', es) \<Rightarrow> loop_calls L vb B o1 cs st f')"

text \<open>The setter that leaves before it is confined makes no call in the sandbox.\<close>

definition confined_calls :: "libc_calls \<Rightarrow> bool \<Rightarrow> build \<Rightarrow> opts \<Rightarrow> byte list option \<Rightarrow> int \<Rightarrow> setter_call list \<Rightarrow>
    string list" where
  "confined_calls L vb B o1 saved sbox cs =
     (let want_save = should_save_disk o1 \<and> \<not> dry_run o1
      in if want_save \<and> saved = None \<or> sbox \<noteq> 0 then []
         else loop_calls L vb B o1 cs None (if want_save then saved else None))"

text \<open>What the filter answers to a call; \<open>None\<close> when the platform does not have the call.\<close>

definition sandbox_verdict :: "sbox_build \<Rightarrow> string \<Rightarrow> uint32 option" where
  "sandbox_verdict S call =
     (case NR S call of
        None \<Rightarrow> None
      | Some k \<Rightarrow> bpf_run (setter_insns S) \<lparr>sd_nr = k, sd_arch = SECCOMP_AUDIT_ARCH S\<rparr> 0)"

section \<open>Facts on the calls\<close>

lemma set_sane_calls_from:
  assumes "call \<in> set (set_sane_calls L vb o1 c save f)" and "set_sane_time o1 c save t f = (y, f', es)"
  shows "call \<in> {''settimeofday'', ''ioctl'', ''pwritev''} \<and> \<not> dry_run o1 \<or>
     call \<in> set (libc_all L) \<and> should_sync_hwclock o1 \<and> \<not> dry_run o1 \<and> Set_Time t \<in> set es"
  using assms
  by (auto simp: set_sane_calls_def rtc_write_calls_def logat_calls_def libc_all_def set_sane_time_def Let_def
      split: if_splits option.splits prod.splits)

text \<open>A message with a sane time, and every other one.\<close>

lemma turn_sane:
  assumes "msg_time c = Some t" and "t \<noteq> 0" and "is_sane_time B \<bar>t\<bar>"
  shows "turn_calls L vb B o1 c f = ''read'' # set_sane_calls L vb o1 c (0 \<le> t) f @
       (case set_sane_time o1 c (0 \<le> t) \<bar>t\<bar> f of (Again st, _) \<Rightarrow> [''write''] | (Die st, _) \<Rightarrow> [])"
    and "setter_turn B o1 c status f =
       (case set_sane_time o1 c (0 \<le> t) \<bar>t\<bar> f of
          (Again st, f', es) \<Rightarrow> (Again st, f', es @ [Notify st])
        | (Die st, f', es) \<Rightarrow> (Die st, f', es))"
proof -
  obtain bs where bs: "msg_read c = Rd bs" "length bs = 8" "bytes_time bs = t"
    using assms(1) by (auto simp: msg_time_def split: read_res.splits if_splits)
  then have "bs \<noteq> []" by auto
  show "turn_calls L vb B o1 c f = ''read'' # set_sane_calls L vb o1 c (0 \<le> t) f @
       (case set_sane_time o1 c (0 \<le> t) \<bar>t\<bar> f of (Again st, _) \<Rightarrow> [''write''] | (Die st, _) \<Rightarrow> [])"
    and "setter_turn B o1 c status f =
       (case set_sane_time o1 c (0 \<le> t) \<bar>t\<bar> f of
          (Again st, f', es) \<Rightarrow> (Again st, f', es @ [Notify st])
        | (Die st, f', es) \<Rightarrow> (Die st, f', es))"
    unfolding turn_calls_def setter_turn_def Let_def using bs \<open>bs \<noteq> []\<close> assms(2,3)
    by (cases "t < 0"; simp)+
qed

definition sets_nothing :: "setter_effect list \<Rightarrow> bool" where
  "sets_nothing es \<longleftrightarrow> (\<forall>e \<in> set es. \<exists>st. e = Notify st)"

lemma turn_other:
  assumes "\<nexists>t. msg_time c = Some t \<and> t \<noteq> 0 \<and> is_sane_time B \<bar>t\<bar>"
  shows "set (turn_calls L vb B o1 c f) \<subseteq> {''read'', ''write''} \<and> sets_nothing (snd (snd (setter_turn B o1 c status f)))"
proof (cases "msg_read c")
  case (Rd_Err e)
  then show ?thesis by (simp add: turn_calls_def setter_turn_def sets_nothing_def)
next
  case (Rd bs)
  show ?thesis
  proof (cases "length bs = 8")
    case True
    let ?t = "if bytes_time bs < 0 then - bytes_time bs else bytes_time bs"
    have "bytes_time bs = 0 \<or> \<not> is_sane_time B \<bar>bytes_time bs\<bar>" using assms Rd True by (auto simp: msg_time_def)
    then have "?t = 0 \<or> \<not> is_sane_time B ?t" by (auto simp: abs_if split: if_splits)
    then show ?thesis
      unfolding turn_calls_def setter_turn_def Let_def sets_nothing_def using Rd True by (cases "?t = 0") simp_all
  next
    case False
    then show ?thesis using Rd by (simp add: turn_calls_def setter_turn_def sets_nothing_def)
  qed
qed

lemma turn_calls_from:
  assumes "call \<in> set (turn_calls L vb B o1 c f)"
  shows "call \<in> {''read'', ''write'', ''settimeofday'', ''ioctl'', ''pwritev''} \<or>
     call \<in> set (libc_all L) \<and> should_sync_hwclock o1 \<and> \<not> dry_run o1 \<and>
       (\<exists>t. Set_Time t \<in> set (snd (snd (setter_turn B o1 c status f))))"
proof (cases "\<exists>t. msg_time c = Some t \<and> t \<noteq> 0 \<and> is_sane_time B \<bar>t\<bar>")
  case False
  then show ?thesis using turn_other [of c B L vb o1 f] assms by auto
next
  case True
  then obtain t where t: "msg_time c = Some t" "t \<noteq> 0" "is_sane_time B \<bar>t\<bar>" by blast
  obtain y f' es where s: "set_sane_time o1 c (0 \<le> t) \<bar>t\<bar> f = (y, f', es)"
    by (cases "set_sane_time o1 c (0 \<le> t) \<bar>t\<bar> f") auto
  have "call \<in> {''read'', ''write''} \<or> call \<in> set (set_sane_calls L vb o1 c (0 \<le> t) f)"
    using assms unfolding turn_sane(1) [OF t] s by (cases y) auto
  moreover have "set es \<subseteq> set (snd (snd (setter_turn B o1 c status f)))"
    unfolding turn_sane(2) [OF t] s by (cases y) auto
  ultimately show ?thesis using set_sane_calls_from [OF _ s, of call L vb] by blast
qed

lemma turn_calls_sane:
  assumes "call \<in> set (turn_calls L vb B o1 c f)" and "call \<notin> {''read'', ''write''}"
  shows "\<not> dry_run o1 \<and> (\<exists>t. msg_time c = Some t \<and> is_sane_time B \<bar>t\<bar>)"
proof (cases "\<exists>t. msg_time c = Some t \<and> t \<noteq> 0 \<and> is_sane_time B \<bar>t\<bar>")
  case False
  then show ?thesis using turn_other [of c B L vb o1 f] assms by auto
next
  case True
  then obtain t where t: "msg_time c = Some t" "t \<noteq> 0" "is_sane_time B \<bar>t\<bar>" by blast
  have "call \<in> set (set_sane_calls L vb o1 c (0 \<le> t) f)"
    using assms unfolding turn_sane(1) [OF t] by (auto split: prod.splits turn.splits)
  then have "\<not> dry_run o1" by (simp add: set_sane_calls_def split: if_splits)
  with t show ?thesis by blast
qed

lemma turn_calls_effects:
  assumes "e \<in> set (snd (snd (setter_turn B o1 c status f)))"
  shows "(e = Set_Time t \<longrightarrow> ''settimeofday'' \<in> set (turn_calls L vb B o1 c f)) \<and>
     (e = Rtc_Write t \<longrightarrow> ''ioctl'' \<in> set (turn_calls L vb B o1 c f)) \<and>
     (e = Save_Time t \<longrightarrow> ''pwritev'' \<in> set (turn_calls L vb B o1 c f))"
proof (cases "\<exists>u. msg_time c = Some u \<and> u \<noteq> 0 \<and> is_sane_time B \<bar>u\<bar>")
  case False
  then show ?thesis using turn_other [of c B L vb o1 f status] assms by (auto simp: sets_nothing_def)
next
  case True
  then obtain u where u: "msg_time c = Some u" "u \<noteq> 0" "is_sane_time B \<bar>u\<bar>" by blast
  obtain y f' es where s: "set_sane_time o1 c (0 \<le> u) \<bar>u\<bar> f = (y, f', es)"
    by (cases "set_sane_time o1 c (0 \<le> u) \<bar>u\<bar> f") auto
  have "e \<in> set es \<or> (\<exists>st. e = Notify st)"
    using assms unfolding turn_sane(2) [OF u] s by (cases y) auto
  moreover have "set (set_sane_calls L vb o1 c (0 \<le> u) f) \<subseteq> set (turn_calls L vb B o1 c f)"
    unfolding turn_sane(1) [OF u] by auto
  ultimately show ?thesis using s
    by (auto simp: set_sane_calls_def rtc_write_calls_def set_sane_time_def Let_def
        split: if_splits option.splits prod.splits)
qed

lemma loop_calls_from:
  assumes "call \<in> set (loop_calls L vb B o1 cs status f)"
  shows "call \<in> set ALLOWED - {''time''} \<or>
     call \<in> set (libc_all L) \<and> should_sync_hwclock o1 \<and> \<not> dry_run o1 \<and>
       (\<exists>t. Set_Time t \<in> set (snd (snd (setter_loop B o1 cs status f))))"
  using assms
proof (induction cs arbitrary: status f)
  case Nil
  then show ?case by (simp add: ALLOWED_def)
next
  case (Cons c cs)
  have own: "{''read'', ''write'', ''settimeofday'', ''ioctl'', ''pwritev''} \<subseteq> set ALLOWED - {''time''}"
    "set leave_calls \<subseteq> set ALLOWED - {''time''}" by (simp_all add: ALLOWED_def leave_calls_def)
  obtain y f1 es1 where t: "setter_turn B o1 c status f = (y, f1, es1)"
    by (cases "setter_turn B o1 c status f") auto
  note now = turn_calls_from [of call L vb B o1 c f status, unfolded t snd_conv]
  show ?case
  proof (cases y)
    case (Die d)
    with t have eqs: "snd (snd (setter_loop B o1 (c # cs) status f)) = es1 @ [Notify (Some d)]"
      "loop_calls L vb B o1 (c # cs) status f = turn_calls L vb B o1 c f @ leave_calls" by simp_all
    show ?thesis using Cons.prems own now unfolding eqs by auto
  next
    case (Again st)
    with t have eqs: "snd (snd (setter_loop B o1 (c # cs) status f)) = es1 @ snd (snd (setter_loop B o1 cs st f1))"
      "loop_calls L vb B o1 (c # cs) status f = turn_calls L vb B o1 c f @ loop_calls L vb B o1 cs st f1"
      by (simp_all split: prod.split)
    show ?thesis using Cons.prems own(1) now Cons.IH [of st f1] unfolding eqs by auto
  qed
qed

lemma loop_calls_sane:
  assumes "call \<in> set (loop_calls L vb B o1 cs status f)" and "call \<notin> {''read'', ''write'', ''close'', ''exit_group''}"
  shows "\<not> dry_run o1 \<and> (\<exists>c \<in> set cs. \<exists>t. msg_time c = Some t \<and> is_sane_time B \<bar>t\<bar>)"
  using assms(1)
proof (induction cs arbitrary: status f)
  case Nil
  then show ?case using assms(2) by auto
next
  case (Cons c cs)
  obtain y f1 es1 where t: "setter_turn B o1 c status f = (y, f1, es1)"
    by (cases "setter_turn B o1 c status f") auto
  have "call \<in> set (turn_calls L vb B o1 c f) \<or> (\<exists>st. call \<in> set (loop_calls L vb B o1 cs st f1))"
    using Cons.prems t assms(2) by (cases y) (auto simp: leave_calls_def)
  then show ?case using turn_calls_sane [of call L vb B o1 c f] assms(2) Cons.IH by auto
qed

lemma loop_calls_effects:
  assumes "e \<in> set (snd (snd (setter_loop B o1 cs status f)))"
  shows "(e = Set_Time t \<longrightarrow> ''settimeofday'' \<in> set (loop_calls L vb B o1 cs status f)) \<and>
     (e = Rtc_Write t \<longrightarrow> ''ioctl'' \<in> set (loop_calls L vb B o1 cs status f)) \<and>
     (e = Save_Time t \<longrightarrow> ''pwritev'' \<in> set (loop_calls L vb B o1 cs status f))"
  using assms
proof (induction cs arbitrary: status f)
  case (Cons c cs)
  obtain y f1 es1 where t: "setter_turn B o1 c status f = (y, f1, es1)"
    by (cases "setter_turn B o1 c status f") auto
  note now = turn_calls_effects [of e B o1 c status f t L vb, unfolded t snd_conv]
  show ?case
  proof (cases y)
    case (Die d)
    with Cons.prems t have "e \<in> set es1 \<or> e = Notify (Some d)" by auto
    then show ?thesis using now t Die by auto
  next
    case (Again st)
    with Cons.prems t have "e \<in> set es1 \<or> e \<in> set (snd (snd (setter_loop B o1 cs st f1)))"
      by (auto split: prod.splits)
    moreover have "loop_calls L vb B o1 (c # cs) status f = turn_calls L vb B o1 c f @ loop_calls L vb B o1 cs st f1"
      using t Again by simp
    ultimately show ?thesis using now Cons.IH [of st f1] by auto
  qed
qed simp

text \<open>The numbers of the platform are distinct, and each call the setter needs has one.\<close>

definition numbers_ok :: "sbox_build \<Rightarrow> bool" where
  "numbers_ok S \<longleftrightarrow> (\<forall>c c' k. NR S c = Some k \<longrightarrow> NR S c' = Some k \<longrightarrow> c = c') \<and>
     (\<forall>c \<in> set ALLOWED - {''time''}. NR S c \<noteq> None)"

lemma map_of_zip_inj:
  assumes "distinct vs" and "map_of (zip ks vs) c = Some k" and "map_of (zip ks vs) c' = Some k"
  shows "c = c'"
proof -
  from assms(2,3) have "(c, k) \<in> set (zip ks vs)" "(c', k) \<in> set (zip ks vs)" by (simp_all add: map_of_SomeD)
  then show ?thesis using assms(1) by (auto simp: in_set_zip nth_eq_iff_index_eq)
qed

text \<open>A platform that numbers its calls in the order of the table.\<close>

definition sample_sbox :: sbox_build where
  "sample_sbox = \<lparr>SECCOMP_AUDIT_ARCH = 0xC000003E, SECCOMP_FILTER_DEBUG = False,
     NR = map_of (zip (ALLOWED @ DENIED) [0, 1, 2, 3, 4, 5, 6, 7, 8, 9, 10, 11, 12, 13, 14, 15, 16, 17, 18])\<rparr>"

lemma sample_sbox_ok: "numbers_ok sample_sbox"
  unfolding numbers_ok_def
proof (intro conjI allI impI ballI)
  fix c c' k
  assume "NR sample_sbox c = Some k" "NR sample_sbox c' = Some k"
  then show "c = c'" unfolding sample_sbox_def by (auto intro: map_of_zip_inj [rotated])
next
  fix c
  assume "c \<in> set ALLOWED - {''time''}"
  then show "NR sample_sbox c \<noteq> None" by (auto simp: sample_sbox_def ALLOWED_def DENIED_def)
qed

text \<open>Verdicts by name.\<close>

lemma sandbox_verdict_table:
  assumes "numbers_ok S" and "map_of verdicts call = Some v" and "NR S call = Some k"
  shows "sandbox_verdict S call = Some v"
proof -
  have "NR S c' = Some k \<Longrightarrow> c' = call" for c' using assms(1,3) by (auto simp: numbers_ok_def)
  then have "first_verdict S verdicts k = v" using assms(2,3) by (intro first_verdict_in)
  then show ?thesis using assms(3) setter_filter_table_run [of S] by (simp add: sandbox_verdict_def)
qed

lemma verdict_allowed: "call \<in> set ALLOWED \<Longrightarrow> map_of verdicts call = Some SECCOMP_RET_ALLOW"
  by (auto simp: verdicts_def map_add_def map_of_map_keys ALLOWED_def)

lemma verdict_denied: "call \<in> set DENIED \<Longrightarrow> map_of verdicts call = Some (SECCOMP_RET_ERRNO OR EINVAL)"
  by (auto simp: verdicts_def DENIED_def ALLOWED_def)

lemma allowed_verdict:
  assumes "numbers_ok S" and "call \<in> set ALLOWED - {''time''}"
  shows "sandbox_verdict S call = Some SECCOMP_RET_ALLOW"
proof -
  have "NR S call \<noteq> None" using assms unfolding numbers_ok_def by blast
  then obtain k where "NR S call = Some k" by blast
  then show ?thesis using assms sandbox_verdict_table verdict_allowed by blast
qed

lemma denied_verdict:
  assumes "numbers_ok S" and "call \<in> set DENIED"
  shows "sandbox_verdict S call \<in> {None, Some (SECCOMP_RET_ERRNO OR EINVAL)}"
proof (cases "NR S call")
  case None
  then show ?thesis by (simp add: sandbox_verdict_def)
next
  case (Some k)
  then show ?thesis using sandbox_verdict_table [OF assms(1) verdict_denied [OF assms(2)]] by blast
qed

lemma table_verdict:
  assumes "numbers_ok S" and "call \<in> set ALLOWED \<union> set DENIED"
  shows "sandbox_verdict S call \<in> {None, Some SECCOMP_RET_ALLOW, Some (SECCOMP_RET_ERRNO OR EINVAL)}"
proof (cases "call \<in> set DENIED")
  case True
  then show ?thesis using denied_verdict [OF assms(1)] by blast
next
  case False
  then have "call \<in> set ALLOWED" using assms(2) by blast
  then show ?thesis
    using sandbox_verdict_table [OF assms(1) verdict_allowed] by (cases "NR S call") (auto simp: sandbox_verdict_def)
qed

section \<open>Properties\<close>

text \<open>
  C17. The filter program implements its table: run on any system call, it always reaches a verdict;
  a call of another architecture gets the fatal one, and otherwise the verdict is the one of the
  first entry of the table with this number, fatal when there is none. A call is let through only
  if it has the number of one of the eleven allowed calls.
\<close>

theorem setter_filter_table:
  "bpf_run (setter_insns S) d 0 =
     Some (if sd_arch d = SECCOMP_AUDIT_ARCH S then first_verdict S verdicts (sd_nr d) else SECCOMP_FILTER_FAIL S) \<and>
   (bpf_run (setter_insns S) d 0 = Some SECCOMP_RET_ALLOW \<longrightarrow>
     sd_arch d = SECCOMP_AUDIT_ARCH S \<and> (\<exists>c \<in> set ALLOWED. NR S c = Some (sd_nr d)))"
proof -
  have "(c, SECCOMP_RET_ALLOW) \<in> set verdicts \<Longrightarrow> c \<in> set ALLOWED" for c
    by (auto simp: verdicts_def SECCOMP_RET_ALLOW_def SECCOMP_RET_ERRNO_def EINVAL_def)
  moreover have "SECCOMP_FILTER_FAIL S \<noteq> SECCOMP_RET_ALLOW"
    by (simp add: SECCOMP_FILTER_FAIL_def SECCOMP_RET_KILL_def SECCOMP_RET_TRAP_def SECCOMP_RET_ALLOW_def)
  ultimately show ?thesis
    using setter_filter_table_run [of S d] first_verdict_allow [of S verdicts "sd_nr d"] by auto
qed

theorem setter_filter_table_witness:
  "bpf_run (setter_insns sample_sbox) \<lparr>sd_nr = 0, sd_arch = 0xC000003E\<rparr> 0 = Some SECCOMP_RET_ALLOW \<and>
   (\<exists>c \<in> set ALLOWED. NR sample_sbox c = Some 0) \<and>
   bpf_run (setter_insns sample_sbox) \<lparr>sd_nr = 59, sd_arch = 0xC000003E\<rparr> 0 = Some SECCOMP_RET_KILL"
proof -
  have "first_verdict sample_sbox verdicts 0 = SECCOMP_RET_ALLOW" "first_verdict sample_sbox verdicts 59 = SECCOMP_RET_KILL"
    "SECCOMP_AUDIT_ARCH sample_sbox = 0xC000003E"
    by (simp_all add: sample_sbox_def verdicts_def ALLOWED_def DENIED_def SECCOMP_FILTER_FAIL_def)
  then show ?thesis
    using setter_filter_table [of sample_sbox "\<lparr>sd_nr = 0, sd_arch = 0xC000003E\<rparr>"]
      setter_filter_table [of sample_sbox "\<lparr>sd_nr = 59, sd_arch = 0xC000003E\<rparr>"]
    by simp
qed

text \<open>
  C18. What the sandbox does to its setter. Whatever messages the setter reads and whatever fails, on a
  platform with distinct numbers the filter lets through every system call between the entry into the
  sandbox and \<^verbatim>\<open>_exit\<close>, except calls outside the table of allowed ones that the C library makes for
  \<^verbatim>\<open>gmtime_r\<close>, \<^verbatim>\<open>strerror\<close> and the logging in \<^verbatim>\<open>rtc_write\<close>; these happen only when the hardware clock
  is kept in step, in no dry run and after the clock was set. The calls of the table of denied ones,
  among them \<^verbatim>\<open>open\<close>, \<^verbatim>\<open>socket\<close> and \<^verbatim>\<open>sendto\<close>, are refused with EINVAL, and no call of the setter is
  fatal if the library restricts itself to the two tables. The calls that set the clock, write the
  hardware clock and save the time are made, and so let through, whenever the setter does these
  things, and nothing but reading, writing, closing and ending is called unless some message
  carries a sane time.
\<close>

theorem setter_stays_in_sandbox:
  assumes "numbers_ok S" and "time_setter_coprocess B o1 saved (enable_setter_seccomp 0 0) cs = (x, f, es)"
    and "calls = confined_calls L vb B o1 saved (enable_setter_seccomp 0 0) cs"
  shows "(\<forall>call \<in> set calls. sandbox_verdict S call = Some SECCOMP_RET_ALLOW \<or>
            call \<in> set (libc_all L) - (set ALLOWED - {''time''}) \<and> should_sync_hwclock o1 \<and> \<not> dry_run o1 \<and>
              (\<exists>t. Set_Time t \<in> set es)) \<and>
         (\<forall>call \<in> set DENIED. sandbox_verdict S call \<in> {None, Some (SECCOMP_RET_ERRNO OR EINVAL)}) \<and>
         (set (libc_all L) \<subseteq> set ALLOWED \<union> set DENIED \<longrightarrow>
            (\<forall>call \<in> set calls. sandbox_verdict S call \<in> {None, Some SECCOMP_RET_ALLOW, Some (SECCOMP_RET_ERRNO OR EINVAL)})) \<and>
         (Set_Time t \<in> set es \<longrightarrow> ''settimeofday'' \<in> set calls) \<and> (Rtc_Write t \<in> set es \<longrightarrow> ''ioctl'' \<in> set calls) \<and>
         (Save_Time t \<in> set es \<longrightarrow> ''pwritev'' \<in> set calls) \<and>
         (\<not> set calls \<subseteq> {''read'', ''write'', ''close'', ''exit_group''} \<longrightarrow>
            \<not> dry_run o1 \<and> (\<exists>c \<in> set cs. \<exists>t. msg_time c = Some t \<and> is_sane_time B \<bar>t\<bar>))"
proof (cases "should_save_disk o1 \<and> \<not> dry_run o1 \<and> saved = None")
  case True
  then show ?thesis
    using assms(2,3) denied_verdict [OF assms(1)] by (auto simp: confined_calls_def time_setter_coprocess_def Let_def)
next
  case False
  define f0 where "f0 = (if should_save_disk o1 \<and> \<not> dry_run o1 then saved else None)"
  have es: "es = snd (snd (setter_loop B o1 cs None f0))"
    using assms(2) False by (auto simp: time_setter_coprocess_def enable_setter_seccomp_def Let_def f0_def)
  have calls: "calls = loop_calls L vb B o1 cs None f0"
    using assms(3) False by (auto simp: confined_calls_def enable_setter_seccomp_def Let_def f0_def)
  have verdict: "sandbox_verdict S call = Some SECCOMP_RET_ALLOW" if "call \<in> set ALLOWED - {''time''}" for call
    using assms(1) that by (rule allowed_verdict)
  have origin: "call \<in> set ALLOWED - {''time''} \<or>
      call \<in> set (libc_all L) \<and> should_sync_hwclock o1 \<and> \<not> dry_run o1 \<and> (\<exists>t. Set_Time t \<in> set es)"
    if "call \<in> set calls" for call using that loop_calls_from unfolding es calls by blast
  have "\<forall>call \<in> set calls. sandbox_verdict S call = Some SECCOMP_RET_ALLOW \<or>
      call \<in> set (libc_all L) - (set ALLOWED - {''time''}) \<and> should_sync_hwclock o1 \<and> \<not> dry_run o1 \<and>
        (\<exists>t. Set_Time t \<in> set es)"
    using origin verdict by blast
  moreover have "\<forall>call \<in> set DENIED. sandbox_verdict S call \<in> {None, Some (SECCOMP_RET_ERRNO OR EINVAL)}"
    using denied_verdict [OF assms(1)] by blast
  moreover have "\<forall>call \<in> set calls. sandbox_verdict S call \<in> {None, Some SECCOMP_RET_ALLOW, Some (SECCOMP_RET_ERRNO OR EINVAL)}"
    if "set (libc_all L) \<subseteq> set ALLOWED \<union> set DENIED"
    using origin that table_verdict [OF assms(1)] by blast
  moreover have "(Set_Time t \<in> set es \<longrightarrow> ''settimeofday'' \<in> set calls) \<and> (Rtc_Write t \<in> set es \<longrightarrow> ''ioctl'' \<in> set calls) \<and>
      (Save_Time t \<in> set es \<longrightarrow> ''pwritev'' \<in> set calls)"
    using loop_calls_effects unfolding es calls by blast
  moreover have "\<not> dry_run o1 \<and> (\<exists>c \<in> set cs. \<exists>t. msg_time c = Some t \<and> is_sane_time B \<bar>t\<bar>)"
    if "\<not> set calls \<subseteq> {''read'', ''write'', ''close'', ''exit_group''}"
    using that loop_calls_sane unfolding calls by blast
  ultimately show ?thesis by blast
qed

text \<open>A run that sets both clocks; the library then tries to reach the system log.\<close>

definition sample_libc :: libc_calls where
  "sample_libc = \<lparr>of_gmtime_r = [''open''], of_strerror = [], of_fprintf = [''write''], of_vsyslog = [''socket'', ''sendto'']\<rparr>"

theorem setter_stays_in_sandbox_witness:
  "\<exists>x f es. time_setter_coprocess sample_build (set_conf_defaults sample_build\<lparr>should_sync_hwclock := True\<rparr>) (Some [])
        (enable_setter_seccomp 0 0)
        [\<lparr>msg_read = Rd (time_bytes 1400000000), set_ok = True, rtc_ok = True, save_written = 8\<rparr>] = (x, f, es) \<and>
     Set_Time 1400000000 \<in> set es \<and>
     ''settimeofday'' \<in> set (confined_calls sample_libc False sample_build (set_conf_defaults sample_build\<lparr>should_sync_hwclock := True\<rparr>)
        (Some []) (enable_setter_seccomp 0 0)
        [\<lparr>msg_read = Rd (time_bytes 1400000000), set_ok = True, rtc_ok = True, save_written = 8\<rparr>]) \<and>
     sandbox_verdict sample_sbox ''settimeofday'' = Some SECCOMP_RET_ALLOW \<and>
     sandbox_verdict sample_sbox ''sendto'' \<in> {None, Some (SECCOMP_RET_ERRNO OR EINVAL)}"
proof -
  let ?cs = "[\<lparr>msg_read = Rd (time_bytes 1400000000), set_ok = True, rtc_ok = True, save_written = 8\<rparr>]"
  let ?o = "set_conf_defaults sample_build\<lparr>should_sync_hwclock := True\<rparr>"
  let ?r = "time_setter_coprocess sample_build ?o (Some []) (enable_setter_seccomp 0 0) ?cs"
  have set: "Set_Time 1400000000 \<in> set (snd (snd ?r))"
    by (simp add: enable_setter_seccomp_def time_setter_coprocess_def setter_turn_def set_sane_time_def bytes_time_of_bytes
        is_sane_time_def sample_build_def TLSDATED_MAX_DATE_def set_conf_defaults_def save_timestamp_to_fd_def
        file_write_def Let_def flip: length_0_conv)
  have r: "?r = (fst ?r, fst (snd ?r), snd (snd ?r))" by simp
  have "''settimeofday'' \<in> set ALLOWED - {''time''}" "''sendto'' \<in> set DENIED" by (simp_all add: ALLOWED_def DENIED_def)
  with set setter_stays_in_sandbox [OF sample_sbox_ok r refl, where t = 1400000000 and L = sample_libc and vb = False] r show ?thesis by blast
qed

end
