(* ===== verification/Rtc.thy ===== *)
theory Rtc
  imports Http_Date
begin

text \<open>
  The hardware clock and the way files are opened, the rest of \<^verbatim>\<open>struct platform\<close> in \<^verbatim>\<open>src/util.c\<close> that
  has logic of its own. The device is a register that keeps a broken-down time; whether an \<^verbatim>\<open>ioctl\<close>
  on it succeeds is an argument. \<^verbatim>\<open>gmtime_r\<close> and \<^verbatim>\<open>mktime\<close> of the C library are modelled on the
  calendar of \<open>Http_Date\<close>; the local time zone is the number of seconds it is ahead of UTC.
\<close>

section \<open>Broken-down time\<close>

record rtc_time =
  tm_sec :: int
  tm_min :: int
  tm_hour :: int
  tm_mday :: int
  tm_mon :: nat
  tm_year :: int
  tm_wday :: int
  tm_yday :: int
  tm_isdst :: int

text \<open>For times from 1970 on.\<close>

definition gmtime_r :: "time_t \<Rightarrow> rtc_time" where
  "gmtime_r t =
     (let days = t div 86400; secs = t mod 86400; (y, mon, d) = calendar_day (nat days)
      in \<lparr>tm_sec = secs mod 60, tm_min = secs div 60 mod 60, tm_hour = secs div 3600, tm_mday = d, tm_mon = mon,
          tm_year = y - 1900, tm_wday = (days + 4) mod 7, tm_yday = days - epoch_day y 0 1, tm_isdst = 0\<rparr>)"

definition mktime :: "int \<Rightarrow> rtc_time \<Rightarrow> time_t" where
  "mktime zone tm = timegm (tm_year tm) (tm_mon tm) (tm_mday tm) (tm_hour tm) (tm_min tm) (tm_sec tm) - zone"

section \<open>The hardware clock\<close>

record rtc_handle =
  rtc_fd :: int

text \<open>\<open>fd\<close> is what opening the device returns.\<close>

definition rtc_open :: "int \<Rightarrow> rtc_handle option \<Rightarrow> int \<times> rtc_handle option" where
  "rtc_open fd h =
     (case h of
        None \<Rightarrow> (-1, None)
      | Some h0 \<Rightarrow> if fd < 0 then (-1, Some (h0\<lparr>rtc_fd := fd\<rparr>)) else (0, Some (h0\<lparr>rtc_fd := fd\<rparr>)))"

definition rtc_write :: "bool \<Rightarrow> time_t \<Rightarrow> rtc_time \<Rightarrow> int \<times> rtc_time" where
  "rtc_write ioctl_ok tv_sec reg =
     (let tm = gmtime_r tv_sec;
          rtctm = \<lparr>tm_sec = tm_sec tm, tm_min = tm_min tm, tm_hour = tm_hour tm, tm_mday = tm_mday tm, tm_mon = tm_mon tm,
                   tm_year = tm_year tm, tm_wday = tm_wday tm, tm_yday = tm_yday tm, tm_isdst = tm_isdst tm\<rparr>
      in if \<not> ioctl_ok then (1, reg) else (0, rtctm))"

text \<open>The return value and the seconds of the time value, which stays as it is on a failure.\<close>

definition rtc_read :: "int \<Rightarrow> bool \<Rightarrow> rtc_time \<Rightarrow> time_t \<Rightarrow> int \<times> time_t" where
  "rtc_read zone ioctl_ok reg tv_sec =
     (if \<not> ioctl_ok then (1, tv_sec)
      else
        let tm = \<lparr>tm_sec = tm_sec reg, tm_min = tm_min reg, tm_hour = tm_hour reg, tm_mday = tm_mday reg, tm_mon = tm_mon reg,
                  tm_year = tm_year reg, tm_wday = tm_wday reg, tm_yday = tm_yday reg, tm_isdst = tm_isdst reg\<rparr>
        in (0, mktime zone tm))"

definition rtc_close :: "rtc_handle \<Rightarrow> int \<times> rtc_handle" where
  "rtc_close h = (0, h\<lparr>rtc_fd := -1\<rparr>)"

section \<open>Opening files\<close>

datatype oflag = O_RDONLY | O_WRONLY | O_CREAT | O_NOFOLLOW | O_TRUNC | O_CLOEXEC

text \<open>\<open>open_fd\<close> is the system call: a path and flags to a descriptor or -1.\<close>

definition file_open :: "(string \<Rightarrow> oflag set \<Rightarrow> int) \<Rightarrow> string \<Rightarrow> bool \<Rightarrow> bool \<Rightarrow> int" where
  "file_open open_fd path write cloexec =
     (let oflags = (if cloexec then {O_CLOEXEC} else {});
          fd = (if write then open_fd path (oflags \<union> {O_WRONLY, O_CREAT, O_NOFOLLOW, O_TRUNC})
                else open_fd path (oflags \<union> {O_RDONLY, O_NOFOLLOW}))
      in if fd < 0 then -1 else fd)"

section \<open>Facts\<close>

lemma day_seconds:
  fixes t :: int
  shows "86400 * (t div 86400) + 3600 * (t mod 86400 div 3600) + 60 * (t mod 86400 div 60 mod 60) + t mod 86400 mod 60 = t"
proof -
  define s where "s = t mod 86400"
  have "s div 3600 = s div 60 div 60" by (simp add: zdiv_zmult2_eq [symmetric])
  then have "3600 * (s div 3600) + 60 * (s div 60 mod 60) + s mod 60 = s"
    using mult_div_mod_eq [of 60 "s div 60"] mult_div_mod_eq [of 60 s] by linarith
  moreover have "t = 86400 * (t div 86400) + s" unfolding s_def by (rule mult_div_mod_eq [symmetric])
  ultimately show ?thesis unfolding s_def by linarith
qed

text \<open>\<^verbatim>\<open>timegm\<close> undoes \<^verbatim>\<open>gmtime_r\<close>.\<close>

lemma timegm_gmtime:
  assumes "0 \<le> t"
  shows "mktime zone (gmtime_r t) = t - zone"
proof -
  obtain y mon d where c: "calendar_day (nat (t div 86400)) = (y, mon, d)" by (metis prod_cases3)
  then have e: "epoch_day y mon d = t div 86400"
    using calendar_day_epoch [of "nat (t div 86400)"] assms by (simp add: pos_imp_zdiv_nonneg_iff)
  have "mktime zone (gmtime_r t) = 86400 * epoch_day y mon d + 3600 * (t mod 86400 div 3600) +
      60 * (t mod 86400 div 60 mod 60) + t mod 86400 mod 60 - zone"
    by (simp only: mktime_def gmtime_r_def Let_def c timegm_def prod.case rtc_time.simps diff_add_cancel)
  then show ?thesis unfolding e day_seconds .
qed

lemma gmtime_fields:
  assumes "0 \<le> t"
  shows "0 \<le> tm_sec (gmtime_r t) \<and> tm_sec (gmtime_r t) < 60 \<and> 0 \<le> tm_min (gmtime_r t) \<and> tm_min (gmtime_r t) < 60 \<and>
    0 \<le> tm_hour (gmtime_r t) \<and> tm_hour (gmtime_r t) < 24 \<and> tm_mon (gmtime_r t) < 12 \<and>
    1 \<le> tm_mday (gmtime_r t) \<and> tm_mday (gmtime_r t) \<le> month_days (tm_year (gmtime_r t) + 1900) (tm_mon (gmtime_r t)) \<and>
    70 \<le> tm_year (gmtime_r t)"
proof -
  obtain y mon d where c: "calendar_day (nat (t div 86400)) = (y, mon, d)" by (metis prod_cases3)
  then have "valid_date (y, mon, d)" using calendar_day_epoch [of "nat (t div 86400)"] by simp
  moreover have "0 \<le> t mod 86400" "t mod 86400 < 86400" by simp_all
  then have "t mod 86400 div 3600 < 24" "0 \<le> t mod 86400 div 3600"
    using zdiv_mono1 [of "t mod 86400" 86399 3600] by (auto simp: pos_imp_zdiv_nonneg_iff)
  ultimately show ?thesis by (simp add: gmtime_r_def Let_def c valid_date_def)
qed

section \<open>Properties\<close>

text \<open>
  C21. Setting the hardware clock stores the calendar date and time of day of the given time in UTC,
  with every field in its range; reading it back takes the same fields for local time. The round
  trip therefore returns the time that was set less the offset of the local time zone, and the
  time itself exactly when the zone is that of UTC.
\<close>

theorem rtc_roundtrip:
  assumes "0 \<le> t" and "rtc_write True t reg = (r, reg')" and "rtc_read zone True reg' tv = (r', t')"
  shows "r = 0 \<and> r' = 0 \<and> t' = t - zone \<and> (t' = t \<longleftrightarrow> zone = 0) \<and>
     tm_mon reg' < 12 \<and> 1 \<le> tm_mday reg' \<and> tm_mday reg' \<le> month_days (tm_year reg' + 1900) (tm_mon reg') \<and>
     0 \<le> tm_hour reg' \<and> tm_hour reg' < 24 \<and> 0 \<le> tm_min reg' \<and> tm_min reg' < 60 \<and> 0 \<le> tm_sec reg' \<and> tm_sec reg' < 60"
proof -
  have "reg' = gmtime_r t" "r = 0" "r' = 0" "t' = mktime zone reg'"
    using assms(2,3) by (auto simp: rtc_write_def rtc_read_def Let_def)
  then show ?thesis using timegm_gmtime [OF assms(1), of zone] gmtime_fields [OF assms(1)] by simp
qed

theorem rtc_roundtrip_witness:
  "rtc_read 3600 True (snd (rtc_write True 3487777 (gmtime_r 0))) 0 = (0, 3484177)"
  using rtc_roundtrip [OF _ surjective_pairing surjective_pairing, of 3487777 "gmtime_r 0" 3600 0] by (simp add: prod_eq_iff)

end
