(* ===== verification/Fmemopen.thy ===== *)
theory Fmemopen
  imports Conf
begin

text \<open>
  The two replacements of \<^verbatim>\<open>fmemopen\<close> that \<^verbatim>\<open>src/common\<close> holds for systems without it: \<^verbatim>\<open>fmemopen.c\<close>
  on the internals of a BSD \<^verbatim>\<open>FILE\<close> and \<^verbatim>\<open>fmemopen-funopen.c\<close> on \<^verbatim>\<open>funopen\<close>, with \<^verbatim>\<open>strnlen.c\<close> and
  \<^verbatim>\<open>android.c\<close>. A pointer into the buffer is an offset from its head. What both promise to a reader
  is the interface \<open>mem_file\<close>; the contents as a reader of any buffer size sees them are derived once
  inside it.
\<close>

section \<open>The BSD version\<close>

text \<open>\<open>m_buf\<close> is the memory from \<^verbatim>\<open>head\<close> to \<^verbatim>\<open>tail\<close>.\<close>

record fmemopen_cookie =
  m_buf :: string
  m_cur :: nat
  m_eob :: nat

text \<open>The assertions on the arguments: a positive count.\<close>

definition fmemopen_read :: "int \<Rightarrow> fmemopen_cookie \<Rightarrow> (int \<times> string \<times> fmemopen_cookie) result" where
  "fmemopen_read nbytes p =
     (if \<not> 0 < nbytes then Inl Abort
      else
        let s = m_cur p; len = min (length (m_buf p) - m_cur p) (nat nbytes);
            out = take len (drop (m_cur p) (m_buf p)); p' = p\<lparr>m_cur := m_cur p + len\<rparr>
        in Inr (int (m_cur p') - int s, out, p'))"

definition put_at :: "nat \<Rightarrow> string \<Rightarrow> string \<Rightarrow> string" where
  "put_at i new old = take i old @ new @ drop (i + length new) old"

definition fmemopen_write :: "string \<Rightarrow> fmemopen_cookie \<Rightarrow> (int \<times> fmemopen_cookie) result" where
  "fmemopen_write buf p =
     (if \<not> 0 < length buf then Inl Abort
      else if m_cur p \<ge> length (m_buf p) then Inr (0, p)
      else
        let s = m_cur p; tail = length (m_buf p); len = min (tail - s) (length buf);
            mem = put_at s (take len buf) (m_buf p); cur = s + (len - 1);
            (mem', cur') = (if cur = tail - 1
                            then (mem[cur := NUL], if buf ! (len - 1) = NUL then cur + 1 else cur)
                            else (mem[cur + 1 := NUL], cur + 1))
        in Inr (int cur' - int s, \<lparr>m_buf = mem', m_cur = cur', m_eob = (if cur' > m_eob p then cur' else m_eob p)\<rparr>))"

definition SEEK_SET :: int where "SEEK_SET = 0"
definition SEEK_CUR :: int where "SEEK_CUR = 1"
definition SEEK_END :: int where "SEEK_END = 2"

definition fmemopen_seek :: "int \<Rightarrow> int \<Rightarrow> fmemopen_cookie \<Rightarrow> int \<times> fmemopen_cookie" where
  "fmemopen_seek offset whence p =
     (let from = (if whence = SEEK_SET then Some offset
                  else if whence = SEEK_CUR then Some (offset + int (m_cur p))
                  else if whence = SEEK_END then Some (offset + int (m_eob p))
                  else None)
      in case from of
           None \<Rightarrow> (-1, p)
         | Some off \<Rightarrow> if 0 \<le> off \<and> off \<le> int (length (m_buf p)) then (off, p\<lparr>m_cur := nat off\<rparr>) else (-1, p))"

text \<open>
  What \<^verbatim>\<open>__sflags\<close> of the C library makes of the mode: whether the stream is for reading or for
  writing only, and the flags for opening.
\<close>

record sflags =
  SRD :: bool
  SWR :: bool
  OF_RDWR :: bool
  OF_TRUNC :: bool
  OF_APPEND :: bool

text \<open>A \<^verbatim>\<open>FILE\<close>: which callbacks are there, and the cookie.\<close>

record mem_FILE =
  can_write :: bool
  can_read :: bool
  f_cookie :: fmemopen_cookie

text \<open>
  \<open>parse\<close> is \<^verbatim>\<open>__sflags\<close>, \<open>alloc_ok\<close> says that the three allocations succeed and \<open>fresh\<close> is what a newly
  allocated buffer holds; a buffer of the caller is its contents, all \<open>sz\<close> bytes of it.
\<close>

definition fmemopen :: "(string \<Rightarrow> sflags option) \<Rightarrow> bool \<Rightarrow> (nat \<Rightarrow> string) \<Rightarrow> string option \<Rightarrow> nat \<Rightarrow> string \<Rightarrow> mem_FILE option" where
  "fmemopen parse alloc_ok fresh buf sz mode =
     (if sz < 1 then None
      else (case parse mode of
              None \<Rightarrow> None
            | Some fl \<Rightarrow>
                if \<not> OF_RDWR fl \<and> buf = None then None
                else if \<not> alloc_ok then None
                else
                  let mem = (case buf of
                               None \<Rightarrow> (fresh sz)[0 := NUL]
                             | Some b \<Rightarrow> if OF_TRUNC fl then (take sz b)[0 := NUL] else take sz b);
                      eob = length (takeWhile (\<lambda>c. c \<noteq> NUL) mem)
                  in Some \<lparr>can_write = \<not> SRD fl, can_read = \<not> SWR fl,
                           f_cookie = \<lparr>m_buf = mem, m_cur = (if OF_APPEND fl then eob else 0), m_eob = eob\<rparr>\<rparr>))"

section \<open>The version on funopen\<close>

record fmem_cookie =
  fmc_buffer :: string
  fmc_index :: nat
  fmc_limit :: nat

definition fmem_read :: "int \<Rightarrow> fmem_cookie \<Rightarrow> int \<times> string \<times> fmem_cookie" where
  "fmem_read n fmc =
     (if n < 0 then (-1, [], fmc)
      else let k = (if nat n > fmc_limit fmc - fmc_index fmc then fmc_limit fmc - fmc_index fmc else nat n)
           in (int k, take k (drop (fmc_index fmc) (fmc_buffer fmc)), fmc\<lparr>fmc_index := fmc_index fmc + k\<rparr>))"

definition fmem_write :: "string \<Rightarrow> fmem_cookie \<Rightarrow> int \<times> fmem_cookie" where
  "fmem_write buffer fmc =
     (let n = length buffer;
          k = (if n > fmc_limit fmc - fmc_index fmc then fmc_limit fmc - fmc_index fmc else n)
      in (int k, fmc\<lparr>fmc_buffer := put_at (fmc_index fmc) (take k buffer) (fmc_buffer fmc), fmc_index := fmc_index fmc + k\<rparr>))"

definition fmem_seek :: "int \<Rightarrow> int \<Rightarrow> fmem_cookie \<Rightarrow> int \<times> fmem_cookie" where
  "fmem_seek offset cmd fmc =
     (if cmd = SEEK_SET then
        (if offset < 0 \<or> int (fmc_limit fmc) < offset then (-1, fmc) else (0, fmc\<lparr>fmc_index := nat offset\<rparr>))
      else if cmd = SEEK_CUR then
        (if offset < 0 then
           (if offset = -1 \<or> - offset > int (fmc_index fmc) then (-1, fmc)
            else (0, fmc\<lparr>fmc_index := nat (int (fmc_index fmc) + offset)\<rparr>))
         else if offset > int (fmc_limit fmc - fmc_index fmc) then (-1, fmc)
         else (0, fmc\<lparr>fmc_index := nat (int (fmc_index fmc) + offset)\<rparr>))
      else if cmd = SEEK_END then
        (if 0 \<le> offset \<or> offset = -1 \<or> int (fmc_limit fmc) < - offset then (-1, fmc)
         else (0, fmc\<lparr>fmc_index := nat (int (fmc_limit fmc) + offset)\<rparr>))
      else (-1, fmc))"

text \<open>The mode is not looked at. \<open>alloc_ok\<close>: \<^verbatim>\<open>malloc\<close> and \<^verbatim>\<open>funopen\<close> succeed.\<close>

definition fmemopen_funopen :: "bool \<Rightarrow> string \<Rightarrow> nat \<Rightarrow> string \<Rightarrow> fmem_cookie option" where
  "fmemopen_funopen alloc_ok buffer len mode =
     (if \<not> alloc_ok then None else Some \<lparr>fmc_buffer = buffer, fmc_index = 0, fmc_limit = len\<rparr>)"

section \<open>String functions\<close>

text \<open>The loop of \<^verbatim>\<open>strnlen\<close> over the bytes at \<open>s\<close>, which end with a NUL or go on to the limit.\<close>

fun strnlen_loop :: "string \<Rightarrow> nat \<Rightarrow> nat \<Rightarrow> nat" where
  "strnlen_loop s 0 len = len"
| "strnlen_loop [] (Suc room) len = len"
| "strnlen_loop (c # s) (Suc room) len = (if c = NUL then len else strnlen_loop s room (len + 1))"

definition c_strnlen :: "string \<Rightarrow> nat \<Rightarrow> nat" where
  "c_strnlen s limit = strnlen_loop s limit 0"

text \<open>The string from the first occurrence on, or its end.\<close>

definition strchrnul :: "string \<Rightarrow> char \<Rightarrow> string" where
  "strchrnul s c = (if c \<in> set s then dropWhile (\<lambda>x. x \<noteq> c) s else drop (length s) s)"

definition android_MIN :: "int \<Rightarrow> int \<Rightarrow> int" where
  "android_MIN a b = (if a < b then a else b)"

section \<open>The interface of a file in memory\<close>

text \<open>
  What a reader relies on: a read for a positive count returns the next bytes, as many as asked for
  or as there are, and moves on behind them.
\<close>

locale mem_file =
  fixes rd :: "nat \<Rightarrow> 'c \<Rightarrow> string \<times> 'c" and contents :: "'c \<Rightarrow> string" and pos :: "'c \<Rightarrow> nat" and ok :: "'c \<Rightarrow> bool"
  assumes rd_data: "ok f \<Longrightarrow> 0 < n \<Longrightarrow> fst (rd n f) = take n (drop (pos f) (contents f))"
    and rd_contents: "ok f \<Longrightarrow> 0 < n \<Longrightarrow> contents (snd (rd n f)) = contents f"
    and rd_pos: "ok f \<Longrightarrow> 0 < n \<Longrightarrow> pos (snd (rd n f)) = pos f + min n (length (contents f) - pos f)"
    and rd_ok: "ok f \<Longrightarrow> 0 < n \<Longrightarrow> ok (snd (rd n f))"

text \<open>Reading up to the end with a buffer of \<open>n\<close> bytes, a unit of fuel per read.\<close>

fun read_to_end :: "(nat \<Rightarrow> 'c \<Rightarrow> string \<times> 'c) \<Rightarrow> nat \<Rightarrow> nat \<Rightarrow> 'c \<Rightarrow> string option" where
  "read_to_end rd n 0 f = None"
| "read_to_end rd n (Suc fuel) f =
     (let (bs, f') = rd n f in if bs = [] then Some [] else map_option (\<lambda>rest. bs @ rest) (read_to_end rd n fuel f'))"

context mem_file
begin

lemma read_to_end_contents:
  assumes "ok f" and "0 < n" and "length (contents f) - pos f < fuel"
  shows "read_to_end rd n fuel f = Some (drop (pos f) (contents f))"
  using assms
proof (induction fuel arbitrary: f)
  case (Suc fuel)
  obtain bs f' where r: "rd n f = (bs, f')" by force
  with Suc.prems have bs: "bs = take n (drop (pos f) (contents f))" and f': "contents f' = contents f"
      "pos f' = pos f + min n (length (contents f) - pos f)" "ok f'"
    using rd_data [of f n] rd_contents [of f n] rd_pos [of f n] rd_ok [of f n] by simp_all
  show ?case
  proof (cases "bs = []")
    case True
    then show ?thesis using bs r Suc.prems(2) by auto
  next
    case False
    then have lt: "pos f < length (contents f)" using bs by auto
    then have "read_to_end rd n fuel f' = Some (drop (pos f') (contents f))"
      using Suc.IH [of f'] Suc.prems f' by auto
    moreover have "bs @ drop (pos f') (contents f) = drop (pos f) (contents f)"
    proof (cases "n \<le> length (contents f) - pos f")
      case True
      then have "pos f' = n + pos f" using f'(2) by simp
      then show ?thesis using bs append_take_drop_id [of n "drop (pos f) (contents f)"] by (simp add: drop_drop)
    next
      case False
      then show ?thesis using bs f'(2) lt by simp
    qed
    ultimately show ?thesis using r False by simp
  qed
qed simp

end

section \<open>Both versions provide it\<close>

definition cookie_ok :: "fmemopen_cookie \<Rightarrow> bool" where
  "cookie_ok p \<longleftrightarrow> m_cur p \<le> length (m_buf p) \<and> m_eob p \<le> length (m_buf p)"

definition fmem_ok :: "fmem_cookie \<Rightarrow> bool" where
  "fmem_ok f \<longleftrightarrow> fmc_index f \<le> fmc_limit f \<and> fmc_limit f = length (fmc_buffer f)"

text \<open>The read callbacks, on a count that passes the assertion.\<close>

definition bsd_rd :: "nat \<Rightarrow> fmemopen_cookie \<Rightarrow> string \<times> fmemopen_cookie" where
  "bsd_rd n p = (case fmemopen_read (int n) p of Inr (_, bs, p') \<Rightarrow> (bs, p') | Inl _ \<Rightarrow> ([], p))"

definition fun_rd :: "nat \<Rightarrow> fmem_cookie \<Rightarrow> string \<times> fmem_cookie" where
  "fun_rd n f = (case fmem_read (int n) f of (_, bs, f') \<Rightarrow> (bs, f'))"

lemma take_min_rest: "take (min n (length xs - k)) (drop k xs) = take n (drop k xs)"
  by (simp flip: take_take)

lemma bsd_rd_eq: "0 < n \<Longrightarrow> bsd_rd n p =
    (take n (drop (m_cur p) (m_buf p)), p\<lparr>m_cur := m_cur p + min n (length (m_buf p) - m_cur p)\<rparr>)"
  by (simp add: bsd_rd_def fmemopen_read_def Let_def min.commute take_min_rest)

interpretation bsd: mem_file bsd_rd m_buf m_cur cookie_ok
  by unfold_locales (auto simp: bsd_rd_eq cookie_ok_def)

lemma fun_rd_eq: "fmem_ok f \<Longrightarrow> fun_rd n f =
    (take n (drop (fmc_index f) (fmc_buffer f)), f\<lparr>fmc_index := fmc_index f + min n (length (fmc_buffer f) - fmc_index f)\<rparr>)"
  by (simp add: fun_rd_def fmem_read_def fmem_ok_def Let_def min_def)

interpretation funopen: mem_file fun_rd fmc_buffer fmc_index fmem_ok
  by unfold_locales (auto simp: fun_rd_eq fmem_ok_def)

section \<open>Facts\<close>

lemma length_put_at [simp]: "i + length new \<le> length old \<Longrightarrow> length (put_at i new old) = length old"
  by (simp add: put_at_def)

lemma put_at_read: "i \<le> length old \<Longrightarrow> take (length new) (drop i (put_at i new old)) = new"
  by (simp add: put_at_def)

lemma put_at_set_next:
  assumes "i + length new < length old"
  shows "(put_at i new old)[i + length new := c] = put_at i (new @ [c]) old"
proof -
  have "(put_at i new old)[i + length new := c] = take i old @ new @ (drop (i + length new) old)[0 := c]"
    using assms by (simp add: put_at_def list_update_append)
  moreover have "(drop (i + length new) old)[0 := c] = c # drop (Suc (i + length new)) old"
    using assms by (simp add: Cons_nth_drop_Suc [symmetric])
  ultimately show ?thesis by (simp add: put_at_def)
qed

lemma put_at_set_last:
  assumes "new \<noteq> []" and "i + length new \<le> length old"
  shows "(put_at i new old)[i + (length new - 1) := c] = put_at i (butlast new @ [c]) old"
proof -
  obtain xs x where "new = xs @ [x]" using assms(1) by (metis rev_exhaust)
  then show ?thesis using assms(2) by (simp add: put_at_def list_update_append)
qed

text \<open>A write into a buffer that has room for it and a NUL, and one that reaches the end.\<close>

lemma fmemopen_write_fits:
  assumes "buf \<noteq> []" and "m_cur p + length buf < length (m_buf p)"
  shows "fmemopen_write buf p = Inr (int (length buf),
     \<lparr>m_buf = put_at (m_cur p) (buf @ [NUL]) (m_buf p), m_cur = m_cur p + length buf, m_eob = max (m_eob p) (m_cur p + length buf)\<rparr>)"
proof -
  have len: "min (length (m_buf p) - m_cur p) (length buf) = length buf" using assms(2) by simp
  obtain k where k: "length buf = Suc k" using assms(1) by (cases buf) auto
  then have ne: "m_cur p + k \<noteq> length (m_buf p) - 1" "\<not> m_cur p \<ge> length (m_buf p)" using assms(2) by arith+
  have "(put_at (m_cur p) buf (m_buf p))[Suc (m_cur p + k) := NUL] = put_at (m_cur p) (buf @ [NUL]) (m_buf p)"
    using put_at_set_next [OF assms(2), of NUL] k by simp
  then show ?thesis
    using ne len k by (simp add: fmemopen_write_def Let_def max_def)
qed

lemma fmemopen_write_full:
  assumes "m_cur p < length (m_buf p)" and "length (m_buf p) - m_cur p = room" and "room \<le> length buf"
    and "r = (if buf ! (room - 1) = NUL then room else room - 1)"
  shows "fmemopen_write buf p = Inr (int r,
     \<lparr>m_buf = put_at (m_cur p) (take (room - 1) buf @ [NUL]) (m_buf p), m_cur = m_cur p + r, m_eob = max (m_eob p) (m_cur p + r)\<rparr>)"
proof -
  obtain k where k: "room = Suc k" using assms(1,2) by (cases room) auto
  then have L: "length (m_buf p) = m_cur p + Suc k" using assms(1,2) by simp
  have l: "length (take room buf) = Suc k" using assms(3) k by simp
  then have "take room buf \<noteq> []" by auto
  from put_at_set_last [OF this, of "m_cur p" "m_buf p" NUL]
  have "(put_at (m_cur p) (take (Suc k) buf) (m_buf p))[m_cur p + k := NUL] = put_at (m_cur p) (take k buf @ [NUL]) (m_buf p)"
    using L l k assms(3) by (simp add: butlast_take)
  moreover have "min (Suc k) (length buf) = Suc k" "buf \<noteq> []" using assms(3) k by auto
  ultimately show ?thesis
    unfolding assms(4) by (simp add: fmemopen_write_def Let_def L k max_def)
qed

lemma fmemopen_write_shape:
  assumes "cookie_ok p" and "fmemopen_write buf p = Inr (r, p')"
  shows "cookie_ok p' \<and> length (m_buf p') = length (m_buf p) \<and> 0 \<le> r \<and> r = int (m_cur p') - int (m_cur p) \<and> r \<le> int (length buf)"
proof -
  consider "buf = []" | "buf \<noteq> []" "length (m_buf p) \<le> m_cur p" | "buf \<noteq> []" "m_cur p + length buf < length (m_buf p)"
    | room where "m_cur p < length (m_buf p)" "length (m_buf p) - m_cur p = room" "room \<le> length buf"
    by (cases "buf = []"; cases "length (m_buf p) \<le> m_cur p"; cases "m_cur p + length buf < length (m_buf p)") auto
  then show ?thesis
  proof cases
    case 1
    then show ?thesis using assms(2) by (simp add: fmemopen_write_def)
  next
    case 2
    then show ?thesis using assms by (simp add: fmemopen_write_def)
  next
    case 3
    then show ?thesis using assms fmemopen_write_fits [OF 3] by (auto simp: cookie_ok_def)
  next
    case (4 room)
    define k where "k = (if buf ! (room - 1) = NUL then room else room - 1)"
    have "k \<le> room" by (simp add: k_def)
    then show ?thesis using assms fmemopen_write_full [OF 4 k_def] 4 by (auto simp: cookie_ok_def)
  qed
qed

lemma fmemopen_read_shape:
  assumes "cookie_ok p" and "fmemopen_read n p = Inr (r, bs, p')"
  shows "cookie_ok p' \<and> m_buf p' = m_buf p \<and> r = int (length bs) \<and> r \<le> n"
  using assms by (auto simp: fmemopen_read_def cookie_ok_def Let_def min_def split: if_splits)

lemma fmemopen_seek_shape:
  assumes "cookie_ok p" and "fmemopen_seek off whence p = (r, p')"
  shows "cookie_ok p' \<and> m_buf p' = m_buf p \<and> (r = -1 \<and> p' = p \<or> r = int (m_cur p'))"
  using assms by (auto simp: fmemopen_seek_def cookie_ok_def Let_def split: option.splits if_splits)

lemma end_of_buffer:
  "cookie_ok \<lparr>m_buf = mem, m_cur = length (takeWhile P mem), m_eob = length (takeWhile P mem)\<rparr>"
  "cookie_ok \<lparr>m_buf = mem, m_cur = 0, m_eob = length (takeWhile P mem)\<rparr>"
  by (simp_all add: cookie_ok_def length_takeWhile_le)

lemma fmemopen_ok: "fmemopen parse alloc_ok fresh buf sz mode = Some F \<Longrightarrow> cookie_ok (f_cookie F)"
  by (auto simp: fmemopen_def Let_def end_of_buffer split: option.splits if_splits)

lemma c_strnlen_loop: "NUL \<notin> set s \<Longrightarrow> strnlen_loop s room len = len + min (length s) room"
  by (induction s room len rule: strnlen_loop.induct) auto

text \<open>\<^verbatim>\<open>strnlen.c\<close> computes what the other theories assume of the library function.\<close>

lemma c_strnlen_eq: "NUL \<notin> set s \<Longrightarrow> c_strnlen s limit = strnlen s limit"
  by (simp add: c_strnlen_def c_strnlen_loop strnlen_def)

section \<open>Properties\<close>

text \<open>
  C19. The cookie of a memory file is well formed from its creation on: position and end of the data
  never leave the buffer, whose size never changes, under any read, write or seek, for any
  arguments; the counts returned are the distance moved and never more than was asked for.
\<close>

theorem fmemopen_well_formed:
  assumes "cookie_ok p"
  shows "(\<forall>F. fmemopen parse alloc_ok fresh buf0 sz mode = Some F \<longrightarrow> cookie_ok (f_cookie F)) \<and>
     (\<forall>r bs p'. fmemopen_read n p = Inr (r, bs, p') \<longrightarrow> cookie_ok p' \<and> m_buf p' = m_buf p \<and> r = int (length bs) \<and> r \<le> n) \<and>
     (\<forall>r p'. fmemopen_write buf p = Inr (r, p') \<longrightarrow> cookie_ok p' \<and> length (m_buf p') = length (m_buf p) \<and>
        r = int (m_cur p') - int (m_cur p) \<and> 0 \<le> r \<and> r \<le> int (length buf)) \<and>
     (\<forall>r p'. fmemopen_seek off whence p = (r, p') \<longrightarrow> cookie_ok p' \<and> m_buf p' = m_buf p \<and> (r = -1 \<and> p' = p \<or> r = int (m_cur p')))"
  using fmemopen_ok fmemopen_read_shape [OF assms] fmemopen_write_shape [OF assms] fmemopen_seek_shape [OF assms] by blast

definition sample_cookie :: fmemopen_cookie where
  "sample_cookie = \<lparr>m_buf = ''abcdefgh'', m_cur = 2, m_eob = 8\<rparr>"

theorem fmemopen_well_formed_witness:
  "\<exists>r p'. fmemopen_write ''xyz'' sample_cookie = Inr (r, p') \<and> cookie_ok p' \<and> length (m_buf p') = 8 \<and> r = 3"
proof -
  have w: "fmemopen_write ''xyz'' sample_cookie = Inr (3, \<lparr>m_buf = ''abxyz'' @ [NUL] @ ''gh'', m_cur = 5, m_eob = 8\<rparr>)" by code_simp
  have "cookie_ok sample_cookie" "length (m_buf sample_cookie) = 8" by (simp_all add: cookie_ok_def sample_cookie_def)
  with fmemopen_well_formed [of sample_cookie _ _ _ _ _ _ _ "''xyz''"] w show ?thesis by (metis (no_types, lifting))
qed

text \<open>
  What is written to a memory file is read back: a text without NUL that leaves a byte of room
  is stored in full with a NUL behind it and nothing else is touched; from its position it can be
  read again. A longer text is cut: its last byte in the buffer is replaced by NUL and not
  counted.
\<close>

theorem fmemopen_write_read:
  assumes "cookie_ok p" and "m_cur p < length (m_buf p)" and "buf \<noteq> []" and "NUL \<notin> set buf"
    and "room = length (m_buf p) - m_cur p" and "k = min (length buf) (room - 1)"
  shows "\<exists>p1. fmemopen_write buf p = Inr (int k, p1) \<and> m_buf p1 = put_at (m_cur p) (take k buf @ [NUL]) (m_buf p) \<and>
     (\<exists>p2. fmemopen_seek (int (m_cur p)) SEEK_SET p1 = (int (m_cur p), p2) \<and>
        (0 < k \<longrightarrow> (\<exists>p3. fmemopen_read (int k) p2 = Inr (int k, take k buf, p3))))"
proof -
  have "\<exists>p1. fmemopen_write buf p = Inr (int k, p1) \<and> m_buf p1 = put_at (m_cur p) (take k buf @ [NUL]) (m_buf p)"
  proof (cases "length buf < room")
    case True
    then show ?thesis using fmemopen_write_fits [OF assms(3), of p] assms(5,6) by (auto simp: min_def)
  next
    case False
    then have "buf ! (room - 1) \<noteq> NUL" using assms(2,4,5) by (metis diff_less less_le_trans linorder_not_less nth_mem zero_less_diff zero_less_one)
    moreover have "k = room - 1" unfolding assms(6) using False assms(2,5) by arith
    ultimately show ?thesis
      using fmemopen_write_full [OF assms(2) assms(5) [symmetric] _ refl, of buf] False by auto
  qed
  then obtain p1 where p1: "fmemopen_write buf p = Inr (int k, p1)" "m_buf p1 = put_at (m_cur p) (take k buf @ [NUL]) (m_buf p)"
    by blast
  have k: "length (take k buf) = k" "m_cur p + k < length (m_buf p)" using assms(2,5,6) by auto
  then have len: "length (m_buf p1) = length (m_buf p)" using p1(2) by simp
  define p2 where "p2 = p1\<lparr>m_cur := m_cur p\<rparr>"
  have "fmemopen_seek (int (m_cur p)) SEEK_SET p1 = (int (m_cur p), p2)"
    using len assms(2) by (simp add: fmemopen_seek_def SEEK_SET_def p2_def)
  moreover have "take k (drop (m_cur p) (m_buf p1)) = take k buf"
    using put_at_read [of "m_cur p" "m_buf p" "take k buf @ [NUL]"] assms(2) k(1) p1(2) by (simp add: put_at_def)
  then have "0 < k \<longrightarrow> fmemopen_read (int k) p2 = Inr (int k, take k buf, p2\<lparr>m_cur := m_cur p + k\<rparr>)"
    using len k(2) by (simp add: fmemopen_read_def p2_def Let_def)
  ultimately show ?thesis using p1 by blast
qed

theorem fmemopen_write_read_witness:
  "\<exists>p1. fmemopen_write ''xyz'' sample_cookie = Inr (3, p1) \<and> m_buf p1 = ''abxyz'' @ [NUL] @ ''gh''"
proof -
  have c: "cookie_ok sample_cookie" "m_cur sample_cookie < length (m_buf sample_cookie)" "''xyz'' \<noteq> []" "NUL \<notin> set ''xyz''"
    "6 = length (m_buf sample_cookie) - m_cur sample_cookie" "3 = min (length ''xyz'') (6 - 1)"
    by (simp_all add: cookie_ok_def sample_cookie_def NUL_def)
  have "put_at (m_cur sample_cookie) (take 3 ''xyz'' @ [NUL]) (m_buf sample_cookie) = ''abxyz'' @ [NUL] @ ''gh''" by code_simp
  with fmemopen_write_read [OF c] show ?thesis by (metis of_nat_numeral)
qed

text \<open>
  Both replacements of \<^verbatim>\<open>fmemopen\<close> present a string as a file with exactly its characters: opened
  for reading over all of the string, whatever the size of the reader's buffer, reading to the
  end yields the string, and so the configuration parser sees the same entries through either.
\<close>

theorem memory_file_contents:
  assumes "parse mode = Some fl" and "\<not> OF_TRUNC fl" and "\<not> OF_APPEND fl" and "\<not> SWR fl"
    and "s \<noteq> []" and "0 < n" and "length s < fuel"
  shows "\<exists>F f. fmemopen parse True fresh (Some s) (length s) mode = Some F \<and> can_read F \<and>
     fmemopen_funopen True s (length s) mode = Some f \<and>
     read_to_end bsd_rd n fuel (f_cookie F) = Some s \<and> read_to_end fun_rd n fuel f = Some s \<and>
     map_option (conf_parse alloc) (read_to_end bsd_rd n fuel (f_cookie F)) = map_option (conf_parse alloc) (read_to_end fun_rd n fuel f)"
proof -
  obtain F where F: "fmemopen parse True fresh (Some s) (length s) mode = Some F" "can_read F"
      "m_buf (f_cookie F) = s" "m_cur (f_cookie F) = 0"
    using assms(1-5) by (cases s) (auto simp: fmemopen_def Let_def)
  define f where "f = \<lparr>fmc_buffer = s, fmc_index = 0, fmc_limit = length s\<rparr>"
  have "read_to_end bsd_rd n fuel (f_cookie F) = Some s"
    using bsd.read_to_end_contents [OF fmemopen_ok [OF F(1)] assms(6)] F(3,4) assms(7) by simp
  moreover have "read_to_end fun_rd n fuel f = Some s"
    using funopen.read_to_end_contents [of f n fuel] assms(6,7) by (simp add: f_def fmem_ok_def)
  moreover have "fmemopen_funopen True s (length s) mode = Some f" by (simp add: fmemopen_funopen_def f_def)
  ultimately show ?thesis using F(1,2) by auto
qed

definition read_only_flags :: sflags where
  "read_only_flags = \<lparr>SRD = True, SWR = False, OF_RDWR = False, OF_TRUNC = False, OF_APPEND = False\<rparr>"

theorem memory_file_contents_witness:
  "\<exists>F f. fmemopen (\<lambda>m. if m = ''r'' then Some read_only_flags else None) True (\<lambda>n. replicate n NUL) (Some ''host a'') (length ''host a'') ''r'' = Some F \<and>
     read_to_end bsd_rd 4 7 (f_cookie F) = Some ''host a'' \<and> fmemopen_funopen True ''host a'' (length ''host a'') ''r'' = Some f"
  using memory_file_contents [of "\<lambda>m. if m = ''r'' then Some read_only_flags else None" "''r''" read_only_flags "''host a''" 4 7
      "\<lambda>n. replicate n NUL" "\<lambda>_. True"]
  by (auto simp: read_only_flags_def)

text \<open>
  The version on \<^verbatim>\<open>funopen\<close> refuses to step back by one byte and to go to the end, and reports the
  position 0 after every seek.
\<close>

lemma fmem_seek_refusals:
  "fst (fmem_seek (-1) SEEK_CUR f) = -1" "fst (fmem_seek 0 SEEK_END f) = -1" "fst (fmem_seek off cmd f) \<in> {-1, 0}"
  by (simp_all add: fmem_seek_def SEEK_CUR_def SEEK_END_def SEEK_SET_def)

end
