(* ===== verification/Proxy_Plan9.thy ===== *)
theory Proxy_Plan9
  imports Proxy_Bio
begin

text \<open>
  The proxy filter of the Plan 9 port, \<^verbatim>\<open>src/proxy-bio-plan9.c\<close>. It is a copy of \<^verbatim>\<open>src/proxy-bio.c\<close> for a
  library without \<^verbatim>\<open>strnlen\<close>; the checks on the length of the host are made with \<^verbatim>\<open>strlen\<close> instead and
  test for one length only. Since longer hosts get through, writing behind the end of a packet buffer
  is a behaviour of this version: it is \<open>Abort\<close> here. The functions that are the same in both
  files are those of \<open>Proxy_Bio\<close>.
\<close>

definition plan9_set_host :: "string \<Rightarrow> proxy_ctx \<Rightarrow> int \<times> proxy_ctx" where
  "plan9_set_host host ctx = (if length host = NI_MAXHOST then (1, ctx) else (0, ctx\<lparr>p_host := Some host\<rparr>))"

definition plan9_socks4a_connect :: "'b bio_ops \<Rightarrow> string \<Rightarrow> proxy_ctx \<Rightarrow> 'b \<Rightarrow> (int \<times> proxy_ctx \<times> 'b) result" where
  "plan9_socks4a_connect ops host ctx b =
     (let buf = [0x04, 0x01] @ port_n (p_port ctx) @ [0x00, 0x00, 0x00, 0x01] @ [0x00] @ bytes_of host @ [0x00]
      in if length buf > PACKET_SIZE then Inl Abort
         else
           let (r, b1) = BIO_write ops buf b
           in if r = -1 then Inr (-1, ctx, b1)
              else if r \<noteq> int (length buf) then Inr (0, ctx, b1)
              else
                let (rd, b2) = BIO_read ops 8 b1
                in if read_ret rd = -1 then Inr (-1, ctx, b2)
                   else if read_ret rd \<noteq> 8 then Inr (0, ctx, b2)
                   else if read_data rd ! 1 = 0x5a then Inr (1, ctx\<lparr>p_connected := True\<rparr>, b2)
                   else Inr (0, ctx, b2))"

definition plan9_socks5_connect :: "'b bio_ops \<Rightarrow> string \<Rightarrow> proxy_ctx \<Rightarrow> 'b \<Rightarrow> (int \<times> proxy_ctx \<times> 'b) result" where
  "plan9_socks5_connect ops host ctx b =
     (if length host = 256 then Inr (0, ctx, b)
      else
        let (r, b1) = BIO_write ops [0x05, 0x01, 0x00] b
        in if r \<noteq> 3 then Inr (0, ctx, b1)
           else let (rd, b2) = BIO_read ops 2 b1
           in if read_ret rd \<noteq> 2 then Inr (0, ctx, b2)
           else if read_data rd ! 0 \<noteq> 0x05 \<or> read_data rd ! 1 \<noteq> 0x00 then Inr (0, ctx, b2)
           else let buf = [0x05, 0x01, 0x00, 0x03, word_of_nat (length host)] @ bytes_of host @ port_n (p_port ctx)
           in if length buf > PACKET_SIZE then Inl Abort
           else let (r, b3) = BIO_write ops buf b2
           in if r = -1 then Inr (-1, ctx, b3)
           else if r \<noteq> int (length buf) then Inr (0, ctx, b3)
           else let (rd, b4) = BIO_read ops 4 b3
           in if read_ret rd = -1 then Inr (-1, ctx, b4)
           else if read_ret rd \<noteq> 4 then Inr (0, ctx, b4)
           else if read_data rd ! 0 \<noteq> 0x05 \<or> read_data rd ! 1 \<noteq> 0x00 then Inr (0, ctx, b4)
           else let (ok, b5) = socks5_address ops (read_data rd ! 3) b4
           in if \<not> ok then Inr (0, ctx, b5) else Inr (1, ctx\<lparr>p_connected := True\<rparr>, b5))"

definition plan9_proxy_connect :: "'b bio_ops \<Rightarrow> nat \<Rightarrow> proxy_ctx \<Rightarrow> 'b \<Rightarrow> (int \<times> proxy_ctx \<times> 'b) option result" where
  "plan9_proxy_connect ops fuel ctx b =
     (case p_connect ctx of
        None \<Rightarrow> Inl Abort
      | Some kind \<Rightarrow>
          (case p_host ctx of
             None \<Rightarrow> Inl Null_Deref
           | Some host \<Rightarrow>
               (case kind of
                  Socks5 \<Rightarrow> bind_res (plan9_socks5_connect ops host ctx b) (\<lambda>r. Inr (Some r))
                | Socks4a \<Rightarrow> bind_res (plan9_socks4a_connect ops host ctx b) (\<lambda>r. Inr (Some r))
                | Http \<Rightarrow> Inr (http_connect ops fuel host ctx b))))"

definition plan9_proxy_write :: "'b bio_ops \<Rightarrow> nat \<Rightarrow> bool \<Rightarrow> byte list \<Rightarrow> proxy_ctx \<Rightarrow> 'b \<Rightarrow>
    (int \<times> proxy_ctx \<times> 'b) option result" where
  "plan9_proxy_write ops fuel next_bio buf ctx b =
     (if buf = [] then Inr (Some (0, ctx, b))
      else if \<not> next_bio then Inr (Some (0, ctx, b))
      else if p_connected ctx then
        (let (r, b') = BIO_write ops buf b in Inr (Some (r, ctx, b')))
      else bind_res (plan9_proxy_connect ops fuel ctx b) (\<lambda>res.
        case res of None \<Rightarrow> Inr None
        | Some (ret, ctx1, b1) \<Rightarrow>
            if ret = 0 then Inr (Some (0, ctx1, b1))
            else let (r, b2) = BIO_write ops buf b1 in Inr (Some (r, ctx1, b2))))"

definition plan9_proxy_read :: "'b bio_ops \<Rightarrow> nat \<Rightarrow> bool \<Rightarrow> nat \<Rightarrow> proxy_ctx \<Rightarrow> 'b \<Rightarrow>
    (bio_read \<times> proxy_ctx \<times> 'b) option result" where
  "plan9_proxy_read ops fuel next_bio sz ctx b =
     (if \<not> next_bio then Inr (Some (Rfail 0, ctx, b))
      else if p_connected ctx then
        (let (rd, b') = BIO_read ops sz b in Inr (Some (rd, ctx, b')))
      else bind_res (plan9_proxy_connect ops fuel ctx b) (\<lambda>res.
        case res of None \<Rightarrow> Inr None
        | Some (ret, ctx1, b1) \<Rightarrow>
            if ret = 0 then Inr (Some (Rfail 0, ctx1, b1))
            else let (rd, b2) = BIO_read ops sz b1 in Inr (Some (rd, ctx1, b2))))"

section \<open>Facts\<close>

lemma request_lengths:
  "length (socks4a_request host port) = length host + 10" "length (socks5_request host port) = length host + 7"
  by (simp_all add: socks4a_request_def socks5_request_def port_n_def)

lemma plan9_socks4a_eq:
  "plan9_socks4a_connect ops host ctx b =
     (if length host + 10 > PACKET_SIZE then Inl Abort else Inr (socks4a_connect ops host ctx b))"
  using request_lengths(1) [of host "p_port ctx"]
  by (auto simp: plan9_socks4a_connect_def socks4a_connect_def socks4a_request_def Let_def split: prod.split)

lemma plan9_socks5_eq:
  assumes "length host < 256"
  shows "plan9_socks5_connect ops host ctx b = Inr (socks5_connect ops host ctx b)"
proof -
  have "length (socks5_request host (p_port ctx)) \<le> PACKET_SIZE"
    using assms by (simp add: request_lengths limit_defs)
  moreover have "strnlen host 256 \<noteq> 256" "length host \<noteq> 256" using assms by (simp_all add: strnlen_def)
  ultimately show ?thesis
    unfolding plan9_socks5_connect_def socks5_connect_def socks5_hello_def socks5_request_def [symmetric] Let_def
    by (auto split: prod.split)
qed

lemma plan9_connect_eq:
  assumes "p_host ctx = Some host" and "length host < 256"
  shows "plan9_proxy_connect ops fuel ctx b = proxy_connect ops fuel ctx b"
  using assms
  by (simp add: plan9_proxy_connect_def proxy_connect_def plan9_socks5_eq plan9_socks4a_eq limit_defs
      split: option.split proxy_kind.split)

section \<open>Properties\<close>

text \<open>
  For a host of fewer than 256 bytes the Plan 9 filter behaves as the other one, reading and
  writing, over any BIO and with any kind of proxy.
\<close>

theorem plan9_filter_agrees:
  assumes "p_host ctx = Some host" and "length host < 256"
  shows "plan9_proxy_write ops fuel next_bio buf ctx b = proxy_write ops fuel next_bio buf ctx b \<and>
     plan9_proxy_read ops fuel next_bio sz ctx b = proxy_read ops fuel next_bio sz ctx b"
  using plan9_connect_eq [OF assms, of ops fuel b]
  by (simp add: plan9_proxy_write_def proxy_write_def plan9_proxy_read_def proxy_read_def)

theorem plan9_filter_agrees_witness:
  "plan9_proxy_write test_methods 0 True [7] (proxy_new\<lparr>p_connect := Some Socks4a, p_host := Some ''h''\<rparr>)
     \<lparr>t_out = [], t_in = [0, 0x5a, 0, 0, 0, 0, 0, 0]\<rparr> =
   Inr (Some (1, proxy_new\<lparr>p_connect := Some Socks4a, p_host := Some ''h'', p_connected := True\<rparr>,
     \<lparr>t_out = socks4a_request ''h'' 0 @ [7], t_in = []\<rparr>))"
proof -
  have "proxy_write test_methods 0 True [7] (proxy_new\<lparr>p_connect := Some Socks4a, p_host := Some ''h''\<rparr>)
     \<lparr>t_out = [], t_in = [0, 0x5a, 0, 0, 0, 0, 0, 0]\<rparr> =
   Inr (Some (1, proxy_new\<lparr>p_connect := Some Socks4a, p_host := Some ''h'', p_connected := True\<rparr>,
     \<lparr>t_out = socks4a_request ''h'' 0 @ [7], t_in = []\<rparr>))" by code_simp
  then show ?thesis
    using plan9_filter_agrees [of "proxy_new\<lparr>p_connect := Some Socks4a, p_host := Some ''h''\<rparr>" "''h''" test_methods 0 True "[7]"
        "\<lparr>t_out = [], t_in = [0, 0x5a, 0, 0, 0, 0, 0, 0]\<rparr>"] by simp
qed

text \<open>
  A longer host passes the length checks of the Plan 9 filter, which test for one length only.
  Once the proxy has accepted the greeting, the SOCKS5 request for a host that fits the buffer goes
  out but names another host: its length byte is the length modulo 256, so the proxy takes a prefix
  for the name and the bytes behind it for the port. A host that does not fit overflows the
  buffer. The filter of the other systems sends nothing in either case.
\<close>

theorem plan9_long_host:
  assumes "stream_bio ops sent pending" and "pending b = [0x05, 0x00]"
    and "256 < length host" and "length host \<noteq> NI_MAXHOST" and "req = socks5_request host (p_port ctx)"
  shows "plan9_set_host host ctx = (0, ctx\<lparr>p_host := Some host\<rparr>) \<and>
     (if length host + 7 > PACKET_SIZE then plan9_socks5_connect ops host ctx b = Inl Abort
      else \<exists>b'. plan9_socks5_connect ops host ctx b = Inr (0, ctx, b') \<and> sent b' = sent b @ [0x05, 0x01, 0x00] @ req) \<and>
     take (unat (req ! 4)) (drop 5 req) = bytes_of (take (length host mod 256) host) \<and>
     socks5_connect ops host ctx b = (0, ctx, b)"
proof -
  have "unat (word_of_nat (length host) :: byte) = length host mod 256" by (simp add: unat_of_nat)
  moreover have "length host mod 256 \<le> length host" by simp
  ultimately have "take (unat (req ! 4)) (drop 5 req) = bytes_of (take (length host mod 256) host)"
    unfolding assms(5) by (simp add: socks5_request_def bytes_of_def take_map)
  moreover have "socks5_connect ops host ctx b = (0, ctx, b)" using assms(3) by (simp add: socks5_connect_def strnlen_def)
  moreover have "plan9_set_host host ctx = (0, ctx\<lparr>p_host := Some host\<rparr>)" using assms(4) by (simp add: plan9_set_host_def)
  moreover have "if length host + 7 > PACKET_SIZE then plan9_socks5_connect ops host ctx b = Inl Abort
      else \<exists>b'. plan9_socks5_connect ops host ctx b = Inr (0, ctx, b') \<and> sent b' = sent b @ [0x05, 0x01, 0x00] @ req"
  proof -
    obtain b1 where 1: "BIO_write ops [0x05, 0x01, 0x00] b = (int (length ([0x05, 0x01, 0x00] :: byte list)), b1)"
      "sent b1 = sent b @ [0x05, 0x01, 0x00]" "pending b1 = pending b"
      by (rule stream_bio.write_stream [OF assms(1), of "[0x05, 0x01, 0x00]"]) simp
    obtain b2 where 2: "BIO_read ops 2 b1 = (Got (take 2 (pending b1)), b2)" "pending b2 = drop 2 (pending b1)" "sent b2 = sent b1"
      by (rule stream_bio.read_stream [OF assms(1), of 2]) simp
    obtain b3 where 3: "BIO_write ops req b2 = (int (length req), b3)" "sent b3 = sent b2 @ req" "pending b3 = pending b2"
      by (rule stream_bio.write_stream [OF assms(1), of req]) (simp add: assms(5))
    obtain b4 where 4: "BIO_read ops 4 b3 = (Got (take 4 (pending b3)), b4)" "sent b4 = sent b3"
      by (rule stream_bio.read_stream [OF assms(1), of 4]) simp
    have len: "length req = length host + 7" by (simp add: assms(5) request_lengths)
    have "plan9_socks5_connect ops host ctx b = (if length req > PACKET_SIZE then Inl Abort else Inr (0, ctx, b4))"
      using 1 2 3 4 assms(2,3) unfolding plan9_socks5_connect_def
      by (simp add: Let_def socks5_request_def [symmetric, unfolded append_Cons append_Nil] assms(5) [symmetric])
    then show ?thesis using 1(2) 2(3) 3(2) 4(2) len by auto
  qed
  ultimately show ?thesis by blast
qed

theorem plan9_long_host_witness:
  "\<exists>b'. plan9_socks5_connect test_methods (replicate 300 CHR ''a'') proxy_new \<lparr>t_out = [], t_in = [0x05, 0x00]\<rparr> = Inr (0, proxy_new, b') \<and>
     t_out b' = [0x05, 0x01, 0x00] @ socks5_request (replicate 300 CHR ''a'') 0"
  using plan9_long_host [OF test_bio.stream_bio_axioms, of "\<lparr>t_out = [], t_in = [0x05, 0x00]\<rparr>" "replicate 300 CHR ''a''"
      "socks5_request (replicate 300 CHR ''a'') 0" proxy_new]
  by (simp add: proxy_new_def limit_defs)

end
