(* ===== verification/Helper_Plan9.thy ===== *)
theory Helper_Plan9
  imports Helper_Polarssl Proxy_Plan9
begin

text \<open>
  The helper of the Plan 9 port, \<^verbatim>\<open>src/tlsdate-helper-plan9.c\<close> with \<^verbatim>\<open>src/util-plan9.c\<close>, built on OpenSSL
  or on PolarSSL.
  It is an older copy of \<^verbatim>\<open>src/tlsdate-helper.c\<close>: no HTTP, twelve arguments, \<^verbatim>\<open>strtok\<close> in place of
  \<^verbatim>\<open>strsep\<close>, and no shared memory, whose pointer is used without ever being set. Functions that are the
  same in both files are those of \<open>Cert_Names\<close>, \<open>Proxy_Uri\<close>, \<open>Helper\<close> and, with PolarSSL, all of
  \<open>Helper_Polarssl\<close> down to \<open>polar_run_ssl\<close>.
\<close>

section \<open>Wildcards\<close>

text \<open>
  \<^verbatim>\<open>strtok (s, delim)\<close> on a pointer of the caller: the token, and the string that the same pointer shows
  afterwards, cut off behind the token.
\<close>

definition strtok_at :: "string \<Rightarrow> string \<Rightarrow> string option \<times> string" where
  "strtok_at s delim =
     (let pre = takeWhile (\<lambda>c. c \<in> set delim) s; s1 = dropWhile (\<lambda>c. c \<in> set delim) s;
          tok = takeWhile (\<lambda>c. c \<notin> set delim) s1
      in if s1 = [] then (None, s) else (Some tok, pre @ tok))"

text \<open>Every turn passes the pointers themselves, so that it sees the first labels again.\<close>

function plan9_wildcard_loop :: "nat \<Rightarrow> string \<Rightarrow> string \<Rightarrow> bool \<Rightarrow> bool \<Rightarrow> bool \<times> bool" where
  "plan9_wildcard_loop label_count cert_wild_card hostname ok wildcard_encountered =
     (case (strtok_at cert_wild_card ''.'', strtok_at hostname ''.'') of
        ((Some wildcard_label, cert'), (Some expected_label, host')) \<Rightarrow>
          (if (wildcard_label @ [NUL]) ! 0 = CHR ''*'' \<and> \<not> wildcard_encountered \<and> \<not> ok then
             (if label_count \<le> RFC2595_MIN_LABEL_COUNT
              then plan9_wildcard_loop label_count cert' host' ok True
              else (ok, True))
           else if strcaseeq expected_label wildcard_label \<and> label_count \<ge> RFC2595_MIN_LABEL_COUNT
           then (True, wildcard_encountered)
           else (False, wildcard_encountered))
      | _ \<Rightarrow> (ok, wildcard_encountered))"
  by pat_completeness auto
termination
  by (relation "measure (\<lambda>(n, cert, host, ok, w). if w then 0 else 1)") auto

declare plan9_wildcard_loop.simps [simp del]

definition plan9_check_wildcard :: "string \<Rightarrow> string \<Rightarrow> nat" where
  "plan9_check_wildcard orig_hostname orig_cert_wild_card =
     (let label_count = dns_label_count orig_cert_wild_card ''.'';
          (ok, wildcard_encountered) =
            (if CHR ''.'' \<in> set orig_cert_wild_card \<and> CHR ''.'' \<in> set orig_hostname \<and>
                label_count \<le> RFC2595_MIN_LABEL_COUNT
             then (if (orig_cert_wild_card @ [NUL]) ! 0 = CHR ''*''
                   then plan9_wildcard_loop label_count orig_cert_wild_card orig_hostname False False
                   else (False, False))
             else (False, False))
      in if wildcard_encountered \<and> ok \<and> label_count \<ge> RFC2595_MIN_LABEL_COUNT then 1 else 0)"

section \<open>The name checks\<close>

fun plan9_san_values :: "string \<Rightarrow> (string \<times> string) list \<Rightarrow> nat \<Rightarrow> nat" where
  "plan9_san_values hostname [] ok = ok"
| "plan9_san_values hostname ((name, v) # vals) ok =
     (if (strcaseeq name ''DNS'' \<and> strcaseeq v hostname) \<or> (strcaseeq name ''iPAddress'' \<and> strcaseeq v hostname) then 1
      else if strcaseeq name ''DNS'' then
        (let ok' = plan9_check_wildcard hostname v
         in if ok' \<noteq> 0 then ok' else plan9_san_values hostname vals ok')
      else plan9_san_values hostname vals ok)"

fun plan9_san_extensions :: "string \<Rightarrow> (string \<times> ext_values) list \<Rightarrow> nat \<Rightarrow> nat" where
  "plan9_san_extensions hostname [] ok = ok"
| "plan9_san_extensions hostname ((extstr, v) # exts) ok =
     (if extstr = ''subjectAltName'' then
        (case v of
           No_Method \<Rightarrow> ok
         | No_Value \<Rightarrow> ok
         | No_I2v \<Rightarrow> (if ok \<noteq> 0 then ok else plan9_san_extensions hostname exts ok)
         | Values vals \<Rightarrow>
             (let ok' = plan9_san_values hostname vals ok
              in if ok' \<noteq> 0 then ok' else plan9_san_extensions hostname exts ok'))
      else if ok \<noteq> 0 then ok
      else plan9_san_extensions hostname exts ok)"

definition plan9_check_san :: "ssl \<Rightarrow> string \<Rightarrow> nat result" where
  "plan9_check_san S hostname =
     (case peer_certificate S of
        None \<Rightarrow> Inl (Exit 1)
      | Some cert \<Rightarrow> Inr (plan9_san_extensions hostname (extensions cert) 0))"

definition plan9_check_name :: "ssl \<Rightarrow> string \<Rightarrow> nat result" where
  "plan9_check_name S hostname =
     bind_res (check_cn S hostname) (\<lambda>cn.
     bind_res (plan9_check_san S hostname) (\<lambda>san.
       let ret = cn + san in if ret \<noteq> 0 \<and> 0 < ret then Inr ret else Inl (Exit 1)))"

definition plan9_inspect_key :: "ssl \<Rightarrow> string \<Rightarrow> unit result" where
  "plan9_inspect_key S hostname =
     bind_res (verify_signature S) (\<lambda>_. bind_res (plan9_check_name S hostname) (\<lambda>_. Inr ()))"

section \<open>The child\<close>

definition plan9_setup_proxy :: "target \<Rightarrow> (proxy_ctx option \<times> target) result" where
  "plan9_setup_proxy t =
     (case t_proxy t of
        None \<Rightarrow> Inr (None, t)
      | Some uri \<Rightarrow>
          bind_res (parse_proxy_uri uri) (\<lambda>(scheme, proxy_host, proxy_port).
            let c1 = snd (BIO_proxy_set_type scheme proxy_new);
                c2 = snd (plan9_set_host (t_host t) c1);
                c3 = BIO_proxy_set_port (word_of_int (atoi (t_port t))) c2
            in Inr (Some c3, t\<lparr>t_host := proxy_host, t_port := proxy_port\<rparr>)))"

text \<open>The time is copied from the server's random bytes after the checks.\<close>

definition plan9_run_ssl :: "build \<Rightarrow> 'b tls_env \<Rightarrow> helper_opts \<Rightarrow> bool \<Rightarrow> byte list result" where
  "plan9_run_ssl B E o' time_is_an_illusion =
     (if h_protocol o' \<notin> {''sslv23'', ''sslv3'', ''tlsv1''} then Inl (Exit 1)
      else if \<not> method_ok E then Inl (Exit 1)
      else bind_res (if ca_racket o' then load_ca E (ca_cert_container o') else Inr ()) (\<lambda>_.
           bind_res (if \<not> bios_ok E then Inl (Exit 1) else plan9_setup_proxy (h_target o')) (\<lambda>(proxy, t).
             if \<not> conn_settings_ok E then Inl (Exit 1)
             else (case bio_do_connect E (t_host t) (t_port t) proxy of
               None \<Rightarrow> Inl (Exit 1)
             | Some c \<Rightarrow>
                 bind_res (if time_is_an_illusion then callbacks B (handshake_events c) (conn_random c) None else Inr None) (\<lambda>frozen.
                   if \<not> handshake_ok c then Inl (Exit 1)
                   else
                     let S = \<lparr>peer_certificate = conn_certificate c, verify_result = conn_verify c frozen, server_random = conn_random c\<rparr>
                     in bind_res (if ca_racket o' then plan9_inspect_key S (hostname_to_verify o') else Inr ()) (\<lambda>_.
                        bind_res (check_key_length S) (\<lambda>_. Inr (take 4 (conn_random c)))))))))"

text \<open>On Plan 9 the body of \<^verbatim>\<open>drop_privs_to\<close> is compiled out.\<close>

definition plan9_drop_privs_to :: "string \<Rightarrow> string \<Rightarrow> creds \<Rightarrow> creds result" where
  "plan9_drop_privs_to user grp c = Inr c"

section \<open>The parent\<close>

text \<open>
  What two variables of \<^verbatim>\<open>main\<close> hold that it reads without having set them: the pointer \<^verbatim>\<open>time_map\<close>, which
  may point nowhere, into memory of the process or into memory that a child shares, and \<^verbatim>\<open>warp_time\<close>.
\<close>

datatype wild_pointer = Unmapped | Private | Shared

record plan9_stack =
  stack_time_map :: wild_pointer
  stack_warp_time :: tlsdate_time

text \<open>The part of \<^verbatim>\<open>main\<close> from the end of the child on, with neither a check for 0 nor for a long round trip.\<close>

definition plan9_finish :: "build \<Rightarrow> helper_env \<Rightarrow> string list \<Rightarrow> tlsdate_time \<Rightarrow> uint32 \<Rightarrow> helper_out \<Rightarrow> int \<times> helper_out" where
  "plan9_finish B E argv start_time server_time_s out =
     (case clk_end E of
        None \<Rightarrow> (1, out)
      | Some end_time \<Rightarrow>
          (let rt_time_ms = round_trip_ms start_time end_time
           in if argv ! 8 = ''showtime'' \<and> \<not> strftime_ok E then (1, out)
              else
                let out1 = (if argv ! 8 = ''showtime'' then out\<lparr>human_out := human_out out @ [uint server_time_s]\<rparr> else out)
                in if argv ! 7 = ''setclock'' then set_clock B E server_time_s rt_time_ms out1
                   else (0, out1)))"

text \<open>
  The rest from the write through \<^verbatim>\<open>time_map\<close> on: \<open>None\<close> when it crashes the process. \<open>child_time\<close> is the
  number the child stores, as the parent of the same build reads it. It reaches the parent only
  through shared memory; otherwise the parent reads its own 0.
\<close>

definition plan9_after_warp :: "build \<Rightarrow> uint32 result \<Rightarrow> helper_env \<Rightarrow> plan9_stack \<Rightarrow> string list \<Rightarrow> tlsdate_time \<Rightarrow> helper_out \<Rightarrow>
    int option \<times> helper_out" where
  "plan9_after_warp B child_time E stk argv start_time out =
     (if stack_time_map stk = Unmapped then (None, out)
      else if \<not> h_fork_ok E then (Some 1, out)
      else (case child_time of
              Inl _ \<Rightarrow> (Some 1, out)
            | Inr stored \<Rightarrow>
                if \<not> child_reaped E then (Some 1, out)
                else
                  let server_time_s = (if stack_time_map stk = Shared then stored else 0);
                      r = plan9_finish B E argv start_time server_time_s out
                  in (Some (fst r), snd r)))"

definition plan9_parent :: "build \<Rightarrow> (creds \<Rightarrow> uint32 result) \<Rightarrow> helper_env \<Rightarrow> plan9_stack \<Rightarrow> string list \<Rightarrow> int option \<times> helper_out" where
  "plan9_parent B child_time E stk argv =
     (if length argv \<noteq> 12 then (Some 1, no_out)
      else
        let setclock = (argv ! 7 = ''setclock''); timewarp = (argv ! 9 = ''timewarp'');
            warp_time = (if timewarp \<and> setclock then clock_init_time (RECENT_COMPILE_DATE B) 0 else stack_warp_time stk)
        in (case (if \<not> setclock \<and> \<not> timewarp then plan9_drop_privs_to (UNPRIV_USER B) (UNPRIV_GROUP B) (creds0 E) else Inr (creds0 E)) of
              Inl _ \<Rightarrow> (Some 1, no_out)
            | Inr c \<Rightarrow>
                (case clk_start E of
                   None \<Rightarrow> (Some 1, no_out)
                 | Some start_time \<Rightarrow>
                     if (word_of_int (tv_sec start_time) :: 64 word) < word_of_int (tv_sec warp_time) \<and> timewarp then
                       (let out = no_out\<lparr>clock_sets := [warp_time]\<rparr>
                        in if \<not> warp_ok E then (Some 1, out)
                           else (case clk_warped E of
                                   None \<Rightarrow> (Some 1, out)
                                 | Some start_time' \<Rightarrow> plan9_after_warp B (child_time c) E stk argv start_time' out))
                     else plan9_after_warp B (child_time c) E stk argv start_time no_out)))"

text \<open>
  The children of the two builds. The one on OpenSSL stores the bytes as the server sent them and the
  parent turns them round; the one on PolarSSL stores the number. \<^verbatim>\<open>run_ssl\<close> on PolarSSL is that of
  \<open>Helper_Polarssl\<close>, without the argument for HTTP.
\<close>

definition plan9_ssl_child :: "build \<Rightarrow> 'b tls_env \<Rightarrow> string list \<Rightarrow> creds \<Rightarrow> uint32 result" where
  "plan9_ssl_child B T argv c =
     bind_res (plan9_drop_privs_to (UNPRIV_USER B) (UNPRIV_GROUP B) c) (\<lambda>_.
     bind_res (plan9_run_ssl B T (helper_opts_of argv) (argv ! 10 = ''leapaway'')) (\<lambda>time_map. Inr (ntohl_bytes time_map)))"

definition plan9_polar_run_ssl :: "build \<Rightarrow> ('b, 's) polar_env \<Rightarrow> nat \<Rightarrow> helper_opts \<Rightarrow> bool \<Rightarrow> uint32 result option" where
  "plan9_polar_run_ssl B P fuel o' time_is_an_illusion = polar_run_ssl B P fuel o' time_is_an_illusion False"

definition plan9_polar_child :: "build \<Rightarrow> ('b, 's) polar_env \<Rightarrow> nat \<Rightarrow> string list \<Rightarrow> creds \<Rightarrow> uint32 result" where
  "plan9_polar_child B P fuel argv c =
     bind_res (plan9_drop_privs_to (UNPRIV_USER B) (UNPRIV_GROUP B) c) (\<lambda>_.
       case plan9_polar_run_ssl B P fuel (helper_opts_of argv) (argv ! 10 = ''leapaway'') of
         None \<Rightarrow> Inl Abort
       | Some r \<Rightarrow> r)"

definition plan9_main :: "build \<Rightarrow> 'b tls_env \<Rightarrow> helper_env \<Rightarrow> plan9_stack \<Rightarrow> string list \<Rightarrow> int option \<times> helper_out" where
  "plan9_main B T E stk argv = plan9_parent B (plan9_ssl_child B T argv) E stk argv"

definition plan9_polar_main :: "build \<Rightarrow> ('b, 's) polar_env \<Rightarrow> nat \<Rightarrow> helper_env \<Rightarrow> plan9_stack \<Rightarrow> string list \<Rightarrow> int option \<times> helper_out" where
  "plan9_polar_main B P fuel E stk argv = plan9_parent B (plan9_polar_child B P fuel argv) E stk argv"

section \<open>Facts\<close>

lemma strtok_at_Some:
  "strtok_at s delim = (Some tok, s') \<longleftrightarrow>
     dropWhile (\<lambda>c. c \<in> set delim) s \<noteq> [] \<and> tok = takeWhile (\<lambda>c. c \<notin> set delim) (dropWhile (\<lambda>c. c \<in> set delim) s) \<and>
     s' = takeWhile (\<lambda>c. c \<in> set delim) s @ tok"
  by (auto simp: strtok_at_def Let_def)

text \<open>The second call on the same pointer finds the same token.\<close>

lemma strtok_at_again:
  assumes "strtok_at s delim = (Some tok, s')"
  shows "strtok_at s' delim = (Some tok, s')"
proof -
  define pre where "pre = takeWhile (\<lambda>c. c \<in> set delim) s"
  have tok: "tok = takeWhile (\<lambda>c. c \<notin> set delim) (dropWhile (\<lambda>c. c \<in> set delim) s)" "s' = pre @ tok"
    "dropWhile (\<lambda>c. c \<in> set delim) s \<noteq> []"
    using assms by (auto simp: strtok_at_Some pre_def)
  have pre: "\<forall>c \<in> set pre. c \<in> set delim" unfolding pre_def by (auto dest: set_takeWhileD)
  have "hd (dropWhile (\<lambda>c. c \<in> set delim) s) \<notin> set delim" using tok(3) hd_dropWhile by blast
  then obtain x xs where x: "tok = x # xs" "x \<notin> set delim"
    using tok(1,3) by (cases "dropWhile (\<lambda>c. c \<in> set delim) s") auto
  have "dropWhile (\<lambda>c. c \<in> set delim) s' = tok" "takeWhile (\<lambda>c. c \<in> set delim) s' = pre"
    using pre x unfolding tok(2) by (simp_all add: dropWhile_append takeWhile_append)
  moreover have "takeWhile (\<lambda>c. c \<notin> set delim) tok = tok" using tok(1) by (simp add: takeWhile_idem)
  ultimately show ?thesis using x(1) tok(2) by (simp add: strtok_at_Some)
qed

lemma strtok_at_hd:
  assumes "s \<noteq> []" and "hd s \<notin> set delim"
  shows "strtok_at s delim = (Some (takeWhile (\<lambda>c. c \<notin> set delim) s), takeWhile (\<lambda>c. c \<notin> set delim) s)"
  using assms by (cases s) (simp_all add: strtok_at_def Let_def)

text \<open>The loop ends in its second turn.\<close>

lemma plan9_wildcard_loop_star:
  assumes "take 1 cert = ''*''" and w: "w = takeWhile (\<lambda>c. c \<noteq> CHR ''.'') cert"
  shows "plan9_wildcard_loop 3 cert host False False =
     (case strtok_at host ''.'' of (None, _) \<Rightarrow> (False, False) | (Some h, _) \<Rightarrow> (strcaseeq h w, True))"
proof -
  obtain cs where cert: "cert = CHR ''*'' # cs" using assms(1) by (cases cert) auto
  have c: "strtok_at cert ''.'' = (Some w, w)" using strtok_at_hd [of cert "''.''"] cert w by simp
  have star: "(w @ [NUL]) ! 0 = CHR ''*''" using cert w by simp
  show ?thesis
  proof (cases "strtok_at host ''.''")
    case (Pair tok host')
    show ?thesis
    proof (cases tok)
      case None
      then show ?thesis using Pair c by (subst plan9_wildcard_loop.simps) simp
    next
      case (Some h)
      then have "strtok_at host' ''.'' = (Some h, host')" "strtok_at w ''.'' = (Some w, w)"
        using Pair strtok_at_again c by auto
      then have "plan9_wildcard_loop 3 w host' False True = (strcaseeq h w, True)"
        by (subst plan9_wildcard_loop.simps) (simp add: limit_defs)
      then show ?thesis
        using Pair Some c star by (subst plan9_wildcard_loop.simps) (simp add: limit_defs)
    qed
  qed
qed

lemma set_clock_at_zero:
  assumes "0 \<le> rt" and "rt \<le> TLS_RTT_UNREASONABLE" and "15 \<le> RECENT_COMPILE_DATE B"
  shows "set_clock B E 0 rt out = (1, out)"
  using half_round_trip(1) [OF assms(1,2)] assms(3) by (simp add: set_clock_def clock_init_time_def Let_def)

lemma plan9_finish_zero:
  assumes "\<forall>e. clk_end E = Some e \<longrightarrow> round_trip_ms st e \<le> TLS_RTT_UNREASONABLE" and "15 \<le> RECENT_COMPILE_DATE B"
  shows "clock_sets (snd (plan9_finish B E argv st 0 out)) = clock_sets out \<and>
    (argv ! 7 = ''setclock'' \<longrightarrow> fst (plan9_finish B E argv st 0 out) = 1)"
proof (cases "clk_end E")
  case None
  then show ?thesis by (simp add: plan9_finish_def)
next
  case (Some e)
  then have "set_clock B E 0 (round_trip_ms st e) o' = (1, o')" for o'
    using assms by (intro set_clock_at_zero) (auto simp: round_trip_nonneg)
  then show ?thesis using Some by (simp add: plan9_finish_def Let_def)
qed

lemma plan9_after_warp_zero:
  assumes "stack_time_map stk \<noteq> Shared" and "\<forall>e. clk_end E = Some e \<longrightarrow> round_trip_ms st e \<le> TLS_RTT_UNREASONABLE"
    and "15 \<le> RECENT_COMPILE_DATE B" and "plan9_after_warp B ct E stk argv st out = (status, out')"
  shows "clock_sets out' = clock_sets out \<and> (argv ! 7 = ''setclock'' \<longrightarrow> status \<noteq> Some 0)"
  using assms(1,4) plan9_finish_zero [OF assms(2,3), of argv out]
  by (auto simp: plan9_after_warp_def Let_def split: if_splits sum.splits)

lemma tolower_star_iff: "tolower c = CHR ''*'' \<longleftrightarrow> c = CHR ''*''"
proof (cases "isupper c")
  case True
  then have n: "65 \<le> (of_char c :: nat)" "(of_char c :: nat) \<le> 90" by (simp_all add: isupper_def)
  have "(of_char (tolower c) :: nat) = of_char c + 32" using True n by (simp add: tolower_def of_char_of)
  then have "(of_char (tolower c) :: nat) \<noteq> of_char (CHR ''*'')" using n by simp
  moreover have "c \<noteq> CHR ''*''" using n(1) by auto
  ultimately show ?thesis by metis
next
  case False
  then show ?thesis by (simp add: tolower_def)
qed

lemma tolower_star: "tolower CHR ''*'' = CHR ''*''"
  by (simp add: tolower_star_iff)

section \<open>Properties\<close>

text \<open>
  C22. Wildcards on Plan 9: since \<^verbatim>\<open>strtok\<close> is called with the same pointers in each turn, the loop
  compares the first label of the certificate with the first label of the host. A wildcard name
  matches exactly the hosts whose own first label begins with the star, so that no ordinary host
  name is ever accepted through a wildcard.
\<close>

theorem plan9_wildcard_iff:
  "plan9_check_wildcard host cert =
     (if take 1 cert = ''*'' \<and> CHR ''.'' \<in> set cert \<and> CHR ''.'' \<in> set host \<and>
         (\<exists>h r. strtok_at host ''.'' = (Some h, r) \<and> strcaseeq h (takeWhile (\<lambda>c. c \<noteq> CHR ''.'') cert)) then 1 else 0) \<and>
   (CHR ''*'' \<notin> set host \<longrightarrow> plan9_check_wildcard host cert = 0)"
proof -
  have hd: "(cert @ [NUL]) ! 0 = CHR ''*'' \<longleftrightarrow> take 1 cert = ''*''" by (cases cert) (auto simp: NUL_def)
  have iff: "plan9_check_wildcard host cert =
     (if take 1 cert = ''*'' \<and> CHR ''.'' \<in> set cert \<and> CHR ''.'' \<in> set host \<and>
         (\<exists>h r. strtok_at host ''.'' = (Some h, r) \<and> strcaseeq h (takeWhile (\<lambda>c. c \<noteq> CHR ''.'') cert)) then 1 else 0)"
  proof (cases "take 1 cert = ''*''")
    case False
    then show ?thesis using hd by (simp add: plan9_check_wildcard_def Let_def)
  next
    case True
    show ?thesis
      using True hd label_count_star [OF True] plan9_wildcard_loop_star [OF True refl, of host]
      by (auto simp: plan9_check_wildcard_def Let_def limit_defs split: prod.splits option.splits)
  qed
  have "CHR ''*'' \<in> set host" if m: "take 1 cert = ''*''" "strtok_at host ''.'' = (Some h, r)"
    "strcaseeq h (takeWhile (\<lambda>c. c \<noteq> CHR ''.'') cert)" for h r
  proof -
    obtain cs where "cert = CHR ''*'' # cs" using m(1) by (cases cert) auto
    with m(3) have "h \<noteq> []" "tolower (hd h) = CHR ''*''" by (auto simp: strcaseeq_def tolower_star)
    then have "CHR ''*'' \<in> set h" using tolower_star_iff hd_in_set by metis
    moreover have "set h \<subseteq> set host" using m(2) by (auto simp: strtok_at_Some dest!: set_takeWhileD set_dropWhileD)
    ultimately show ?thesis by blast
  qed
  with iff show ?thesis by auto
qed

theorem plan9_wildcard_iff_witness:
  "plan9_check_wildcard ''www.example.org'' ''*.example.org'' = 0 \<and> plan9_check_wildcard ''*.evil.org'' ''*.example.org'' = 1"
proof -
  have "CHR ''*'' \<notin> set ''www.example.org''"
    "\<exists>h r. strtok_at ''*.evil.org'' ''.'' = (Some h, r) \<and> strcaseeq h (takeWhile (\<lambda>c. c \<noteq> CHR ''.'') ''*.example.org'')"
    by (simp_all add: strtok_at_def Let_def)
  then show ?thesis
    using plan9_wildcard_iff [of "''www.example.org''" "''*.example.org''"] plan9_wildcard_iff [of "''*.evil.org''" "''*.example.org''"]
    by simp
qed

text \<open>The structure of \<^verbatim>\<open>main\<close>, with the privileges as they are.\<close>

lemma plan9_parent_eq:
  assumes "length argv = 12" and "clk_start E = Some st"
    and "warp = (if argv ! 9 = ''timewarp'' \<and> argv ! 7 = ''setclock'' then clock_init_time (RECENT_COMPILE_DATE B) 0 else stack_warp_time stk)"
  shows "plan9_parent B ct E stk argv =
     (if (word_of_int (tv_sec st) :: 64 word) < word_of_int (tv_sec warp) \<and> argv ! 9 = ''timewarp'' then
        (if \<not> warp_ok E then (Some 1, no_out\<lparr>clock_sets := [warp]\<rparr>)
         else (case clk_warped E of
                 None \<Rightarrow> (Some 1, no_out\<lparr>clock_sets := [warp]\<rparr>)
               | Some st' \<Rightarrow> plan9_after_warp B (ct (creds0 E)) E stk argv st' (no_out\<lparr>clock_sets := [warp]\<rparr>)))
      else plan9_after_warp B (ct (creds0 E)) E stk argv st no_out)"
  unfolding plan9_parent_def Let_def assms(3) [symmetric] plan9_drop_privs_to_def using assms(1,2) by (simp cong: if_cong)

lemma plan9_parent_fails: "length argv \<noteq> 12 \<or> clk_start E = None \<Longrightarrow> plan9_parent B ct E stk argv = (Some 1, no_out)"
  by (auto simp: plan9_parent_def plan9_drop_privs_to_def Let_def)

text \<open>The parent, whatever its child does.\<close>

lemma plan9_parent_no_network_time:
  assumes "plan9_parent B ct E stk argv = (status, out)" and "stack_time_map stk \<noteq> Shared" and "15 \<le> RECENT_COMPILE_DATE B"
    and "\<forall>st e. clk_end E = Some e \<longrightarrow> clk_start E = Some st \<or> clk_warped E = Some st \<longrightarrow> round_trip_ms st e \<le> TLS_RTT_UNREASONABLE"
    and "warp = (if argv ! 7 = ''setclock'' then clock_init_time (RECENT_COMPILE_DATE B) 0 else stack_warp_time stk)"
  shows "(clock_sets out = [] \<or> argv ! 9 = ''timewarp'' \<and> clock_sets out = [warp]) \<and> (argv ! 7 = ''setclock'' \<longrightarrow> status \<noteq> Some 0)"
proof (cases "length argv = 12 \<and> clk_start E \<noteq> None")
  case False
  then show ?thesis using assms(1) plan9_parent_fails [of argv E B ct stk] by (auto simp: no_out_def)
next
  case True
  then obtain st where st: "clk_start E = Some st" by auto
  let ?out = "no_out\<lparr>clock_sets := [warp]\<rparr>"
  have no: "clock_sets no_out = []" by (simp add: no_out_def)
  define w where "w = (if argv ! 9 = ''timewarp'' \<and> argv ! 7 = ''setclock'' then clock_init_time (RECENT_COMPILE_DATE B) 0 else stack_warp_time stk)"
  have w: "w = warp" if "argv ! 9 = ''timewarp''" using that unfolding w_def assms(5) by simp
  have main: "plan9_parent B ct E stk argv =
     (if (word_of_int (tv_sec st) :: 64 word) < word_of_int (tv_sec w) \<and> argv ! 9 = ''timewarp'' then
        (if \<not> warp_ok E then (Some 1, ?out)
         else (case clk_warped E of None \<Rightarrow> (Some 1, ?out) | Some st' \<Rightarrow> plan9_after_warp B (ct (creds0 E)) E stk argv st' ?out))
      else plan9_after_warp B (ct (creds0 E)) E stk argv st no_out)"
  proof (cases "argv ! 9 = ''timewarp''")
    case tw: True
    from plan9_parent_eq [OF conjunct1 [OF True] st w_def, of ct] show ?thesis unfolding w [OF tw] .
  next
    case False
    with plan9_parent_eq [OF conjunct1 [OF True] st w_def, of ct] show ?thesis by simp
  qed
  have bound: "\<forall>e. clk_end E = Some e \<longrightarrow> round_trip_ms st' e \<le> TLS_RTT_UNREASONABLE" if "st' = st \<or> clk_warped E = Some st'" for st'
    using that assms(4) st by blast
  show ?thesis
  proof (cases "(word_of_int (tv_sec st) :: 64 word) < word_of_int (tv_sec w) \<and> argv ! 9 = ''timewarp''")
    case False
    then have "plan9_after_warp B (ct (creds0 E)) E stk argv st no_out = (status, out)" using assms(1) main by argo
    from plan9_after_warp_zero [OF assms(2) bound assms(3) this] no show ?thesis by simp
  next
    case warped: True
    show ?thesis
    proof (cases "warp_ok E \<and> clk_warped E \<noteq> None")
      case False
      then have "(status, out) = (Some 1, ?out)" using assms(1) main warped by (cases "clk_warped E"; cases "warp_ok E") simp_all
      then show ?thesis using warped by simp
    next
      case True
      then obtain st' where st': "clk_warped E = Some st'" by auto
      then have "plan9_after_warp B (ct (creds0 E)) E stk argv st' ?out = (status, out)" using assms(1) main warped True by simp
      from plan9_after_warp_zero [OF assms(2) bound assms(3) this] st' warped show ?thesis by simp
    qed
  qed
qed

text \<open>
  C40. The Plan 9 program, on OpenSSL as on PolarSSL, cannot set the clock from the network: its \<^verbatim>\<open>time_map\<close>
  is never allocated, so unless the stray pointer happens to lie in memory shared with the child the parent crashes or
  reads back its own 0. Whatever the server sends, after a round trip of reasonable length it
  never succeeds in setting the clock; all it may set is the warp time, and that is itself not
  initialised when the clock is to be warped but not set.
\<close>

theorem plan9_no_network_time:
  assumes "(status, out) \<in> {plan9_main B T E stk argv, plan9_polar_main B P fuel E stk argv}" and "stack_time_map stk \<noteq> Shared"
    and "15 \<le> RECENT_COMPILE_DATE B"
    and "\<forall>st e. clk_end E = Some e \<longrightarrow> clk_start E = Some st \<or> clk_warped E = Some st \<longrightarrow> round_trip_ms st e \<le> TLS_RTT_UNREASONABLE"
    and "warp = (if argv ! 7 = ''setclock'' then clock_init_time (RECENT_COMPILE_DATE B) 0 else stack_warp_time stk)"
  shows "(clock_sets out = [] \<or> argv ! 9 = ''timewarp'' \<and> clock_sets out = [warp]) \<and> (argv ! 7 = ''setclock'' \<longrightarrow> status \<noteq> Some 0)"
  using assms(1) plan9_parent_no_network_time [OF _ assms(2-5)] unfolding plan9_main_def plan9_polar_main_def by (metis insertE singletonD)

definition plan9_argv :: "string list" where
  "plan9_argv = [''tlsdate-helper'', ''www.example.org'', ''443'', ''tlsv1'', ''racket'', ''quiet'', ''/ca'', ''setclock'',
     ''no'', ''no-fun'', ''holdfast'', ''none'']"

theorem plan9_no_network_time_witness:
  "\<exists>status out. plan9_polar_main early_build (sample_polar None) 3 sample_helper_env
      \<lparr>stack_time_map = Private, stack_warp_time = clock_init_time 5 0\<rparr> plan9_argv = (status, out) \<and>
     clock_sets out = [] \<and> status \<noteq> Some 0"
proof -
  obtain status out where m: "plan9_polar_main early_build (sample_polar None) 3 sample_helper_env
      \<lparr>stack_time_map = Private, stack_warp_time = clock_init_time 5 0\<rparr> plan9_argv = (status, out)" by force
  have "round_trip_ms \<lparr>tv_sec = 1500, tv_nsec = 0\<rparr> \<lparr>tv_sec = 1502, tv_nsec = 0\<rparr> = 2000" by code_simp
  then show ?thesis
    using plan9_no_network_time [of status out early_build sample_tls sample_helper_env
        "\<lparr>stack_time_map = Private, stack_warp_time = clock_init_time 5 0\<rparr>" plan9_argv "sample_polar None" 3] m
    by (simp add: plan9_argv_def early_build_def sample_helper_env_def limit_defs)
qed

lemma plan9_after_warp_extends:
  "\<exists>rest. clock_sets (snd (plan9_after_warp B ct E stk argv st out)) = clock_sets out @ rest"
proof -
  have set: "\<exists>rest. clock_sets (snd (set_clock B E w rt o')) = clock_sets o' @ rest" for w rt o'
    by (rule set_clock_cases [of B E w rt o']) auto
  have "\<exists>rest. clock_sets (snd (plan9_finish B E argv st w out)) = clock_sets out @ rest" for w
  proof (cases "clk_end E")
    case None
    then show ?thesis by (simp add: plan9_finish_def)
  next
    case (Some e)
    then show ?thesis
      using set [of w "round_trip_ms st e" out] set [of w "round_trip_ms st e" "out\<lparr>human_out := human_out out @ [uint w]\<rparr>"]
      by (simp add: plan9_finish_def Let_def)
  qed
  then show ?thesis by (auto simp: plan9_after_warp_def Let_def split: sum.split)
qed

text \<open>
  Asked to warp the clock but not to set it, the Plan 9 program sets the clock to an
  uninitialised value, whenever that value is later than the current time.
\<close>

theorem plan9_warps_to_garbage:
  assumes "length argv = 12" and "argv ! 9 = ''timewarp''" and "argv ! 7 \<noteq> ''setclock''" and "clk_start E = Some st"
    and "(word_of_int (tv_sec st) :: 64 word) < word_of_int (tv_sec (stack_warp_time stk))"
  shows "\<exists>status out rest. plan9_main B T E stk argv = (status, out) \<and> clock_sets out = stack_warp_time stk # rest"
proof -
  let ?out = "no_out\<lparr>clock_sets := [stack_warp_time stk]\<rparr>"
  have main: "plan9_main B T E stk argv = (if \<not> warp_ok E then (Some 1, ?out) else (case clk_warped E of None \<Rightarrow> (Some 1, ?out)
      | Some st' \<Rightarrow> plan9_after_warp B (plan9_ssl_child B T argv (creds0 E)) E stk argv st' ?out))"
    using plan9_parent_eq [OF assms(1,4) refl, where B = B and ct = "plan9_ssl_child B T argv" and stk = stk] assms(2,3,5)
    by (simp add: plan9_main_def)
  have "\<exists>rest. clock_sets (snd (plan9_main B T E stk argv)) = [stack_warp_time stk] @ rest"
    using plan9_after_warp_extends [of B "plan9_ssl_child B T argv (creds0 E)" E stk argv _ ?out] by (auto simp: main split: option.split)
  then show ?thesis by (metis append_Cons append_Nil prod.collapse)
qed

theorem plan9_warps_to_garbage_witness:
  "\<exists>status out rest. plan9_main early_build sample_tls sample_helper_env
      \<lparr>stack_time_map = Private, stack_warp_time = clock_init_time 4000000000 0\<rparr>
      (plan9_argv[7 := ''dont-set-clock'', 9 := ''timewarp'']) = (status, out) \<and> clock_sets out = clock_init_time 4000000000 0 # rest"
  using plan9_warps_to_garbage [of "plan9_argv[7 := ''dont-set-clock'', 9 := ''timewarp'']" sample_helper_env "\<lparr>tv_sec = 1500, tv_nsec = 0\<rparr>"
      "\<lparr>stack_time_map = Private, stack_warp_time = clock_init_time 4000000000 0\<rparr>" early_build sample_tls]
  by (simp add: plan9_argv_def sample_helper_env_def clock_init_time_def word_less_def uint_word_of_int)

end
