(* ===== verification/Clocks.thy ===== *)
theory Clocks
  imports Helper
begin

text \<open>
  The clocks of the supported systems, \<^verbatim>\<open>src/compat/clock-linux.c\<close>, \<^verbatim>\<open>clock-hurd.c\<close> and \<^verbatim>\<open>clock-darwin.c\<close>.
  Each has three functions; which of them the helper calls is a choice of the build. The system calls
  are parameters: functions on a state \<open>'k\<close> of the kernel, which return what the call returns and what
  it leaves behind. A pointer is \<open>None\<close> when it is NULL. On Darwin a time is a \<^verbatim>\<open>mach_timespec_t\<close>, whose
  seconds have 32 bits without sign and whose nanoseconds have 32 bits with sign.
\<close>

section \<open>GNU/Linux and the Hurd\<close>

text \<open>\<^verbatim>\<open>clock_gettime\<close> fills the structure it is given, \<^verbatim>\<open>clock_settime\<close> changes the clock.\<close>

type_synonym 'k gettime_call = "'k \<Rightarrow> tlsdate_time \<Rightarrow> int \<times> tlsdate_time"
type_synonym 'k settime_call = "tlsdate_time \<Rightarrow> 'k \<Rightarrow> int \<times> 'k"

definition clock_get_real_time :: "'k gettime_call \<Rightarrow> 'k \<Rightarrow> tlsdate_time option \<Rightarrow> (int \<times> tlsdate_time) result" where
  "clock_get_real_time clock_gettime k time =
     (case time of None \<Rightarrow> Inl Abort | Some t \<Rightarrow> Inr (clock_gettime k t))"

definition clock_set_real_time :: "'k settime_call \<Rightarrow> tlsdate_time option \<Rightarrow> 'k \<Rightarrow> (int \<times> 'k) result" where
  "clock_set_real_time clock_settime time k =
     (case time of None \<Rightarrow> Inl Abort | Some t \<Rightarrow> Inr (clock_settime t k))"

definition hurd_get_real_time :: "'k gettime_call \<Rightarrow> 'k \<Rightarrow> tlsdate_time option \<Rightarrow> (int \<times> tlsdate_time) result" where
  "hurd_get_real_time clock_gettime k time =
     (case time of None \<Rightarrow> Inl Abort | Some t \<Rightarrow> Inr (clock_gettime k t))"

definition hurd_set_real_time :: "'k settime_call \<Rightarrow> tlsdate_time option \<Rightarrow> 'k \<Rightarrow> (int \<times> 'k) result" where
  "hurd_set_real_time clock_settime time k =
     (case time of None \<Rightarrow> Inl Abort | Some t \<Rightarrow> Inr (clock_settime t k))"

definition hurd_init_time :: "time_t \<Rightarrow> int \<Rightarrow> tlsdate_time" where
  "hurd_init_time sec nsec = \<lparr>tv_sec = sec, tv_nsec = nsec\<rparr>"

section \<open>Darwin\<close>

text \<open>
  What the calls return that get the clock service, read it and give it back, 0 being \<^verbatim>\<open>KERN_SUCCESS\<close>;
  reading also yields the seconds and nanoseconds of the \<^verbatim>\<open>mach_timespec_t\<close>.
\<close>

record mach_calls =
  host_get_clock_service :: int
  clock_get_time :: "int \<times> uint32 \<times> uint32"
  mach_port_deallocate :: int

definition darwin_get_real_time :: "mach_calls \<Rightarrow> tlsdate_time option \<Rightarrow> (int \<times> tlsdate_time) result" where
  "darwin_get_real_time M time =
     (case time of
        None \<Rightarrow> Inl Abort
      | Some t \<Rightarrow>
          Inr (if host_get_clock_service M \<noteq> 0 then (-1, t)
               else (case clock_get_time M of (r, sec, nsec) \<Rightarrow>
                 if r \<noteq> 0 then (-1, t)
                 else if mach_port_deallocate M \<noteq> 0 then (-1, t)
                 else (mach_port_deallocate M, t\<lparr>tv_sec := uint sec, tv_nsec := sint nsec\<rparr>))))"

text \<open>\<^verbatim>\<open>settimeofday\<close> takes seconds and microseconds.\<close>

definition darwin_set_real_time :: "(time_t \<Rightarrow> int \<Rightarrow> 'k \<Rightarrow> int \<times> 'k) \<Rightarrow> tlsdate_time option \<Rightarrow> 'k \<Rightarrow> (int \<times> 'k) result" where
  "darwin_set_real_time settimeofday time k =
     (case time of
        None \<Rightarrow> Inl Abort
      | Some t \<Rightarrow> Inr (case settimeofday (tv_sec t) 0 k of (r, k') \<Rightarrow> if r \<noteq> 0 then (-1, k') else (r, k')))"

definition darwin_init_time :: "time_t \<Rightarrow> int \<Rightarrow> tlsdate_time" where
  "darwin_init_time sec nsec = \<lparr>tv_sec = uint (word_of_int sec :: uint32), tv_nsec = sint (word_of_int nsec :: uint32)\<rparr>"

section \<open>Setting and reading back\<close>

text \<open>
  The documented behaviour of the two pairs of calls: the time that was set is the time that is read,
  as long as no time passes.
\<close>

definition clock_calls_agree :: "'k settime_call \<Rightarrow> 'k gettime_call \<Rightarrow> bool" where
  "clock_calls_agree settime gettime \<longleftrightarrow> (\<forall>t k k' t0. settime t k = (0, k') \<longrightarrow> gettime k' t0 = (0, t))"

definition darwin_calls_agree :: "(time_t \<Rightarrow> int \<Rightarrow> 'k \<Rightarrow> int \<times> 'k) \<Rightarrow> ('k \<Rightarrow> mach_calls) \<Rightarrow> bool" where
  "darwin_calls_agree settimeofday mach \<longleftrightarrow>
     (\<forall>sec usec k k'. settimeofday sec usec k = (0, k') \<longrightarrow>
        clock_get_time (mach k') = (0, word_of_int sec, word_of_int (1000 * usec)))"

text \<open>On GNU/Linux and the Hurd nothing is lost.\<close>

lemma clock_set_get:
  assumes "clock_calls_agree settime gettime" and "clock_set_real_time settime (Some t) k = Inr (0, k')"
  shows "clock_get_real_time gettime k' (Some t0) = Inr (0, t)"
  using assms by (simp add: clock_calls_agree_def clock_set_real_time_def clock_get_real_time_def)

lemma hurd_set_get:
  assumes "clock_calls_agree settime gettime" and "hurd_set_real_time settime (Some t) k = Inr (0, k')"
  shows "hurd_get_real_time gettime k' (Some t0) = Inr (0, t)"
  using assms by (simp add: clock_calls_agree_def hurd_set_real_time_def hurd_get_real_time_def)

text \<open>On Darwin the fraction of a second is lost, and the second is kept if it has 32 bits.\<close>

lemma darwin_set_get:
  assumes "darwin_calls_agree settimeofday mach" and "0 \<le> sec" "sec < 2 ^ 32"
    and "darwin_set_real_time settimeofday (Some (darwin_init_time sec nsec)) k = Inr (0, k')"
    and "host_get_clock_service (mach k') = 0" "mach_port_deallocate (mach k') = 0"
  shows "darwin_get_real_time (mach k') (Some t0) = Inr (0, t0\<lparr>tv_sec := sec, tv_nsec := 0\<rparr>)"
proof -
  have sec: "uint (word_of_int sec :: uint32) = sec"
    using assms(2,3) by (simp add: unsigned_of_int take_bit_int_eq_self)
  have "settimeofday sec 0 k = (0, k')"
    using assms(4) by (simp add: darwin_set_real_time_def darwin_init_time_def sec split: prod.splits if_splits)
  then have "clock_get_time (mach k') = (0, word_of_int sec, word_of_int 0)"
    using assms(1) unfolding darwin_calls_agree_def by fastforce
  then show ?thesis using assms(5,6) sec by (simp add: darwin_get_real_time_def)
qed

text \<open>A call of Darwin that fails is reported as -1 and leaves the time as it was.\<close>

lemma darwin_get_fails:
  assumes "darwin_get_real_time M (Some t) = Inr (r, t')" and "r \<noteq> 0"
  shows "r = -1 \<and> t' = t"
  using assms by (auto simp: darwin_get_real_time_def split: prod.splits if_splits)

end
