(* ===== verification/Unit_Tests.thy ===== *)
theory Unit_Tests
  imports Events Proxy_Bio Fmemopen
begin

text \<open>
  The unit tests of the repository run on the model: \<^verbatim>\<open>src/proxy-bio-unittest.c\<close>, \<^verbatim>\<open>src/conf-unittest.c\<close> and the
  tests of \<^verbatim>\<open>src/tlsdated-unittest.c\<close> that do not need an event loop, with the programs of \<^verbatim>\<open>src/test\<close>
  that stand in for \<^verbatim>\<open>tlsdate\<close>. A test is the conjunction of its expectations, evaluated on the
  definitions of the development; that they hold ties the definitions to what the authors expect of
  the code.
\<close>

section \<open>proxy-bio-unittest.c\<close>

definition kTestHost :: string where "kTestHost = ''www.google.com''"
definition TEST_PORT :: "16 word" where "TEST_PORT = 80"

definition proxy_bio :: "string \<Rightarrow> proxy_ctx" where
  "proxy_bio type =
     BIO_proxy_set_port TEST_PORT (snd (BIO_proxy_set_host kTestHost (snd (BIO_proxy_set_type type proxy_new))))"

definition need_out_bytes :: "test_ctx \<Rightarrow> byte list \<Rightarrow> int \<times> test_ctx" where
  "need_out_bytes test out =
     (if length (t_out test) < length out then (2, test)
      else let (buf, test') = BIO_test_get_output (length out) test
           in if length buf \<noteq> length out then (3, test')
              else (if buf = out then 0 else 1, test'))"

definition put_bytes :: "byte list \<Rightarrow> test_ctx \<Rightarrow> test_ctx" where
  "put_bytes buf test = BIO_test_add_input buf test"

text \<open>The expectations on the output, one after the other, and that nothing is left.\<close>

fun expect_outs :: "byte list list \<Rightarrow> test_ctx \<Rightarrow> bool" where
  "expect_outs [] test \<longleftrightarrow> t_out test = []"
| "expect_outs (out # wanted) test \<longleftrightarrow> (let (r, test') = need_out_bytes test out in r = 0 \<and> expect_outs wanted test')"

definition kTestInput :: "byte list" where "kTestInput = [0xde, 0xad, 0xbe, 0xef]"

definition port_bytes :: "byte list" where "port_bytes = [0x00, 80]"

definition kSocks4ARequest :: "byte list" where
  "kSocks4ARequest = [0x04, 0x01] @ port_bytes @ [0x00, 0x00, 0x00, 0x01, 0x00] @ bytes_of kTestHost @ [0x00]"

definition kSocks5AuthRequest :: "byte list" where "kSocks5AuthRequest = [0x05, 0x01, 0x00]"
definition kSocks5AuthReply :: "byte list" where "kSocks5AuthReply = [0x05, 0x00]"

definition kSocks5ConnectRequest :: "byte list" where
  "kSocks5ConnectRequest = [0x05, 0x01, 0x00, 0x03, 14] @ bytes_of kTestHost @ port_bytes"

definition kSocks5ConnectReply :: "byte list" where
  "kSocks5ConnectReply = [0x05, 0x00, 0x00, 0x03, 14] @ bytes_of kTestHost @ port_bytes"

text \<open>What the tests share: the input for the filter, one write of the payload, its result and output.\<close>

definition run_test :: "string \<Rightarrow> byte list list \<Rightarrow> int \<Rightarrow> byte list list \<Rightarrow> bool" where
  "run_test type input expected wanted =
     (case proxy_write test_methods 100 True kTestInput (proxy_bio type) (fold put_bytes input test_new) of
        Inr (Some (r, _, test)) \<Rightarrow> r = expected \<and> expect_outs wanted test
      | _ \<Rightarrow> False)"

definition socks4a_success :: bool where
  "socks4a_success = run_test ''socks4a'' [[0x00, 0x5a] @ port_bytes @ [0x00, 0x00, 0x00, 0x00]] 4 [kSocks4ARequest, kTestInput]"

definition socks4a_fail :: bool where
  "socks4a_fail = run_test ''socks4a'' [[0x00, 0x5b] @ port_bytes @ [0x00, 0x00, 0x00, 0x00]] 0 [kSocks4ARequest]"

definition socks5_success :: bool where
  "socks5_success = run_test ''socks5'' [kSocks5AuthReply, kSocks5ConnectReply] 4 [kSocks5AuthRequest, kSocks5ConnectRequest, kTestInput]"

definition socks5_auth_fail :: bool where
  "socks5_auth_fail = run_test ''socks5'' [[0x05, 0xff]] 0 [kSocks5AuthRequest]"

definition socks5_connect_fail :: bool where
  "socks5_connect_fail =
     run_test ''socks5'' [kSocks5AuthReply, [0x05, 0x01, 0x00, 0x03, 14] @ bytes_of kTestHost @ port_bytes] 0
       [kSocks5AuthRequest, kSocks5ConnectRequest]"

definition kConnectRequest :: "byte list" where
  "kConnectRequest = bytes_of (''CONNECT www.google.com:80 HTTP/1.1'' @ CRLF @ ''Host: www.google.com:80'' @ CRLF @ CRLF)"

definition kConnectResponse :: "string \<Rightarrow> byte list" where
  "kConnectResponse status = bytes_of (status @ CRLF @ ''Uninteresting-Header: foobar'' @ CRLF @ ''Another-Header: lol'' @ CRLF @ CRLF)"

definition http_success :: bool where
  "http_success = run_test ''http'' [kConnectResponse ''HTTP/1.0 200 OK''] 4 [kConnectRequest, kTestInput]"

definition http_error :: bool where
  "http_error = run_test ''http'' [kConnectResponse ''HTTP/1.0 403 NO U''] 0 [kConnectRequest]"

text \<open>
  The tests of the HTTP proxy read one byte at a time; they follow from what the handshake does on
  any stream with such an answer.
\<close>

lemma need_out_bytes_prefix: "t_out test = out @ rest \<Longrightarrow> need_out_bytes test out = (0, test\<lparr>t_out := rest\<rparr>)"
  by (simp add: need_out_bytes_def BIO_test_get_output_def buf_drain_eq)

lemma expect_outs_concat: "t_out test = concat wanted \<Longrightarrow> expect_outs wanted test"
  by (induction wanted arbitrary: test) (simp_all add: need_out_bytes_prefix)

definition header_lines :: "string list" where
  "header_lines = [''Uninteresting-Header: foobar'' @ [CHR 0x0D], ''Another-Header: lol'' @ [CHR 0x0D]]"

lemma kConnectResponse_eq: "kConnectResponse status = bytes_of ((status @ [CHR 0x0D]) @ [CHR 0x0A] @ header_text header_lines @ CRLF)"
  by (simp add: kConnectResponse_def header_lines_def header_text_def CRLF_def)

lemma http_lines: "bytes_of (connect_line kTestHost TEST_PORT) @ bytes_of (host_line kTestHost TEST_PORT) @ bytes_of CRLF = kConnectRequest"
proof -
  have "show_int (uint TEST_PORT) = ''80''" by code_simp
  then show ?thesis by (simp add: connect_line_def host_line_def kConnectRequest_def kTestHost_def CRLF_def HTTP_BUF_def)
qed

lemma status_lines:
  "header_ok (''HTTP/1.0 200 OK'' @ [CHR 0x0D])" "header_ok (''HTTP/1.0 403 NO U'' @ [CHR 0x0D])" "\<forall>h \<in> set header_lines. header_ok h"
  "scan_status ((''HTTP/1.0 200 OK'' @ [CHR 0x0D]) @ [CHR 0x0A]) = Some 200"
  "scan_status ((''HTTP/1.0 403 NO U'' @ [CHR 0x0D]) @ [CHR 0x0A]) = Some 403"
  "length header_lines < 100"
  by code_simp+

lemma proxy_bio_http: "p_port (proxy_bio ''http'') = TEST_PORT"
  "proxy_connect ops fuel (proxy_bio ''http'') b = Inr (http_connect ops fuel kTestHost (proxy_bio ''http'') b)"
  "\<not> p_connected (proxy_bio ''http'')"
  by (simp_all add: proxy_bio_def proxy_connect_def BIO_proxy_set_port_def BIO_proxy_set_host_def BIO_proxy_set_type_def proxy_new_def
      kTestHost_def strnlen_def NI_MAXHOST_def)

lemma put_response: "t_in (put_bytes bs test_new) = bs" "t_out (put_bytes bs test_new) = []"
  by (simp_all add: put_bytes_def BIO_test_add_input_def buf_fill_def test_new_def)

lemma http_test_success:
  assumes "header_ok (status @ [CHR 0x0D])" and "scan_status ((status @ [CHR 0x0D]) @ [CHR 0x0A]) = Some code" and "200 \<le> code" "code \<le> 299"
  shows "run_test ''http'' [kConnectResponse status] 4 [kConnectRequest, kTestInput]"
proof -
  let ?b = "put_bytes (kConnectResponse status) test_new"
  have "t_in ?b = bytes_of ((status @ [CHR 0x0D]) @ [CHR 0x0A] @ header_text header_lines @ CRLF) @ []"
    by (simp only: put_response kConnectResponse_eq append_Nil2)
  from test_bio.http_stream [OF this assms(1) status_lines(3) assms(2-4) status_lines(6), of kTestHost "proxy_bio ''http''"]
  obtain b' where "http_connect test_methods 100 kTestHost (proxy_bio ''http'') ?b = Some (1, (proxy_bio ''http'')\<lparr>p_connected := True\<rparr>, b')"
    "t_out b' = kConnectRequest"
    by (auto simp: proxy_bio_http http_lines put_response)
  then show ?thesis
    by (simp add: run_test_def proxy_write_def proxy_bio_http kTestInput_def test_methods_def test_write_def buf_fill_def expect_outs_concat
        del: expect_outs.simps)
qed

lemma http_test_refused:
  assumes "header_ok (status @ [CHR 0x0D])" and "scan_status ((status @ [CHR 0x0D]) @ [CHR 0x0A]) = Some code" and "code < 200 \<or> 299 < code"
  shows "run_test ''http'' [kConnectResponse status] 0 [kConnectRequest]"
proof -
  let ?b = "put_bytes (kConnectResponse status) test_new"
  have "t_in ?b = bytes_of ((status @ [CHR 0x0D]) @ [CHR 0x0A]) @ bytes_of (header_text header_lines @ CRLF)"
    unfolding put_response kConnectResponse_eq by simp
  from test_bio.http_refused [OF this assms(1), of 100 kTestHost "proxy_bio ''http''"] assms(2,3)
  obtain b' where "http_connect test_methods 100 kTestHost (proxy_bio ''http'') ?b = Some (0, proxy_bio ''http'', b')" "t_out b' = kConnectRequest"
    by (auto simp: proxy_bio_http http_lines put_response)
  then show ?thesis
    by (simp add: run_test_def proxy_write_def proxy_bio_http kTestInput_def expect_outs_concat del: expect_outs.simps)
qed

theorem proxy_bio_unittests:
  "socks4a_success" "socks4a_fail" "socks5_success" "socks5_auth_fail" "socks5_connect_fail" "http_success" "http_error"
proof -
  show "socks4a_success" by code_simp
  show "socks4a_fail" by code_simp
  show "socks5_success" by code_simp
  show "socks5_auth_fail" by code_simp
  show "socks5_connect_fail" by code_simp
  show "http_success" unfolding http_success_def by (rule http_test_success [OF status_lines(1,4)]) simp_all
  show "http_error" unfolding http_error_def by (rule http_test_refused [OF status_lines(2,5)]) simp
qed

section \<open>conf-unittest.c\<close>

text \<open>The string as a file in memory, read through the version on \<^verbatim>\<open>funopen\<close>.\<close>

definition fopenstr :: "string \<Rightarrow> string option" where
  "fopenstr str =
     (case fmemopen_funopen True str (length str) ''r'' of
        None \<Rightarrow> None | Some f \<Rightarrow> read_to_end fun_rd 1024 (length str + 1) f)"

definition parsed :: "string \<Rightarrow> (string \<times> string option) list option" where
  "parsed str = (case fopenstr str of
       None \<Rightarrow> None
     | Some f \<Rightarrow> (case conf_parse (\<lambda>_. True) f of Inl _ \<Rightarrow> None | Inr es \<Rightarrow> Some (map (\<lambda>e. (key e, val e)) es)))"

definition parse_empty :: bool where
  "parse_empty \<longleftrightarrow> parsed [NL] = Some []"

definition parse_basic :: bool where
  "parse_basic \<longleftrightarrow> parsed (''foo bar'' @ [NL] @ ''baz quxx'' @ [NL]) = Some [(''foo'', Some ''bar''), (''baz'', Some ''quxx'')]"

definition parse_novalue :: bool where
  "parse_novalue \<longleftrightarrow> parsed (''abcdef'' @ [NL]) = Some [(''abcdef'', None)]"

definition parse_whitespace :: bool where
  "parse_whitespace \<longleftrightarrow> parsed (''         fribble'' @ [TAB, TAB] @ ''  grotz  '' @ [NL]) = Some [(''fribble'', Some ''grotz  '')]"

definition parse_comment :: bool where
  "parse_comment \<longleftrightarrow> parsed (''#foo bar'' @ [NL] @ ''baz quxx'' @ [NL]) = Some [(''baz'', Some ''quxx'')]"

lemma fopenstr_eq: "fopenstr str = Some str"
  using funopen.read_to_end_contents [of "\<lparr>fmc_buffer = str, fmc_index = 0, fmc_limit = length str\<rparr>" 1024 "length str + 1"]
  by (simp add: fopenstr_def fmemopen_funopen_def fmem_ok_def)

text \<open>The loop of the parser over a line, so that the tests are evaluated line by line.\<close>

lemma conf_loop_line:
  assumes "NL \<notin> set line" and "length line < 1000"
  shows "conf_loop alloc acc (line @ NL # rest) =
     (case parse_line (line @ [NL]) of
        Inl e \<Rightarrow> Inl e
      | Inr None \<Rightarrow> conf_loop alloc acc rest
      | Inr (Some e) \<Rightarrow> if alloc (length acc) then conf_loop alloc (acc @ [e]) rest else Inr [])"
  using fgets_line [OF assms(1), of CONF_MAX_LINE rest] assms(2)
  by (subst conf_loop.simps) (simp add: CONF_MAX_LINE_def)

lemma conf_loop_end: "conf_loop alloc acc [] = Inr acc"
  by (subst conf_loop.simps) (simp add: fgets_def)

lemma test_lines:
  "parse_line [NL] = Inr None" "parse_line (''#foo bar'' @ [NL]) = Inr None"
  "parse_line (''foo bar'' @ [NL]) = Inr (Some \<lparr>key = ''foo'', val = Some ''bar''\<rparr>)"
  "parse_line (''baz quxx'' @ [NL]) = Inr (Some \<lparr>key = ''baz'', val = Some ''quxx''\<rparr>)"
  "parse_line (''abcdef'' @ [NL]) = Inr (Some \<lparr>key = ''abcdef'', val = None\<rparr>)"
  "parse_line (''         fribble'' @ [TAB, TAB] @ ''  grotz  '' @ [NL]) = Inr (Some \<lparr>key = ''fribble'', val = Some ''grotz  ''\<rparr>)"
  by code_simp+

theorem conf_unittests: "parse_empty" "parse_basic" "parse_novalue" "parse_whitespace" "parse_comment"
proof -
  note defs = parsed_def fopenstr_eq conf_parse_def conf_loop_end
  show "parse_empty"
    using conf_loop_line [of "[]" "\<lambda>_. True" "[]" "[]"] test_lines(1) by (simp add: parse_empty_def defs)
  show "parse_basic"
    using conf_loop_line [of "''foo bar''" "\<lambda>_. True" "[]" "''baz quxx'' @ [NL]"] conf_loop_line [of "''baz quxx''" "\<lambda>_. True" _ "[]"]
      test_lines(3,4) by (simp add: parse_basic_def defs NL_def)
  show "parse_novalue"
    using conf_loop_line [of "''abcdef''" "\<lambda>_. True" "[]" "[]"] test_lines(5) by (simp add: parse_novalue_def defs NL_def)
  show "parse_whitespace"
    using conf_loop_line [of "''         fribble'' @ [TAB, TAB] @ ''  grotz  ''" "\<lambda>_. True" "[]" "[]"] test_lines(6)
    by (simp add: parse_whitespace_def defs NL_def TAB_def)
  show "parse_comment"
    using conf_loop_line [of "''#foo bar''" "\<lambda>_. True" "[]" "''baz quxx'' @ [NL]"] conf_loop_line [of "''baz quxx''" "\<lambda>_. True" _ "[]"]
      test_lines(2,4) by (simp add: parse_comment_def defs NL_def)
qed

section \<open>tlsdated-unittest.c\<close>

definition INT_MAX :: int where "INT_MAX = 2147483647"

definition sane_time :: "build \<Rightarrow> bool" where
  "sane_time B \<longleftrightarrow> \<not> is_sane_time B 0 \<and> \<not> is_sane_time B INT_MAX"

definition sane_host_time :: "build \<Rightarrow> time_t \<Rightarrow> bool" where
  "sane_host_time B now \<longleftrightarrow> is_sane_time B now"

text \<open>
  The file that \<^verbatim>\<open>write_time\<close> leaves: the first write is made at offset 0 and does not move the
  position, so that the second one writes the same eight bytes over it.
\<close>

definition write_time :: "time_t \<Rightarrow> (byte list \<times> int)" where
  "write_time t =
     (case save_timestamp_to_fd t 8 [] of
        (contents, r) \<Rightarrow> if r \<noteq> 0 then (contents, 1) else (fst (file_write (time_bytes t) 8 contents), 0))"

definition read_time :: "byte list \<Rightarrow> time_t option" where
  "read_time contents = (if length (take 8 contents) \<noteq> 8 then None else Some (bytes_time (take 8 contents)))"

text \<open>A load that fails leaves the variable as it is.\<close>

definition load_into :: "build \<Rightarrow> byte list option \<Rightarrow> time_t \<Rightarrow> int \<times> time_t" where
  "load_into B file tm = (case load_disk_timestamp B (\<lambda>_. file) ''load'' of None \<Rightarrow> (-1, tm) | Some t \<Rightarrow> (0, t))"

definition load_time :: "build \<Rightarrow> time_t \<Rightarrow> bool" where
  "load_time B now \<longleftrightarrow>
     snd (write_time 0) = 0 \<and> load_into B (Some (fst (write_time 0))) 3 = (-1, 3) \<and>
     snd (write_time INT_MAX) = 0 \<and> load_into B (Some (fst (write_time INT_MAX))) 3 = (-1, 3) \<and>
     snd (write_time now) = 0 \<and> load_into B (Some (take 2 (fst (write_time now)))) 3 = (-1, 3) \<and>
     load_into B None 3 = (-1, 3) \<and>
     load_into B (Some (fst (write_time now))) 3 = (0, now)"

definition save_time :: "time_t \<Rightarrow> bool" where
  "save_time now \<longleftrightarrow> snd (write_time now) = 0 \<and> read_time (fst (write_time now)) = Some now"

text \<open>The random numbers that the calls draw are an argument.\<close>

definition jitter :: "uint32 list \<Rightarrow> bool" where
  "jitter rnds \<longleftrightarrow>
     (\<forall>n \<in> set rnds. case add_jitter (Some n) 100 25 of Inr r \<Rightarrow> 100 - 25 \<le> r \<and> r \<le> 100 + 25 | Inl _ \<Rightarrow> False) \<and>
     (\<exists>n \<in> set rnds. add_jitter (Some n) 100 25 \<noteq> Inr 100)"

lemma write_time_eq: "write_time t = (time_bytes t, 0)"
  by (simp add: write_time_def save_timestamp_to_fd_def file_write_def)

text \<open>The tests pass whenever the clock of the host is sane and the random numbers vary.\<close>

theorem tlsdated_unittests:
  assumes "0 \<le> RECENT_COMPILE_DATE B" and "is_sane_time B now"
    and "\<forall>n \<in> set rnds. sint n \<noteq> - (2 ^ 31)" and "\<exists>n \<in> set rnds. add_jitter (Some n) 100 25 \<noteq> Inr 100"
  shows "sane_time B" "sane_host_time B now" "load_time B now" "save_time now" "jitter rnds"
proof -
  have pos: "0 < now" "now < 2 ^ 31" using assms(1,2) by (auto simp: is_sane_time_def limit_defs)
  have b: "bytes_time (time_bytes 0) = 0" "bytes_time (time_bytes INT_MAX) = INT_MAX" "bytes_time (time_bytes now) = now"
    using pos by (simp_all add: bytes_time_of_bytes INT_MAX_def)
  show s: "sane_time B" using assms(1) by (simp add: sane_time_def is_sane_time_def INT_MAX_def limit_defs)
  show "sane_host_time B now" using assms(2) by (simp add: sane_host_time_def)
  show "load_time B now"
    using s assms(2) b by (simp add: load_time_def load_into_def load_disk_timestamp_def file_read_def write_time_eq sane_time_def)
  show "save_time now" using b by (simp add: save_time_def write_time_eq read_time_def)
  have "case add_jitter (Some n) 100 25 of Inr r \<Rightarrow> 100 - 25 \<le> r \<and> r \<le> 100 + 25 | Inl _ \<Rightarrow> False" if "n \<in> set rnds" for n
  proof -
    obtain r where r: "add_jitter (Some n) 100 25 = Inr r" by (auto simp: add_jitter_def)
    have "sint n \<noteq> - (2 ^ 31)" using assms(3) that by blast
    from add_jitter_range [OF r _ this] r show ?thesis by simp
  qed
  then show "jitter rnds" using assms(4) unfolding jitter_def by blast
qed

section \<open>The stand-ins for tlsdate\<close>

text \<open>The exit status and what is printed.\<close>

definition check_host :: "build \<Rightarrow> string \<Rightarrow> string \<Rightarrow> string \<Rightarrow> string list \<Rightarrow> int \<times> uint32 option" where
  "check_host B host port proxy argv =
     (if length argv < 7 then (3, None)
      else if argv ! 2 = host \<and> argv ! 4 = port \<and> argv ! 6 = proxy then (0, Some (word_of_int (RECENT_COMPILE_DATE B + 1)))
      else (1, None))"

definition check_host_1 :: "build \<Rightarrow> string list \<Rightarrow> int \<times> uint32 option" where
  "check_host_1 B argv = check_host B ''host1'' ''port1'' ''proxy1'' argv"

definition check_host_2 :: "build \<Rightarrow> string list \<Rightarrow> int \<times> uint32 option" where
  "check_host_2 B argv = check_host B ''host2'' ''port2'' ''proxy2'' argv"

fun proxy_scan :: "string list \<Rightarrow> bool \<Rightarrow> bool \<times> bool" where
  "proxy_scan [] good = (good, False)"
| "proxy_scan (a # argv) good =
     (let good' = (if a = ''socks5://good.proxy'' then True else good)
      in if a = ''socks5://bad.proxy'' then (good', True) else proxy_scan argv good')"

definition proxy_override :: "build \<Rightarrow> string list \<Rightarrow> int \<times> uint32 option" where
  "proxy_override B argv =
     (let (saw_good_proxy, bad) = proxy_scan argv False;
          t = (if bad then RECENT_COMPILE_DATE B + 3 else RECENT_COMPILE_DATE B + 1)
      in (0, Some (word_of_int (if saw_good_proxy then RECENT_COMPILE_DATE B + 2 else t))))"

definition emit_time :: "build \<Rightarrow> string list \<Rightarrow> int \<times> uint32 option" where
  "emit_time B argv =
     (0, Some (if length argv > 1 then word_of_int (atoi (argv ! 1)) else word_of_int (RECENT_COMPILE_DATE B + 1)))"

text \<open>The options of the tests: one program and some sources.\<close>

definition test_opts :: "build \<Rightarrow> string \<Rightarrow> source list \<Rightarrow> string option \<Rightarrow> opts" where
  "test_opts B prog srcs proxy = (set_conf_defaults B)\<lparr>base_argv := [prog], sources := srcs, opt_proxy := proxy\<rparr>"

definition s1 :: source where "s1 = \<lparr>src_host = ''host1'', src_port = ''port1'', src_proxy = Some ''proxy1'', src_id = 0\<rparr>"
definition s2 :: source where "s2 = \<lparr>src_host = ''host2'', src_port = ''port2'', src_proxy = Some ''proxy2'', src_id = 0\<rparr>"

text \<open>What the child that the daemon starts for these options prints.\<close>

definition child_prints :: "(string list \<Rightarrow> int \<times> uint32 option) \<Rightarrow> opts \<Rightarrow> uint32 option" where
  "child_prints prog o1 = (case child_argv o1 of None \<Rightarrow> None | Some av \<Rightarrow> snd (prog av))"

lemma proxy_override_expectations:
  defines "plain \<equiv> \<lparr>src_host = ''host'', src_port = ''port'', src_proxy = None, src_id = 0\<rparr>"
  shows "child_prints (proxy_override B) (test_opts B ''src/test/proxy-override'' [plain] None) = Some (word_of_int (RECENT_COMPILE_DATE B + 1))"
    and "child_prints (proxy_override B) (test_opts B ''src/test/proxy-override'' [plain\<lparr>src_proxy := Some ''socks5://bad.proxy''\<rparr>] None) =
      Some (word_of_int (RECENT_COMPILE_DATE B + 3))"
    and "child_prints (proxy_override B) (test_opts B ''src/test/proxy-override'' [plain\<lparr>src_proxy := Some ''socks5://bad.proxy''\<rparr>]
        (Some ''socks5://good.proxy'')) = Some (word_of_int (RECENT_COMPILE_DATE B + 2))"
  by (simp_all add: child_prints_def test_opts_def child_argv_def tlsdate_child_def build_argv_def next_source_def proxy_args_def
      set_conf_defaults_def proxy_override_def plain_def)

text \<open>
  The rotation test: the child for the second host never succeeds, however often it is started,
  because every child computes the first source anew. The test passes all the same, since the
  time of its first run is never cleared.
\<close>

lemma rotate_hosts_children:
  "child_prints (check_host_1 B) (test_opts B ''src/test/check-host-1'' [s1, s2] None) = Some (word_of_int (RECENT_COMPILE_DATE B + 1))"
  "child_prints (check_host_2 B) (test_opts B ''src/test/check-host-2'' [s1, s2] None) = None"
  by (simp_all add: child_prints_def test_opts_def child_argv_def tlsdate_child_def build_argv_def next_source_def proxy_args_def
      set_conf_defaults_def check_host_1_def check_host_2_def check_host_def s1_def s2_def)

end
