(* ===== verification/Test_Runner.thy ===== *)
theory Test_Runner
  imports Unit_Tests
begin

text \<open>
  The tests of \<^verbatim>\<open>src/tlsdated-unittest.c\<close> that run the event loop: \<^verbatim>\<open>runner_multi\<close>, \<^verbatim>\<open>rotate_hosts\<close> and
  \<^verbatim>\<open>proxy_override\<close>. Their fixture has only the events for starting a child, its output, its timeout and its
  death, so that a run of the loop is a sequence of attempts, each of which starts the program of the
  test in place of \<^verbatim>\<open>tlsdate\<close>. The loop is that of a clock: an attempt that is due before the end of the run
  is made, and what a program does within this time is seen by the handlers of \<open>Events\<close>.
\<close>

section \<open>The fixture\<close>

text \<open>A program: how many seconds it runs, its exit status and what it prints.\<close>

type_synonym program = "string list \<Rightarrow> int \<times> int \<times> uint32 option"

definition fixture_handles :: "event_id \<Rightarrow> nat option" where
  "fixture_handles i =
     (if i = E_SIGCHLD then Some 1 else if i = E_TLSDATE then Some 2
      else if i = E_TLSDATE_STATUS then Some 3 else if i = E_TLSDATE_TIMEOUT then Some 4 else None)"

definition fixture :: "opts \<Rightarrow> evtab state" where
  "fixture o1 = (zero_state o1 (\<lambda>_. None))\<lparr>events := fixture_handles\<rparr>"

text \<open>
  One attempt with \<open>left\<close> seconds to go: the child is started, and if it ends in time its output is
  read and its death is booked. The first component is the time that has passed.
\<close>

definition attempt :: "build \<Rightarrow> pid_t \<Rightarrow> program \<Rightarrow> int \<Rightarrow> evtab state \<Rightarrow> (int \<times> evtab state) result" where
  "attempt B pid prog left s =
     bind_res (action_run_tlsdate table_lib pid s) (\<lambda>s1.
       if \<not> running s1 \<or> tlsdate_pid s1 \<noteq> pid then Inr (0, s1)
       else
         let (secs, status, out) = (case child_argv (opts s1) of None \<Rightarrow> (0, 1, None) | Some av \<Rightarrow> prog av)
         in if left \<le> secs then Inr (left, s1)
            else
              let s2 = (case out of None \<Rightarrow> s1 | Some w \<Rightarrow> action_tlsdate_status B table_lib (Rd (le_bytes 4 (unat w))) s1)
              in bind_res (action_sigchld table_lib [(Wait_Ok \<lparr>si_pid = pid, si_status = status, si_code = 1\<rparr>, 0)] s2)
                   (\<lambda>s3. Inr (secs, s3)))"

text \<open>\<^verbatim>\<open>event_base_dispatch\<close> until the loop is left: \<open>None\<close> when the fuel is used up.\<close>

fun dispatch :: "build \<Rightarrow> nat \<Rightarrow> pid_t \<Rightarrow> program \<Rightarrow> int \<Rightarrow> evtab state \<Rightarrow> evtab state result option" where
  "dispatch B 0 pid prog left s = None"
| "dispatch B (Suc fuel) pid prog left s =
     (case base s 2 of
        Some (Some delay) \<Rightarrow>
          (if left \<le> delay then Some (Inr s)
           else bind_run (Some (attempt B pid prog (left - delay) (s\<lparr>base := (base s)(2 := None)\<rparr>)))
                  (\<lambda>(secs, s'). dispatch B fuel (pid + 1) prog (left - delay - secs) s'))
      | _ \<Rightarrow> Some (Inr s))"

definition runner :: "build \<Rightarrow> nat \<Rightarrow> program \<Rightarrow> int \<Rightarrow> evtab state \<Rightarrow> (int \<times> evtab state) result option" where
  "runner B fuel prog timeout s =
     bind_run (dispatch B fuel 100 prog timeout (trigger_event table_lib E_TLSDATE 0 s))
       (\<lambda>s'. Some (Inr (if last_time s' \<noteq> 0 then 0 else 1, s')))"

text \<open>What the tests do between two runs.\<close>

definition reset :: "evtab state \<Rightarrow> evtab state" where
  "reset s = s\<lparr>tries := 0, last_sync_type := SYNC_TYPE_NONE\<rparr>"

text \<open>A sequence of runs with the expected results and, if given, the expected times.\<close>

fun expect_runs :: "build \<Rightarrow> nat \<Rightarrow> int \<Rightarrow> (opts \<times> program \<times> int \<times> time_t option) list \<Rightarrow> evtab state \<Rightarrow> bool" where
  "expect_runs B fuel timeout [] s \<longleftrightarrow> True"
| "expect_runs B fuel timeout ((o1, prog, expected, t) # runs) s \<longleftrightarrow>
     (case runner B fuel prog timeout (s\<lparr>opts := o1\<rparr>) of
        Some (Inr (r, s')) \<Rightarrow> r = expected \<and> (case t of None \<Rightarrow> True | Some x \<Rightarrow> last_time s' = x) \<and> expect_runs B fuel timeout runs (reset s')
      | _ \<Rightarrow> False)"

section \<open>The programs\<close>

text \<open>A program that is not there: \<^verbatim>\<open>execve\<close> fails and the child exits with 1, as \<^verbatim>\<open>/bin/false\<close> does.\<close>

definition no_program :: program where
  "no_program argv = (0, 1, None)"

definition at_once :: "(string list \<Rightarrow> int \<times> uint32 option) \<Rightarrow> program" where
  "at_once f argv = (0, f argv)"

definition sleep_wrap :: "build \<Rightarrow> program" where
  "sleep_wrap B argv =
     (if length argv < 2 then (0, 1, None) else (atoi (argv ! 1), 0, Some (word_of_int (RECENT_COMPILE_DATE B + 1))))"

section \<open>The tests\<close>

definition loop_opts :: "build \<Rightarrow> string list \<Rightarrow> source list \<Rightarrow> string option \<Rightarrow> int \<Rightarrow> opts" where
  "loop_opts B args srcs proxy n =
     (set_conf_defaults B)\<lparr>base_argv := args, sources := srcs, opt_proxy := proxy, max_tries := n,
        subprocess_tries := 2, subprocess_wait_between_tries := 1\<rparr>"

definition runner_multi :: "build \<Rightarrow> nat \<Rightarrow> bool" where
  "runner_multi B fuel =
     (let o1 = (\<lambda>args. loop_opts B args [s1] None 3)
      in expect_runs B fuel 1
           [(o1 [''/nonexistent''], no_program, 1, None), (o1 [''/bin/false''], no_program, 1, None),
            (o1 [''src/test/check-host-1''], at_once (check_host_1 B), 0, None),
            (o1 [''src/test/sleep-wrap'', ''3''], sleep_wrap B, 0, None)]
           (fixture (o1 [''/nonexistent''])))"

definition rotate_hosts :: "build \<Rightarrow> nat \<Rightarrow> bool" where
  "rotate_hosts B fuel =
     (let o1 = (\<lambda>prog. loop_opts B [prog] [s1, s2] None 5)
      in expect_runs B fuel 2
           [(o1 ''src/test/check-host-1'', at_once (check_host_1 B), 0, None), (o1 ''src/test/check-host-2'', at_once (check_host_2 B), 0, None),
            (o1 ''src/test/check-host-1'', at_once (check_host_1 B), 0, None), (o1 ''src/test/check-host-2'', at_once (check_host_2 B), 0, None)]
           (fixture (o1 ''src/test/check-host-1'')))"

definition proxy_override_test :: "build \<Rightarrow> nat \<Rightarrow> bool" where
  "proxy_override_test B fuel =
     (let src = \<lparr>src_host = ''host'', src_port = ''port'', src_proxy = None, src_id = 0\<rparr>;
          bad = src\<lparr>src_proxy := Some ''socks5://bad.proxy''\<rparr>;
          o1 = (\<lambda>x p. loop_opts B [''src/test/proxy-override''] [x] p MAX_TRIES);
          prog = at_once (proxy_override B)
      in expect_runs B fuel 1
           [(o1 src None, prog, 0, Some (RECENT_COMPILE_DATE B + 1)), (o1 bad None, prog, 0, Some (RECENT_COMPILE_DATE B + 3)),
            (o1 bad (Some ''socks5://good.proxy''), prog, 0, Some (RECENT_COMPILE_DATE B + 2))]
           (fixture (o1 src None)))"

section \<open>One run\<close>

text \<open>The state between two runs of the tests: no child is running.\<close>

definition idle :: "evtab state \<Rightarrow> bool" where
  "idle s \<longleftrightarrow> events s = fixture_handles \<and> \<not> running s \<and> setter_pid s = 0 \<and> last_sync_type s \<noteq> SYNC_TYPE_NET \<and> 0 < max_tries (opts s)"

lemma fixture_idle: "0 < max_tries o1 \<Longrightarrow> idle (fixture o1)"
  by (simp add: idle_def fixture_def zero_state_def)

lemma trigger_now:
  assumes "events s = fixture_handles"
  shows "trigger_event table_lib E_TLSDATE d s = s\<lparr>base := (base s)(2 := Some (if 0 \<le> d then Some d else None))\<rparr>"
  using assms by (simp add: trigger_event_def fixture_handles_def table_lib_def Let_def)

lemma runner_start:
  assumes "idle s" and "0 < timeout"
  shows "dispatch B (Suc fuel) pid prog timeout (trigger_event table_lib E_TLSDATE 0 s) =
     bind_run (Some (attempt B pid prog timeout (s\<lparr>base := (base s)(2 := None)\<rparr>))) (\<lambda>(secs, s'). dispatch B fuel (pid + 1) prog (timeout - secs) s')"
  using assms by (simp add: idle_def trigger_now)

lemma dispatch_stops: "(case base s 2 of Some (Some d) \<Rightarrow> left \<le> d | _ \<Rightarrow> True) \<Longrightarrow> dispatch B (Suc fuel) pid prog left s = Some (Inr s)"
  by (auto split: option.splits)

lemma bytes_int_uint32: "read_tlsdate_response (Rd (le_bytes 4 (unat (w :: uint32)))) = (0, uint w)"
proof -
  have "unat w < 256 ^ 4" by (rule unsigned_less [THEN order_less_le_trans]) simp
  then have "bytes_int (le_bytes 4 (unat w)) = int (unat w)" by (rule bytes_int_le_bytes)
  then show ?thesis by (simp add: read_tlsdate_response_def)
qed

text \<open>The handlers on the table of the fixture.\<close>

lemma trigger_other:
  assumes "events s = fixture_handles"
  shows "trigger_event table_lib E_TLSDATE_TIMEOUT d s = s\<lparr>base := (base s)(4 := Some (if 0 \<le> d then Some d else None))\<rparr>"
    "trigger_event table_lib E_TLSDATE_STATUS d s = s\<lparr>base := (base s)(3 := Some (if 0 \<le> d then Some d else None))\<rparr>"
    "trigger_event table_lib E_SAVE d s = s"
  using assms by (simp_all add: trigger_event_def fixture_handles_def table_lib_def Let_def)

text \<open>Starting the child.\<close>

lemma run_tlsdate_starts:
  assumes "idle s" and "tries s < max_tries (opts s)" and "0 < pid" and "0 \<le> subprocess_wait_between_tries (opts s)"
  shows "action_run_tlsdate table_lib pid s = Inr (s\<lparr>resolving := False, tries := tries s + 1, running := True, tlsdate_pid := pid,
     base := (base s)(4 := Some (Some (subprocess_wait_between_tries (opts s))), 3 := Some None),
     outs := outs s @ [Spawn pid (child_argv (opts s))]\<rparr>)"
  using assms by (simp add: action_run_tlsdate_def idle_def Let_def trigger_other tlsdate_def emit_def)

text \<open>Its death.\<close>

lemma sigchld_one:
  assumes "handle_child_death L (Wait_Ok info) s = Inr (True, t)" and "handle_child_death L (Wait_Ok no_child) t = Inr (False, t)"
  shows "action_sigchld L [(Wait_Ok info, 0)] s = Inr t"
  using assms
  by (subst action_sigchld_def, subst reap_child_def)
    (simp add: next_wait_def sigchld_loop.simps reap_child_def handle_child_stop_def no_child_def)

lemma child_dies:
  assumes "events s = fixture_handles" and "setter_pid s = 0" and "tlsdate_pid s = pid" and "0 < pid"
  shows "action_sigchld table_lib [(Wait_Ok \<lparr>si_pid = pid, si_status = status, si_code = 1\<rparr>, 0)] s =
     Inr (let s1 = s\<lparr>base := (base s)(4 := None), running := False, tlsdate_pid := 0\<rparr>
          in if status = 0 then s1 else retry_tlsdate table_lib s1)"
  using assms
  by (intro sigchld_one) (simp_all add: handle_child_death_def no_child_def event_del_id_def ev_get_def fixture_handles_def table_lib_def Let_def)

lemma retry_now:
  assumes "events s = fixture_handles"
  shows "retry_tlsdate table_lib s = (let b = (if backoff s < MAX_SANE_BACKOFF then backoff s * 2 else backoff s)
     in s\<lparr>backoff := b, base := (base s)(2 := Some (if 0 \<le> sint b then Some (sint b) else None))\<rparr>)"
  using assms by (auto simp: retry_tlsdate_def Let_def trigger_now fixture_handles_def)

section \<open>Whole runs\<close>

lemma run_success:
  assumes "idle s" "tries s = 0" "0 \<le> subprocess_wait_between_tries (opts s)" "0 < timeout" "0 \<le> RECENT_COMPILE_DATE B"
    and "child_argv (opts s) = Some av" "prog av = (0, 0, Some w)" "is_sane_time B (uint w)"
  obtains s' where "runner B (Suc (Suc fuel)) prog timeout s = Some (Inr (0, s'))" "last_time s' = uint w" "idle (reset s')" "opts s' = opts s"
    "backoff s' = word_of_int (wait_between_tries (opts s))" "tries (reset s') = 0"
proof -
  let ?s = "s\<lparr>base := (base s)(2 := None)\<rparr>"
  let ?b = "word_of_int (wait_between_tries (opts s)) :: uint32"
  have i: "idle ?s" "tries ?s < max_tries (opts ?s)" using assms(1,2) by (auto simp: idle_def)
  define s' where "s' = s\<lparr>resolving := False, tries := 0, running := False, tlsdate_pid := 0, last_sync_type := SYNC_TYPE_NET,
    last_time := uint w, backoff := ?b, base := (base s)(2 := None, 4 := None, 3 := Some None), outs := outs s @ [Spawn 100 (Some av)]\<rparr>"
  have "attempt B 100 prog timeout ?s = Inr (0, s')"
    using assms i run_tlsdate_starts [OF i, of 100]
    by (simp add: attempt_def action_tlsdate_status_def bytes_int_uint32 trigger_other idle_def child_dies s'_def Let_def)
       (simp add: fun_upd_twist)
  then have "dispatch B (Suc (Suc fuel)) 100 prog timeout (trigger_event table_lib E_TLSDATE 0 s) = Some (Inr s')"
    unfolding runner_start [OF assms(1,4)] by (simp add: s'_def)
  moreover have "uint w \<noteq> 0" using assms(5,8) by (auto simp: is_sane_time_def)
  ultimately show ?thesis
    using assms(1) by (intro that [of s']) (simp_all add: runner_def s'_def idle_def reset_def)
qed

text \<open>A child that fails without output while the next attempt is due only after the end of the run.\<close>

lemma run_failure:
  assumes "idle s" "tries s = 0" "0 \<le> subprocess_wait_between_tries (opts s)" "0 < timeout"
    and "child_argv (opts s) = Some av" "prog av = (0, status, None)" "status \<noteq> 0"
    and "backoff s < MAX_SANE_BACKOFF" "timeout \<le> sint (backoff s * 2)"
  obtains s' where "runner B (Suc (Suc fuel)) prog timeout s = Some (Inr (if last_time s \<noteq> 0 then 0 else 1, s'))" "last_time s' = last_time s"
    "idle (reset s')" "opts s' = opts s" "backoff s' = backoff s * 2" "tries (reset s') = 0"
proof -
  let ?s = "s\<lparr>base := (base s)(2 := None)\<rparr>"
  have i: "idle ?s" "tries ?s < max_tries (opts ?s)" using assms(1,2) by (auto simp: idle_def)
  define s' where "s' = s\<lparr>resolving := False, tries := 1, running := False, tlsdate_pid := 0, backoff := backoff s * 2,
    base := (base s)(4 := None, 3 := Some None, 2 := Some (Some (sint (backoff s * 2)))), outs := outs s @ [Spawn 100 (Some av)]\<rparr>"
  have "attempt B 100 prog timeout ?s = Inr (0, s')"
    using assms i run_tlsdate_starts [OF i, of 100]
    by (simp add: attempt_def idle_def child_dies retry_now s'_def Let_def) (simp add: fun_upd_twist)
  then have "dispatch B (Suc (Suc fuel)) 100 prog timeout (trigger_event table_lib E_TLSDATE 0 s) = Some (Inr s')"
    using assms(9) unfolding runner_start [OF assms(1,4)] by (simp add: s'_def)
  then show ?thesis
    using assms(1) by (intro that [of s']) (simp_all add: runner_def s'_def idle_def reset_def)
qed

text \<open>A child that does not end within the run.\<close>

lemma run_unfinished:
  assumes "idle s" "tries s = 0" "0 \<le> subprocess_wait_between_tries (opts s)" "0 < timeout"
    and "child_argv (opts s) = Some av" "prog av = (secs, status, out)" "timeout \<le> secs"
  shows "\<exists>s'. runner B (Suc (Suc fuel)) prog timeout s = Some (Inr (if last_time s \<noteq> 0 then 0 else 1, s')) \<and> last_time s' = last_time s"
proof -
  let ?s = "s\<lparr>base := (base s)(2 := None)\<rparr>"
  have i: "idle ?s" "tries ?s < max_tries (opts ?s)" using assms(1,2) by (auto simp: idle_def)
  obtain s' where "attempt B 100 prog timeout ?s = Inr (timeout, s')" "last_time s' = last_time s" "base s' 2 = None"
    using assms i run_tlsdate_starts [OF i, of 100] by (simp add: attempt_def)
  then show ?thesis unfolding runner_def runner_start [OF assms(1,4)] by simp
qed

text \<open>
  A child that fails in a fresh fixture: with a backoff of zero the attempts follow each other until
  their number is used up.
\<close>

lemma run_exhausted:
  assumes "idle s" "tries s = 0" "max_tries (opts s) = 3" "0 \<le> subprocess_wait_between_tries (opts s)" "0 < timeout"
    and "child_argv (opts s) = Some av" "prog av = (0, status, None)" "status \<noteq> 0" "backoff s = 0"
  obtains s' where "runner B (Suc (Suc (Suc (Suc (Suc fuel))))) prog timeout s = Some (Inr (if last_time s \<noteq> 0 then 0 else 1, s'))" "last_time s' = last_time s"
    "idle (reset s')" "opts s' = opts s" "backoff s' = word_of_int (wait_between_tries (opts s))" "tries (reset s') = 0"
proof -
  have one: "\<exists>t'. attempt B pid prog timeout (t\<lparr>base := (base t)(2 := None)\<rparr>) = Inr (0, t') \<and> idle t' \<and> tries t' = tries t + 1 \<and>
      backoff t' = 0 \<and> opts t' = opts s \<and> last_time t' = last_time s \<and> base t' 2 = Some (Some 0)"
    if "idle t" "tries t < 3" "backoff t = 0" "opts t = opts s" "last_time t = last_time s" "0 < pid" for t pid
  proof -
    have i: "idle (t\<lparr>base := (base t)(2 := None)\<rparr>)" "tries (t\<lparr>base := (base t)(2 := None)\<rparr>) < max_tries (opts (t\<lparr>base := (base t)(2 := None)\<rparr>))"
      using that assms(3) by (auto simp: idle_def)
    show ?thesis
      using that assms(3-9) i run_tlsdate_starts [OF i, of pid]
      by (simp add: attempt_def idle_def child_dies retry_now Let_def MAX_SANE_BACKOFF_def)
  qed
  have step: "dispatch B (Suc n) pid prog timeout t = dispatch B n (pid + 1) prog timeout t'"
    if "attempt B pid prog timeout (t\<lparr>base := (base t)(2 := None)\<rparr>) = Inr (0, t')" "base t 2 = Some (Some 0)" for n pid t t'
    using that assms(5) by simp
  let ?t = "trigger_event table_lib E_TLSDATE 0 s"
  have t0: "idle ?t" "tries ?t = 0" "backoff ?t = 0" "opts ?t = opts s" "last_time ?t = last_time s" "base ?t 2 = Some (Some 0)"
    using assms(1,2,9) trigger_now [of s 0] by (simp_all add: idle_def)
  obtain t1 where t1: "attempt B 100 prog timeout (?t\<lparr>base := (base ?t)(2 := None)\<rparr>) = Inr (0, t1)" "idle t1" "tries t1 = 1" "backoff t1 = 0"
    "opts t1 = opts s" "last_time t1 = last_time s" "base t1 2 = Some (Some 0)"
    using one [of ?t 100] t0 by auto
  obtain t2 where t2: "attempt B 101 prog timeout (t1\<lparr>base := (base t1)(2 := None)\<rparr>) = Inr (0, t2)" "idle t2" "tries t2 = 2" "backoff t2 = 0"
    "opts t2 = opts s" "last_time t2 = last_time s" "base t2 2 = Some (Some 0)"
    using one [of t1 101] t1 by auto
  obtain t3 where t3: "attempt B 102 prog timeout (t2\<lparr>base := (base t2)(2 := None)\<rparr>) = Inr (0, t3)" "idle t3" "tries t3 = 3" "backoff t3 = 0"
    "opts t3 = opts s" "last_time t3 = last_time s" "base t3 2 = Some (Some 0)"
    using one [of t2 102] t2 by auto
  define s' where "s' = t3\<lparr>base := (base t3)(2 := None), resolving := False, tries := 0, backoff := word_of_int (wait_between_tries (opts s))\<rparr>"
  have "attempt B 103 prog timeout (t3\<lparr>base := (base t3)(2 := None)\<rparr>) = Inr (0, s')"
    using t3 assms(3) by (simp add: attempt_def action_run_tlsdate_def idle_def Let_def s'_def)
  then have "dispatch B (Suc (Suc (Suc (Suc (Suc fuel))))) 100 prog timeout ?t = Some (Inr s')"
    using step [OF t1(1) t0(6)] step [OF t2(1) t1(7)] step [OF t3(1) t2(7)] step [of 103 t3 s' "Suc fuel"] t3(7) by (simp add: s'_def)
  then show ?thesis
    using t3 assms(3) by (intro that [of s']) (simp_all add: runner_def s'_def idle_def reset_def)
qed

section \<open>The expectations\<close>

lemma loop_opts [simp]:
  "max_tries (loop_opts B args srcs p n) = n" "subprocess_wait_between_tries (loop_opts B args srcs p n) = 1"
  "wait_between_tries (loop_opts B args srcs p n) = 10"
  by (simp_all add: loop_opts_def set_conf_defaults_def WAIT_BETWEEN_TRIES_def)

text \<open>The command lines of the children; the first source is taken in every run.\<close>

lemma loop_argv:
  "child_argv (loop_opts B args [src] p n) = child_argv (loop_opts B args (src # srcs) p n)"
  "length args \<le> 1024 \<Longrightarrow> child_argv (loop_opts B args (src # srcs) p n) =
     Some (args @ [''-H'', src_host src, ''-p'', src_port src] @ proxy_args (loop_opts B args (src # srcs) p n) src @ [''-Vraw'', ''-n''])"
  by (simp_all add: child_argv_def tlsdate_child_def build_argv_def next_source_def loop_opts_def set_conf_defaults_def proxy_args_def Let_def
      split: option.splits)

lemma loop_argv_s1:
  "length args \<le> 1024 \<Longrightarrow> child_argv (loop_opts B args (s1 # srcs) None n) = Some (args @ [''-H'', ''host1'', ''-p'', ''port1'', ''-x'', ''proxy1'', ''-Vraw'', ''-n''])"
  by (subst loop_argv(2)) (simp_all add: proxy_args_def loop_opts_def s1_def set_conf_defaults_def)

lemma idle_opts [simp]: "0 < max_tries o1 \<Longrightarrow> idle s \<Longrightarrow> idle (s\<lparr>opts := o1\<rparr>)"
  by (simp add: idle_def)

lemma reset_fields [simp]: "last_time (reset s) = last_time s" "backoff (reset s) = backoff s" "opts (reset s) = opts s"
  by (simp_all add: reset_def)

lemma small_backoff: "(10 :: uint32) < MAX_SANE_BACKOFF" "2 \<le> sint ((10 :: uint32) * 2)" "1 \<le> sint ((10 :: uint32) * 2)"
  "(20 :: uint32) < MAX_SANE_BACKOFF" "2 \<le> sint ((20 :: uint32) * 2)"
  by (simp_all add: MAX_SANE_BACKOFF_def)

text \<open>The times the programs print are sane on a build whose date leaves room for them.\<close>

lemma printed_sane:
  assumes "0 \<le> RECENT_COMPILE_DATE B" "RECENT_COMPILE_DATE B + 3 < TLSDATED_MAX_DATE" and "1 \<le> k" "k \<le> 3"
  shows "uint (word_of_int (RECENT_COMPILE_DATE B + k) :: uint32) = RECENT_COMPILE_DATE B + k" "is_sane_time B (RECENT_COMPILE_DATE B + k)"
proof -
  have "0 \<le> RECENT_COMPILE_DATE B + k" "RECENT_COMPILE_DATE B + k < 2 ^ 32" using assms by (simp_all add: limit_defs)
  then show "uint (word_of_int (RECENT_COMPILE_DATE B + k) :: uint32) = RECENT_COMPILE_DATE B + k"
    by (simp add: unsigned_of_int take_bit_int_eq_self del: of_int_add)
  show "is_sane_time B (RECENT_COMPILE_DATE B + k)" using assms by (simp add: is_sane_time_def limit_defs)
qed

text \<open>The program that knows the first source succeeds in every run, the one that knows the second never does.\<close>

lemma run_check_host_1:
  assumes "0 \<le> RECENT_COMPILE_DATE B" "RECENT_COMPILE_DATE B + 3 < TLSDATED_MAX_DATE"
    and "idle s" "tries s = 0" "opts s = loop_opts B [name] (s1 # srcs) None n" "0 < timeout"
  obtains s' where "runner B (Suc (Suc fuel)) (at_once (check_host_1 B)) timeout s = Some (Inr (0, s'))" "last_time s' = RECENT_COMPILE_DATE B + 1"
    "idle (reset s')" "tries (reset s') = 0" "backoff s' = 10"
proof -
  define w where "w = (word_of_int (RECENT_COMPILE_DATE B + 1) :: uint32)"
  have w: "uint w = RECENT_COMPILE_DATE B + 1" "is_sane_time B (uint w)" using printed_sane [OF assms(1,2), of 1] by (simp_all add: w_def)
  let ?av = "[name, ''-H'', ''host1'', ''-p'', ''port1'', ''-x'', ''proxy1'', ''-Vraw'', ''-n'']"
  have prints: "at_once (check_host_1 B) ?av = (0, 0, Some w)" by (simp add: at_once_def check_host_1_def check_host_def w_def)
  have av: "child_argv (opts s) = Some ?av" using loop_argv_s1 [of "[name]" B srcs n] assms(5) by simp
  show ?thesis
    by (rule run_success [where prog = "at_once (check_host_1 B)" and timeout = timeout and fuel = fuel, OF assms(3,4) _ assms(6,1) av prints w(2)])
      (use assms(5) w(1) that in auto)
qed

lemma run_check_host_2:
  assumes "idle s" "tries s = 0" "opts s = loop_opts B [name] (s1 # srcs) None n" "backoff s = 10" "timeout = 2"
  obtains s' where "runner B (Suc (Suc fuel)) (at_once (check_host_2 B)) timeout s = Some (Inr (if last_time s \<noteq> 0 then 0 else 1, s'))"
    "last_time s' = last_time s" "idle (reset s')" "tries (reset s') = 0"
proof -
  let ?av = "[name, ''-H'', ''host1'', ''-p'', ''port1'', ''-x'', ''proxy1'', ''-Vraw'', ''-n'']"
  have fails: "at_once (check_host_2 B) ?av = (0, 1, None)" by (simp add: at_once_def check_host_2_def check_host_def)
  have av: "child_argv (opts s) = Some ?av" using loop_argv_s1 [of "[name]" B srcs n] assms(3) by simp
  show ?thesis
    by (rule run_failure [where prog = "at_once (check_host_2 B)" and timeout = timeout and fuel = fuel, OF assms(1,2) _ _ av fails])
      (use assms(3-5) small_backoff that in auto)
qed

theorem runner_multi_passes:
  assumes "0 \<le> RECENT_COMPILE_DATE B" "RECENT_COMPILE_DATE B + 3 < TLSDATED_MAX_DATE"
  shows "runner_multi B (Suc (Suc (Suc (Suc (Suc fuel)))))"
proof -
  let ?o = "\<lambda>args. loop_opts B args [s1] None 3" and ?f = "Suc (Suc (Suc (Suc (Suc fuel))))"
  let ?s0 = "(fixture (?o [''/nonexistent'']))\<lparr>opts := ?o [''/nonexistent'']\<rparr>"
  have s0: "idle ?s0" "tries ?s0 = 0" "backoff ?s0 = 0" "last_time ?s0 = 0" "opts ?s0 = ?o [''/nonexistent'']"
    by (simp_all add: idle_def fixture_def zero_state_def)
  obtain a where a: "runner B ?f no_program 1 ?s0 = Some (Inr (1, a))" "last_time a = 0" "idle (reset a)" "backoff a = 10" "tries (reset a) = 0"
    using run_exhausted [OF s0(1,2), of 1 _ no_program 1 B fuel] s0 loop_argv_s1 [of "[''/nonexistent'']" B "[]" 3] by (auto simp: no_program_def)
  let ?a = "(reset a)\<lparr>opts := ?o [''/bin/false'']\<rparr>"
  have a': "idle ?a" "tries ?a = 0" using a by simp_all
  obtain b where b: "runner B ?f no_program 1 ?a = Some (Inr (1, b))" "last_time b = 0" "idle (reset b)" "tries (reset b) = 0"
    using run_failure [OF a', of 1 _ no_program 1 B "Suc (Suc (Suc fuel))"] a loop_argv_s1 [of "[''/bin/false'']" B "[]" 3] small_backoff
    by (auto simp: no_program_def)
  let ?b = "(reset b)\<lparr>opts := ?o [''src/test/check-host-1'']\<rparr>"
  have b': "idle ?b" "tries ?b = 0" using b by simp_all
  obtain c where c: "runner B ?f (at_once (check_host_1 B)) 1 ?b = Some (Inr (0, c))" "last_time c = RECENT_COMPILE_DATE B + 1" "idle (reset c)" "tries (reset c) = 0"
    by (rule run_check_host_1 [OF assms b', of "''src/test/check-host-1''" "[]" 3 1 "Suc (Suc (Suc fuel))"]) simp_all
  let ?c = "(reset c)\<lparr>opts := ?o [''src/test/sleep-wrap'', ''3'']\<rparr>"
  have c': "idle ?c" "tries ?c = 0" using c by simp_all
  have "atoi ''3'' = 3" by code_simp
  then obtain d where d: "runner B ?f (sleep_wrap B) 1 ?c = Some (Inr (0, d))"
    using run_unfinished [OF c', of 1 _ "sleep_wrap B" 3 0 "Some (word_of_int (RECENT_COMPILE_DATE B + 1))" B "Suc (Suc (Suc fuel))"]
      loop_argv_s1 [of "[''src/test/sleep-wrap'', ''3'']" B "[]" 3] c(2) assms(1)
    by (auto simp: sleep_wrap_def)
  show ?thesis unfolding runner_multi_def Let_def by (simp add: a b c d del: runner_def)
qed

text \<open>
  The rotation test passes although its second and fourth child fail: they are started with the first
  source, and the runs report the time of an earlier one, which stays where it was.
\<close>

theorem rotate_hosts_passes:
  assumes "0 \<le> RECENT_COMPILE_DATE B" "RECENT_COMPILE_DATE B + 3 < TLSDATED_MAX_DATE"
  shows "rotate_hosts B (Suc (Suc fuel))"
    and "idle s \<Longrightarrow> tries s = 0 \<Longrightarrow> opts s = loop_opts B [name] [s1, s2] None 5 \<Longrightarrow> backoff s = 10 \<Longrightarrow> last_time s = t \<Longrightarrow>
      \<exists>r s'. runner B (Suc (Suc fuel)) (at_once (check_host_2 B)) 2 s = Some (Inr (r, s')) \<and> last_time s' = t"
proof -
  show "\<exists>r s'. runner B (Suc (Suc fuel)) (at_once (check_host_2 B)) 2 s = Some (Inr (r, s')) \<and> last_time s' = t"
    if "idle s" "tries s = 0" "opts s = loop_opts B [name] [s1, s2] None 5" "backoff s = 10" "last_time s = t"
    by (rule run_check_host_2 [OF that(1-4), of 2 fuel]) (use that(5) in auto)
  let ?o = "\<lambda>prog. loop_opts B [prog] [s1, s2] None 5" and ?f = "Suc (Suc fuel)"
  let ?s0 = "(fixture (?o ''src/test/check-host-1''))\<lparr>opts := ?o ''src/test/check-host-1''\<rparr>"
  have s0: "idle ?s0" "tries ?s0 = 0" by (simp_all add: idle_def fixture_def zero_state_def)
  obtain a where a: "runner B ?f (at_once (check_host_1 B)) 2 ?s0 = Some (Inr (0, a))" "last_time a = RECENT_COMPILE_DATE B + 1" "idle (reset a)"
    "tries (reset a) = 0" "backoff a = 10"
    by (rule run_check_host_1 [OF assms s0, of "''src/test/check-host-1''" "[s2]" 5 2 fuel]) simp_all
  let ?a = "(reset a)\<lparr>opts := ?o ''src/test/check-host-2''\<rparr>"
  have a': "idle ?a" "tries ?a = 0" "backoff ?a = 10" "last_time ?a \<noteq> 0" using a assms(1) by simp_all
  obtain b where b: "runner B ?f (at_once (check_host_2 B)) 2 ?a = Some (Inr (0, b))" "idle (reset b)" "tries (reset b) = 0"
    by (rule run_check_host_2 [OF a'(1,2), of B "''src/test/check-host-2''" "[s2]" 5 2 fuel]) (use a'(3,4) in simp_all)
  let ?b = "(reset b)\<lparr>opts := ?o ''src/test/check-host-1''\<rparr>"
  have b': "idle ?b" "tries ?b = 0" using b by simp_all
  obtain c where c: "runner B ?f (at_once (check_host_1 B)) 2 ?b = Some (Inr (0, c))" "last_time c = RECENT_COMPILE_DATE B + 1" "idle (reset c)"
    "tries (reset c) = 0" "backoff c = 10"
    by (rule run_check_host_1 [OF assms b', of "''src/test/check-host-1''" "[s2]" 5 2 fuel]) simp_all
  let ?c = "(reset c)\<lparr>opts := ?o ''src/test/check-host-2''\<rparr>"
  have c': "idle ?c" "tries ?c = 0" "backoff ?c = 10" "last_time ?c \<noteq> 0" using c assms(1) by simp_all
  obtain d where d: "runner B ?f (at_once (check_host_2 B)) 2 ?c = Some (Inr (0, d))"
    by (rule run_check_host_2 [OF c'(1,2), of B "''src/test/check-host-2''" "[s2]" 5 2 fuel]) (use c'(3,4) in simp_all)
  show "rotate_hosts B (Suc (Suc fuel))" unfolding rotate_hosts_def Let_def by (simp add: a b c d)
qed

text \<open>The program that looks for proxies reports the one it was started with.\<close>

lemma run_proxy_override:
  assumes "0 \<le> RECENT_COMPILE_DATE B" "RECENT_COMPILE_DATE B + 3 < TLSDATED_MAX_DATE" and "1 \<le> k" "k \<le> 3"
    and "idle s" "tries s = 0" "subprocess_wait_between_tries (opts s) = 1" "child_argv (opts s) = Some av"
    and "proxy_override B av = (0, Some (word_of_int (RECENT_COMPILE_DATE B + k)))"
  obtains s' where "runner B (Suc (Suc fuel)) (at_once (proxy_override B)) 1 s = Some (Inr (0, s'))" "last_time s' = RECENT_COMPILE_DATE B + k"
    "idle (reset s')" "tries (reset s') = 0"
proof -
  define w where "w = (word_of_int (RECENT_COMPILE_DATE B + k) :: uint32)"
  have w: "uint w = RECENT_COMPILE_DATE B + k" "is_sane_time B (uint w)" using printed_sane [OF assms(1-4)] by (simp_all only: w_def)
  have prints: "at_once (proxy_override B) av = (0, 0, Some w)" using assms(9) by (simp only: at_once_def w_def)
  show ?thesis
    by (rule run_success [where prog = "at_once (proxy_override B)" and timeout = 1 and fuel = fuel, OF assms(5,6) _ _ assms(1,8) prints w(2)])
      (use assms(7) w(1) that in auto)
qed

theorem proxy_override_passes:
  assumes "0 \<le> RECENT_COMPILE_DATE B" "RECENT_COMPILE_DATE B + 3 < TLSDATED_MAX_DATE"
  shows "proxy_override_test B (Suc (Suc fuel))"
proof -
  define src where "src = \<lparr>src_host = ''host'', src_port = ''port'', src_proxy = None, src_id = 0\<rparr>"
  define bad where "bad = src\<lparr>src_proxy := Some ''socks5://bad.proxy''\<rparr>"
  define o1 where "o1 = (\<lambda>x p. loop_opts B [''src/test/proxy-override''] [x] p MAX_TRIES)"
  note defs = src_def bad_def o1_def
  let ?av = "\<lambda>px. [''src/test/proxy-override'', ''-H'', ''host'', ''-p'', ''port''] @ px @ [''-Vraw'', ''-n'']"
  have av: "child_argv (o1 src None) = Some (?av [])" "child_argv (o1 bad None) = Some (?av [''-x'', ''socks5://bad.proxy''])"
    "child_argv (o1 bad (Some ''socks5://good.proxy'')) = Some (?av [''-x'', ''socks5://good.proxy''])"
    unfolding o1_def by (subst loop_argv(2); simp add: src_def bad_def proxy_args_def loop_opts_def set_conf_defaults_def)+
  have out: "proxy_override B (?av []) = (0, Some (word_of_int (RECENT_COMPILE_DATE B + 1)))"
    "proxy_override B (?av [''-x'', ''socks5://bad.proxy'']) = (0, Some (word_of_int (RECENT_COMPILE_DATE B + 3)))"
    "proxy_override B (?av [''-x'', ''socks5://good.proxy'']) = (0, Some (word_of_int (RECENT_COMPILE_DATE B + 2)))"
    by (simp_all add: proxy_override_def)
  have n: "0 < max_tries (o1 x p)" "subprocess_wait_between_tries (o1 x p) = 1" for x p by (simp_all add: o1_def MAX_TRIES_def)
  let ?s0 = "(fixture (o1 src None))\<lparr>opts := o1 src None\<rparr>"
  have s0: "idle ?s0" "tries ?s0 = 0" using n by (simp_all add: idle_def fixture_def zero_state_def)
  obtain a where a: "runner B (Suc (Suc fuel)) (at_once (proxy_override B)) 1 ?s0 = Some (Inr (0, a))" "last_time a = RECENT_COMPILE_DATE B + 1"
    "idle (reset a)" "tries (reset a) = 0"
    by (rule run_proxy_override [OF assms _ _ s0 _ _ out(1)]) (simp_all add: av(1) n)
  let ?a = "(reset a)\<lparr>opts := o1 bad None\<rparr>"
  have a': "idle ?a" "tries ?a = 0" using a n by simp_all
  obtain b where b: "runner B (Suc (Suc fuel)) (at_once (proxy_override B)) 1 ?a = Some (Inr (0, b))" "last_time b = RECENT_COMPILE_DATE B + 3"
    "idle (reset b)" "tries (reset b) = 0"
    by (rule run_proxy_override [OF assms _ _ a' _ _ out(2)]) (simp_all add: av(2) n)
  let ?b = "(reset b)\<lparr>opts := o1 bad (Some ''socks5://good.proxy'')\<rparr>"
  have b': "idle ?b" "tries ?b = 0" using b n by simp_all
  obtain c where c: "runner B (Suc (Suc fuel)) (at_once (proxy_override B)) 1 ?b = Some (Inr (0, c))" "last_time c = RECENT_COMPILE_DATE B + 2"
    by (rule run_proxy_override [OF assms _ _ b' _ _ out(3)]) (simp_all add: av(3) n)
  show ?thesis unfolding proxy_override_test_def Let_def src_def [symmetric] bad_def [symmetric]
    using a b c by (simp add: o1_def [THEN fun_cong, THEN fun_cong, symmetric])
qed

end
