(* ===== verification/Spec2Isabelle.thy ===== *)
theory Spec2Isabelle
  imports Daemon_Inv Setter Helper Tlsdate_Cli Helper_Polarssl Seccomp Rtc Fmemopen Helper_Plan9 Clocks Test_Runner
begin

text \<open>
  \<^bold>\<open>tlsdate, a verification development.\<close> The program sets the system clock from the time that TLS
  servers send. Its parts, under \<^verbatim>\<open>src/\<close>:

  \<^item> the daemon \<^verbatim>\<open>tlsdated\<close> (\<^verbatim>\<open>tlsdated.c\<close>, \<^verbatim>\<open>conf.c\<close>, \<^verbatim>\<open>events/*.c\<close>, \<^verbatim>\<open>tlsdate-monitor.c\<close>, \<^verbatim>\<open>dbus.c\<close>,
    \<^verbatim>\<open>platform-cros.c\<close>, \<^verbatim>\<open>routeup.c\<close>): an event loop that decides when to ask for the time, starts
    \<^verbatim>\<open>tlsdate\<close> in a child, reads the time from a pipe and passes it on;
  \<^item> the time setter (\<^verbatim>\<open>tlsdate-setter.c\<close>): a privileged process that reads times from the daemon, sets
    the clock and saves network times to disk;
  \<^item> the command line program (\<^verbatim>\<open>tlsdate.c\<close>), which turns its options into the argument vector of
  \<^item> the helper (\<^verbatim>\<open>tlsdate-helper.c\<close>, \<^verbatim>\<open>proxy-bio.c\<close>): it connects, possibly through a proxy, checks the
    certificate, takes the time from the TLS handshake or an HTTP date and prints it or sets the clock.
    It is built on OpenSSL or, with another copy of the proxy code, on PolarSSL
    (\<^verbatim>\<open>proxy-polarssl.c\<close>); a port to Plan 9 has older copies of the helper and the proxy filter.

  \<^bold>\<open>Theories and sources.\<close>

  \<^item> \<open>Prelude\<close>: results with their ways to stop (\<open>stop\<close>: exit status, failed assertion, NULL
    dereference), reachability and the locale \<open>invariant_system\<close>. \<open>Clib\<close>: the C string functions.
  \<^item> \<open>Conf\<close>: \<^verbatim>\<open>conf.c\<close>. \<open>Options\<close>: defaults, \<^verbatim>\<open>getopt\<close>, configuration file and checks of \<^verbatim>\<open>tlsdated.c\<close>.
  \<^item> \<open>Sane_Time\<close>: \<^verbatim>\<open>is_sane_time\<close> and the timestamp file; the locale \<open>time_gate\<close>.
  \<^item> \<open>Daemon_State\<close>: \<^verbatim>\<open>struct state\<close> of \<^verbatim>\<open>tlsdate.h\<close> as a record with the trace \<open>outs\<close> of what the
    daemon does to the outside, libevent as a record of operations, \<^verbatim>\<open>trigger_event\<close>.
  \<^item> \<open>Monitor\<close>, \<open>Routeup\<close>, \<open>Events\<close>, \<open>Dbus\<close>, \<open>Cros\<close>, \<open>Privs\<close>: one definition per function of the
    files of the same name (\<open>Privs\<close>: \<^verbatim>\<open>drop_privs_to\<close> and \<^verbatim>\<open>no_new_privs\<close> of \<^verbatim>\<open>util.c\<close>).
  \<^item> \<open>Dbus_Adapters\<close>: the callbacks of \<^verbatim>\<open>dbus.c\<close> by which libdbus uses the event loop, with the memory they
    own, and \<^verbatim>\<open>init_dbus\<close>.
  \<^item> \<open>Setter\<close>: \<^verbatim>\<open>tlsdate-setter.c\<close>, one turn per message and the loop over a script of messages.
  \<^item> \<open>Daemon\<close>: start-up in the order of \<^verbatim>\<open>main\<close> and the event loop as the step relation \<open>step\<close>, one
    rule per registered callback; \<open>Daemon_Inv\<close>: the invariant of every reachable state, through an
    interpretation of \<open>invariant_system\<close>.
  \<^item> \<open>Bio\<close>: OpenSSL's BIO as an interface: the locales \<open>stream_bio\<close> (whole writes, full reads) and the
    weaker \<open>chunked_bio\<close> (pieces of any size), and \<^verbatim>\<open>test-bio.c\<close> as the instance the source has.
  \<^item> \<open>Proxy_Bio\<close>: \<^verbatim>\<open>proxy-bio.c\<close>; \<open>Proxy_Uri\<close>, \<open>Http_Date\<close>, \<open>Cert_Names\<close>, \<open>Helper\<close>: \<^verbatim>\<open>tlsdate-helper.c\<close>
    as it is built on OpenSSL. \<open>Clocks\<close>: the clocks of \<^verbatim>\<open>compat/\<close> for GNU/Linux, the Hurd and Darwin
    over system calls that are parameters.
  \<^item> \<open>Tlsdate_Cli\<close>: \<^verbatim>\<open>tlsdate.c\<close>.
  \<^item> \<open>Proxy_Polarssl\<close>: \<^verbatim>\<open>proxy-polarssl.c\<close>; \<open>Helper_Polarssl\<close>: \<^verbatim>\<open>tlsdate-helper.c\<close> as it is built on PolarSSL,
    with the parent process (\<open>parent_main\<close>) it shares with the OpenSSL build.
  \<^item> \<open>Proxy_Plan9\<close>, \<open>Helper_Plan9\<close>: the functions of the Plan 9 port that differ from the originals,
    with \<^verbatim>\<open>main\<close> for both libraries.
  \<^item> \<open>Seccomp\<close>: the filter program of \<^verbatim>\<open>seccomp.c\<close> and an interpreter for it. \<open>Rtc\<close>: the hardware clock
    and \<^verbatim>\<open>file_open\<close> of \<^verbatim>\<open>util.c\<close>. \<open>Fmemopen\<close>: the replacements of library functions in \<^verbatim>\<open>common/\<close>, with
    the locale \<open>mem_file\<close> interpreted on both files in memory.
  \<^item> \<open>Unit_Tests\<close>: the unit tests of the repository, evaluated on the definitions. \<open>Test_Runner\<close>: the three
    tests that run the event loop, which is there the loop of a clock over attempts to start a program.

  \<^bold>\<open>What the theorems show.\<close> For the daemon: every time it holds or sends is plausible, no handler
  dereferences NULL, tries and backoff stay bounded, every dead child is booked, a wake-up that counts
  no attempt schedules one but for one random number (\<open>Daemon_Inv\<close>, \<open>Events\<close>); exactly when a bus
  client replaces the pending time (\<open>Dbus\<close>); the callbacks for libdbus keep their events armed as asked and
  never use freed memory unless libevent fails, when a block is freed twice (\<open>Dbus_Adapters\<close>). For the
  setter: only sane times are set, only network times are saved (\<open>Setter\<close>). For the helper: the date of an HTTP answer, cut into any pieces, is the calendar's
  count of seconds; what a certificate must satisfy; the clock is set only to plausible times
  (\<open>Http_Date\<close>, \<open>Cert_Names\<close>, \<open>Helper\<close>). For the proxy: each handshake consumes exactly its answer and
  ends (\<open>Proxy_Bio\<close>), and the copy for PolarSSL does the same (\<open>Proxy_Polarssl\<close>). For the sandbox: the
  filter decides as its table says and lets through every system call of the confined setter but
  those that the C library makes for logging and for the calendar (\<open>Seccomp\<close>). Files in memory stay
  well formed (\<open>Fmemopen\<close>). Round trips: the hardware clock, configuration entries, time stamps on
  disk. This theory composes the processes: server to helper to command line to daemon, and daemon to
  setter to clock and disk.
  Several theorems state what the code does where it does not do what was meant: only the first
  source is ever used, wildcards compare one label, a failed handshake lets data through, a SOCKS4
  proxy aborts and the documented \<^verbatim>\<open>socks4a\<close> is refused, long options lose their values, the PolarSSL
  build frees an uninitialised context, the Plan 9 helper never obtains a time.

  \<^bold>\<open>Parameters and bounds.\<close> libevent, D-Bus, OpenSSL, PolarSSL, the clock, the file system and the
  results of system calls are arguments, and so are the system calls that the C library makes on its
  own (\<open>libc_calls\<close>); the hypotheses on them are the documented behaviour
  (\<open>evlib_ok\<close>, \<open>bus_ops_ok\<close>, \<open>stream_bio\<close>, \<open>chunked_bio\<close>) and have instances. Loops that read a finite buffer recurse
  on it. The loop over the header lines of a proxy takes fuel; \<open>http_connect_terminates\<close> shows that
  more fuel than pending bytes is enough. The two loops of the PolarSSL handshake run as long as the
  library asks to be called again, so that they take fuel too and every theorem on them holds for any
  amount. The loops of the setter and of the signal handler run over scripts of results of any
  length. A \<^verbatim>\<open>time_t\<close> has 64 bits and is stored in little-endian order.

  \<^bold>\<open>Not modelled.\<close> Log output and declarations; libdbus itself, of which \<open>Dbus_Adapters\<close> has the documented
  order of its calls; the macros of the test harness, which register and run the tests. The functions of
  the Plan 9 copies that are the same as in the original files have no definitions of their own.
\<close>

section \<open>Daemon and setter together\<close>

text \<open>The message that saving sends.\<close>

lemma sync_and_save_sends:
  assumes "action_sync_and_save False (\<lambda>_. Wrote 8) s = Inr s'" and "outs s' = outs s @ [Pipe_Write t]"
    and "\<not> exitting s"
  shows "t = (if last_sync_type s = SYNC_TYPE_NET then last_time s else - last_time s)"
  using assms(1)
proof (cases rule: sync_and_save_cases)
  case 1
  then show ?thesis using assms(2) by simp
next
  case (2 u)
  then show ?thesis using assms(2) by (auto split: if_splits)
next
  case (3 u)
  then show ?thesis using assms(3) by simp
qed

text \<open>
  C2. From the network to clock and disk: when the daemon holds a network time and its save event
  fires on a pipe that takes the message, the setter that reads that message sets the clock to
  this time, writes it to the timestamp file and reports success, and the next start of the daemon
  loads exactly this time from disk. A sane time from any other source is set but not written.
\<close>

theorem network_time_reaches_clock_and_disk:
  assumes "reached B L o1 (ctx, s)" and "\<not> exitting s" and "is_sane_time B (last_time s)"
    and "action_sync_and_save False (\<lambda>_. Wrote 8) s = Inr s'" and "outs s' = outs s @ [Pipe_Write t]"
    and "\<not> dry_run o2" and "set_ok c" and "rtc_ok c" and "save_written c = 8"
    and "msg_read c = Rd (time_bytes t)"
  shows "\<exists>f es. setter_turn B o2 c status (Some old) = (Again (Some SETTER_TIME_SET), f, es) \<and>
     Set_Time (last_time s) \<in> set es \<and>
     (if last_sync_type s = SYNC_TYPE_NET
      then \<exists>new. f = Some new \<and> (\<forall>path. load_disk_timestamp B (\<lambda>_. Some new) path = Some (last_time s))
      else f = Some old)"
proof -
  have B: "0 \<le> RECENT_COMPILE_DATE B" using reached_good [OF assms(1)] by (simp add: good_start_def)
  have pos: "0 < last_time s" "last_time s < 2 ^ 31" using assms(3) B by (auto simp: is_sane_time_def limit_defs)
  have t: "t = (if last_sync_type s = SYNC_TYPE_NET then last_time s else - last_time s)"
    using sync_and_save_sends [OF assms(4,5,2)] .
  have m: "msg_time c = Some t"
    using assms(10) pos by (simp add: msg_time_def t bytes_time_of_bytes)
  have "\<bar>t\<bar> = last_time s" "t \<noteq> 0" "0 < t \<longleftrightarrow> last_sync_type s = SYNC_TYPE_NET" using pos by (auto simp: t)
  with setter_turn_sane [OF m _ assms(6-9), of B status old] assms(3) show ?thesis
    using saved_time_loads [of B "last_time s"] B by (auto simp: t split: if_splits)
qed

definition sample_message :: setter_call where
  "sample_message = \<lparr>msg_read = Rd (time_bytes (- 1400000000)), set_ok = True, rtc_ok = True, save_written = 8\<rparr>"

theorem network_time_reaches_clock_and_disk_witness:
  "\<exists>f es. setter_turn sample_build sample_opts sample_message None (Some []) = (Again (Some SETTER_TIME_SET), f, es) \<and>
     Set_Time 1400000000 \<in> set es"
proof -
  obtain ctx s where 1: "tlsdated_main sample_build table_lib sample_env sample_opts ''/t'' (\<lambda>_. None) = Inr (Loop ctx s)"
    using sample_started by blast
  have "case tlsdated_main sample_build table_lib sample_env sample_opts ''/t'' (\<lambda>_. None) of
      Inr (Loop _ s) \<Rightarrow> (case action_sync_and_save False (\<lambda>_. Wrote 8) s of
         Inr s' \<Rightarrow> \<not> exitting s \<and> last_time s = 1400000000 \<and> outs s' = outs s @ [Pipe_Write (- 1400000000)] | _ \<Rightarrow> False) | _ \<Rightarrow> False"
    by code_simp
  with 1 obtain s' where 2: "action_sync_and_save False (\<lambda>_. Wrote 8) s = Inr s'"
      "outs s' = outs s @ [Pipe_Write (- 1400000000)]" "\<not> exitting s" "last_time s = 1400000000"
    by (auto split: sum.splits)
  have "good_start sample_build sample_opts"
    by (simp add: good_start_def sample_build_def sample_opts_def add_source_to_conf_def set_conf_defaults_def)
  then have "reached sample_build table_lib sample_opts (ctx, s)"
    using 1 sample_env_ok unfolding reached_def started_def by (blast intro: reach_start)
  from network_time_reaches_clock_and_disk [OF this 2(3) _ 2(1,2), of sample_opts sample_message None "[]"]
  show ?thesis
    by (auto simp: 2(4) sample_message_def is_sane_time_def sample_build_def limit_defs sample_opts_def
        add_source_to_conf_def set_conf_defaults_def)
qed


section \<open>Daemon, command line program and helper together\<close>

lemma raw_bytes_read: "read_tlsdate_response (Rd (raw_bytes w)) = (0, uint w)"
proof -
  have "bytes_int (raw_bytes w) = uint w mod 256 ^ 4" unfolding raw_bytes_def by (rule bytes_int_digits)
  also have "\<dots> = uint w" using uint_bounded [of w] by simp
  finally show ?thesis by (simp add: read_tlsdate_response_def raw_bytes_def)
qed

text \<open>A helper that is told neither to set nor to warp the clock, and to print the raw time.\<close>

lemma helper_reports_raw:
  assumes "helper_main B T E argv = (0, out)" and "argv ! 7 = ''dont-set-clock''" "argv ! 8 = ''showtime=raw''" "argv ! 9 = ''no-fun''"
  shows "\<exists>c tm. ssl_child B T E c argv = Inr tm \<and> clock_sets out = [] \<and> raw_out out = [ntohl_bytes tm] \<and> c_uid c \<noteq> 0"
proof -
  obtain c st where c: "drop_privs_to (privs E) (UNPRIV_USER B) (UNPRIV_GROUP B) (creds0 E) = Inr c"
    and a: "after_warp B (bind_res (ssl_child B T E c argv) (\<lambda>time_map. Inr (ntohl_bytes time_map))) E argv st no_out = (0, out)"
    using assms by (auto simp: helper_main_def parent_main_def Let_def split: if_splits sum.splits option.splits)
  obtain tm where tm: "ssl_child B T E c argv = Inr tm" and f: "finish B E argv st (ntohl_bytes tm) no_out = (0, out)"
    using a by (auto simp: after_warp_def split: if_splits sum.splits)
  have "clock_sets out = []" "raw_out out = [ntohl_bytes tm]"
    using f assms(2,3) by (auto simp: finish_def Let_def no_out_def split: if_splits option.splits)
  moreover have "c_uid c \<noteq> 0" using c by (auto simp: drop_privs_to_def split: if_splits option.splits)
  ultimately show ?thesis using tm by blast
qed

lemma status_takes_sane_time:
  "last_time (action_tlsdate_status B L (Rd (raw_bytes w)) s) = (if is_sane_time B (uint w) then uint w else last_time s)"
  "last_sync_type (action_tlsdate_status B L (Rd (raw_bytes w)) s) =
     (if is_sane_time B (uint w) then SYNC_TYPE_NET else last_sync_type s)"
  by (simp_all add: action_tlsdate_status_def raw_bytes_read)

text \<open>
  C10. From the server to the daemon: the command the daemon starts for a source runs the helper
  without root rights and without touching the clock; if the helper succeeds, it prints exactly
  the time its child brought from that source's server, and the daemon that reads these bytes takes
  this time as its network time if it is plausible and otherwise keeps the time it had.
\<close>

theorem daemon_receives_server_time:
  assumes "build_argv alloc o1 = Inr (o2, Some av)" and "base_argv o1 = prog # pre" and "pre = [] \<or> pre = [''-H'', h0]"
    and "tlsdate_main certfile (tl av) = Inr argv" and "helper_main B T E argv = (0, out)"
  shows "\<exists>i c tm w. cur_source o2 = Some i \<and> argv ! 1 = src_host (sources o1 ! i) \<and> argv ! 2 = src_port (sources o1 ! i) \<and>
     c_uid c \<noteq> 0 \<and> ssl_child B T E c argv = Inr tm \<and> clock_sets out = [] \<and> w = ntohl_bytes tm \<and> raw_out out = [w] \<and>
     last_time (action_tlsdate_status B L (Rd (raw_bytes w)) s) = (if is_sane_time B (uint w) then uint w else last_time s) \<and>
     last_sync_type (action_tlsdate_status B L (Rd (raw_bytes w)) s) =
       (if is_sane_time B (uint w) then SYNC_TYPE_NET else last_sync_type s)"
proof -
  obtain i where i: "cur_source o2 = Some i" and argv: "argv = helper_command certfile o1 (sources o1 ! i)"
    using tlsdate_main_daemon [OF assms(1-3), of certfile] assms(4) by auto
  have a: "argv ! 7 = ''dont-set-clock''" "argv ! 8 = ''showtime=raw''" "argv ! 9 = ''no-fun''"
    and src: "argv ! 1 = src_host (sources o1 ! i)" "argv ! 2 = src_port (sources o1 ! i)"
    by (simp_all add: argv helper_command_def)
  obtain c tm where "ssl_child B T E c argv = Inr tm" "clock_sets out = []" "raw_out out = [ntohl_bytes tm]" "c_uid c \<noteq> 0"
    using helper_reports_raw [OF assms(5) a] by blast
  then show ?thesis
    using i src by (intro exI [of _ i] exI [of _ c] exI [of _ tm] exI [of _ "ntohl_bytes tm"] conjI status_takes_sane_time refl)
qed


definition www_opts :: opts where
  "www_opts = add_source_to_conf (set_conf_defaults early_build) ''www.example.org'' ''443'' None"

lemma www_child:
  "ssl_child early_build sample_tls sample_helper_env \<lparr>c_uid = 99, c_gid = 98, c_groups = Some (UNPRIV_USER early_build, 98)\<rparr>
     (helper_command ''/ca'' www_opts (sources www_opts ! 0)) = Inr (htonl_bytes 3487777)"
proof -
  have "take 4 (htonl_bytes w) = htonl_bytes w" for w by (simp add: htonl_bytes_def)
  then show ?thesis
    using sample_checks
    by (simp add: ssl_child_def run_ssl_def helper_opts_of_def helper_command_def make_ssl_bio_def setup_proxy_def load_ca_def
        conn_ssl_def sample_tls_def sample_conn_def www_opts_def add_source_to_conf_def set_conf_defaults_def proxy_of_def
        drop_privs_to_def Let_def)
qed

lemma www_run:
  "case helper_main early_build sample_tls sample_helper_env (helper_command ''/ca'' www_opts (sources www_opts ! 0)) of
     (r, out) \<Rightarrow> r = 0 \<and> raw_out out = [3487777]"
proof -
  let ?argv = "helper_command ''/ca'' www_opts (sources www_opts ! 0)"
  have a: "length ?argv = 13" "?argv ! 7 = ''dont-set-clock''" "?argv ! 8 = ''showtime=raw''" "?argv ! 9 = ''no-fun''"
    by (simp_all add: helper_command_def)
  have e: "mmap_ok sample_helper_env" "h_fork_ok sample_helper_env" "child_reaped sample_helper_env"
    "clk_start sample_helper_env = Some \<lparr>tv_sec = 1500, tv_nsec = 0\<rparr>" "clk_end sample_helper_env = Some \<lparr>tv_sec = 1502, tv_nsec = 0\<rparr>"
    by (simp_all add: sample_helper_env_def)
  have "\<not> round_trip_ms \<lparr>tv_sec = 1500, tv_nsec = 0\<rparr> \<lparr>tv_sec = 1502, tv_nsec = 0\<rparr> > TLS_RTT_UNREASONABLE" by code_simp
  then show ?thesis
    using sample_drop www_child a e by (simp add: helper_main_def parent_main_def Let_def after_warp_def finish_def no_out_def)
qed

theorem daemon_receives_server_time_witness:
  "\<exists>out w. helper_main early_build sample_tls sample_helper_env (helper_command ''/ca'' www_opts (sources www_opts ! 0)) = (0, out) \<and>
     raw_out out = [w] \<and> is_sane_time early_build (uint w) \<and>
     last_time (action_tlsdate_status early_build table_lib (Rd (raw_bytes w)) sample_state) = uint w"
proof -
  obtain o2 av where av: "build_argv True www_opts = Inr (o2, Some av)"
    by (simp add: build_argv_def Let_def www_opts_def add_source_to_conf_def set_conf_defaults_def)
  have base: "base_argv www_opts = TLSDATE early_build # [''-H'', ''google.com'']"
    by (simp add: www_opts_def add_source_to_conf_def set_conf_defaults_def DEFAULT_HOST_def)
  have cmd: "tlsdate_main ''/ca'' (tl av) = Inr (helper_command ''/ca'' www_opts (sources www_opts ! 0))"
    using tlsdate_main_daemon [OF av base, of "''google.com''" "''/ca''"] av
    by (auto simp: build_argv_def Let_def www_opts_def add_source_to_conf_def set_conf_defaults_def next_source_def)
  have "case helper_main early_build sample_tls sample_helper_env (helper_command ''/ca'' www_opts (sources www_opts ! 0)) of
      (r, out) \<Rightarrow> r = 0 \<and> raw_out out = [3487777]"
    by (rule www_run)
  then obtain out where out: "helper_main early_build sample_tls sample_helper_env (helper_command ''/ca'' www_opts (sources www_opts ! 0)) = (0, out)"
      "raw_out out = [3487777]" by (auto split: prod.splits)
  have "is_sane_time early_build (uint (3487777 :: uint32))" by code_simp
  with daemon_receives_server_time [OF av base _ cmd out(1), of "''google.com''" table_lib sample_state] out show ?thesis
    by auto
qed


end
